(* ===== verification/Prelude.thy ===== *)
theory Prelude
  imports Main "HOL-Library.Finite_Map" "HOL-Library.Multiset"
begin

text \<open>
  What the components share: the result of a Go call (a value, an error value or a panic), 64-bit
  wrap-around, reading a Go pointer, the process environment, and generic lemmas on lists and
  finite maps.
\<close>

section \<open>Results of Go calls\<close>

text \<open>
  A call returns normally, returns a non-nil \<open>error\<close>, or panics (nil dereference, failed type
  assertion). The Go convention \<open>(T, error)\<close> of the driver's own functions never returns a
  meaningful value next to a non-nil error unless stated.
\<close>

datatype ('e, 'a) outcome = Ok 'a | Err 'e | Panic

fun is_panic :: "('e, 'a) outcome \<Rightarrow> bool" where
  "is_panic Panic = True"
| "is_panic _ = False"

fun is_ok :: "('e, 'a) outcome \<Rightarrow> bool" where
  "is_ok (Ok _) = True"
| "is_ok _ = False"

lemma is_ok_iff: "is_ok r \<longleftrightarrow> (\<exists>a. r = Ok a)"
  by (cases r) auto

lemma not_panic_iff: "\<not> is_panic r \<longleftrightarrow> (\<exists>a. r = Ok a) \<or> (\<exists>e. r = Err e)"
  by (cases r) auto

text \<open>Sequencing of calls on a shared state: the rest runs only after a normal return.\<close>

definition andThen ::
  "('s \<Rightarrow> ('e, 'a) outcome \<times> 's) \<Rightarrow> ('a \<Rightarrow> 's \<Rightarrow> ('e, 'b) outcome \<times> 's) \<Rightarrow> 's \<Rightarrow> ('e, 'b) outcome \<times> 's" where
  "andThen f g s =
     (case f s of
        (Ok a, s') \<Rightarrow> g a s'
      | (Err e, s') \<Rightarrow> (Err e, s')
      | (Panic, s') \<Rightarrow> (Panic, s'))"

lemma andThen_Ok: "andThen f g s = (Ok b, t) \<longleftrightarrow> (\<exists>a s'. f s = (Ok a, s') \<and> g a s' = (Ok b, t))"
  by (auto simp: andThen_def split: prod.splits outcome.splits)

lemma andThen_no_panic:
  assumes "\<not> is_panic (fst (f s))" "\<And>a s'. f s = (Ok a, s') \<Longrightarrow> \<not> is_panic (fst (g a s'))"
  shows "\<not> is_panic (fst (andThen f g s))"
  using assms by (auto simp: andThen_def split: prod.splits outcome.splits)

text \<open>A call on a recorded state: the state is a log of the calls made and the state proper.\<close>

definition record_call :: "'c \<Rightarrow> ('s \<Rightarrow> 'r \<times> 's) \<Rightarrow> 'c list \<times> 's \<Rightarrow> 'r \<times> 'c list \<times> 's" where
  "record_call c f st = (case f (snd st) of (r, s') \<Rightarrow> (r, fst st @ [c], s'))"

section \<open>Machine integers\<close>

text \<open>Go's \<open>int\<close> is 64 bits wide on the supported platforms; products wrap around.\<close>

definition i64 :: "int \<Rightarrow> int" where
  "i64 x = (x + 2 ^ 63) mod 2 ^ 64 - 2 ^ 63"

lemma i64_range: "- (2 ^ 63) \<le> i64 x" "i64 x < 2 ^ 63"
  by (simp_all add: i64_def)

lemma i64_id: "- (2 ^ 63) \<le> x \<Longrightarrow> x < 2 ^ 63 \<Longrightarrow> i64 x = x"
  by (simp add: i64_def)

section \<open>The process environment\<close>

type_synonym environ = "(string, string) fmap"

text \<open>\<open>os.Getenv\<close>: the empty string for a variable that is not set.\<close>

definition Getenv :: "environ \<Rightarrow> string \<Rightarrow> string" where
  "Getenv env k = (case fmlookup env k of None \<Rightarrow> [] | Some v \<Rightarrow> v)"

text \<open>Indexing a Go \<open>map[string]string\<close>: the zero value for a missing key.\<close>

definition map_get :: "(string, string) fmap \<Rightarrow> string \<Rightarrow> string" where
  "map_get m k = (case fmlookup m k of None \<Rightarrow> [] | Some v \<Rightarrow> v)"

lemma Getenv_upd [simp]: "Getenv (fmupd k v env) k' = (if k' = k then v else Getenv env k')"
  by (simp add: Getenv_def)

lemma map_get_upd [simp]: "map_get (fmupd k v m) k' = (if k' = k then v else map_get m k')"
  by (simp add: map_get_def)

lemma map_get_empty [simp]: "map_get fmempty k = []"
  by (simp add: map_get_def)

section \<open>Lists and finite maps\<close>

lemma find_Some_iff_ex: "(\<exists>x. find P xs = Some x) \<longleftrightarrow> (\<exists>x\<in>set xs. P x)"
  by (induction xs) auto

lemma fmlookup_eqI: "(\<And>k. fmlookup m k = fmlookup n k) \<Longrightarrow> m = n"
  by (simp add: fmap_ext)

lemma fmdrop_upd_restore: "fmlookup m k = Some v \<Longrightarrow> fmupd k v (fmdrop k m) = m"
  by (rule fmlookup_eqI) auto

lemma fmdrop_upd_new: "fmlookup m k = None \<Longrightarrow> fmdrop k (fmupd k v m) = m"
  by (rule fmlookup_eqI) auto

lemma fmupd_idle: "fmlookup m k = Some v \<Longrightarrow> fmupd k v m = m"
  by (rule fmlookup_eqI) auto

lemma map_of_perm_distinct:
  assumes "distinct (map fst xs)" and "mset xs = mset ys"
  shows "map_of xs = map_of ys"
proof -
  have "mset (map fst xs) = mset (map fst ys)"
    using assms(2) by simp
  then have "distinct (map fst ys)"
    using assms(1) by (metis mset_eq_imp_distinct_iff)
  moreover have "set xs = set ys"
    using assms(2) by (rule mset_eq_setD)
  ultimately show ?thesis
    using assms(1) by (intro ext) (metis map_of_eq_Some_iff not_None_eq)
qed

section \<open>Steps and invariants\<close>

text \<open>
  The contract between a step relation and its invariant: every step keeps it. Each system of the development (the node,
  its restarts, the controller, the server process, the interleavings) provides it, and what holds of one step then
  holds of every run.
\<close>

locale step_system =
  fixes step :: "'s \<Rightarrow> 's \<Rightarrow> bool" and inv :: "'s \<Rightarrow> bool"
  assumes step_keeps: "step s s' \<Longrightarrow> inv s \<Longrightarrow> inv s'"
begin

lemma run_keeps: "step\<^sup>*\<^sup>* s s' \<Longrightarrow> inv s \<Longrightarrow> inv s'"
  by (induction rule: rtranclp_induct) (auto intro: step_keeps)

end

end
