(* ===== verification/Go_Strings.thy ===== *)
theory Go_Strings
  imports Prelude
begin

text \<open>
  The functions of Go's \<open>strings\<close>, \<open>strconv\<close>, \<open>bufio\<close> and \<open>path/filepath\<close> packages the driver
  calls, on byte strings (a Go string is a sequence of bytes, an Isabelle \<open>string\<close> a list of
  8-bit characters). Separators are single bytes everywhere in the driver. The lemmas are the laws
  the components use: splitting and joining, reading back printed integers, trimming, scanning
  lines.
\<close>

section \<open>Prefixes, suffixes, substrings\<close>

definition HasPrefix :: "string \<Rightarrow> string \<Rightarrow> bool" where
  "HasPrefix s p \<longleftrightarrow> take (length p) s = p"

definition HasSuffix :: "string \<Rightarrow> string \<Rightarrow> bool" where
  "HasSuffix s p \<longleftrightarrow> length p \<le> length s \<and> drop (length s - length p) s = p"

definition TrimPrefix :: "string \<Rightarrow> string \<Rightarrow> string" where
  "TrimPrefix s p = (if HasPrefix s p then drop (length p) s else s)"

definition TrimSuffix :: "string \<Rightarrow> string \<Rightarrow> string" where
  "TrimSuffix s p = (if HasSuffix s p then take (length s - length p) s else s)"

fun Index_nat :: "string \<Rightarrow> string \<Rightarrow> nat option" where
  "Index_nat [] sub = (if sub = [] then Some 0 else None)"
| "Index_nat (c # s) sub =
     (if HasPrefix (c # s) sub then Some 0 else map_option Suc (Index_nat s sub))"

fun LastIndex_nat :: "string \<Rightarrow> string \<Rightarrow> nat option" where
  "LastIndex_nat [] sub = (if sub = [] then Some 0 else None)"
| "LastIndex_nat (c # s) sub =
     (case LastIndex_nat s sub of
        Some i \<Rightarrow> Some (Suc i)
      | None \<Rightarrow> if HasPrefix (c # s) sub then Some 0 else None)"

definition Index :: "string \<Rightarrow> string \<Rightarrow> int" where
  "Index s sub = (case Index_nat s sub of None \<Rightarrow> -1 | Some i \<Rightarrow> int i)"

definition LastIndex :: "string \<Rightarrow> string \<Rightarrow> int" where
  "LastIndex s sub = (case LastIndex_nat s sub of None \<Rightarrow> -1 | Some i \<Rightarrow> int i)"

fun Contains :: "string \<Rightarrow> string \<Rightarrow> bool" where
  "Contains [] sub = (sub = [])"
| "Contains (c # s) sub = (HasPrefix (c # s) sub \<or> Contains s sub)"

lemma HasPrefix_iff: "HasPrefix s p \<longleftrightarrow> (\<exists>t. s = p @ t)"
  by (metis HasPrefix_def append_eq_conv_conj append_take_drop_id)

lemma HasSuffix_iff: "HasSuffix s p \<longleftrightarrow> (\<exists>t. s = t @ p)"
proof
  assume "HasSuffix s p"
  then have "s = take (length s - length p) s @ p"
    by (metis HasSuffix_def append_take_drop_id)
  then show "\<exists>t. s = t @ p" by blast
qed (auto simp: HasSuffix_def)

lemma HasPrefix_append [simp]: "HasPrefix (p @ t) p"
  by (simp add: HasPrefix_def)

lemma HasSuffix_append [simp]: "HasSuffix (t @ p) p"
  by (simp add: HasSuffix_def)

lemma HasPrefix_Nil [simp]: "HasPrefix s []" "HasPrefix [] p \<longleftrightarrow> p = []"
  by (auto simp: HasPrefix_def)

lemma HasPrefix_Cons [simp]: "HasPrefix (c # s) (d # p) \<longleftrightarrow> c = d \<and> HasPrefix s p"
  by (auto simp: HasPrefix_def)

lemma TrimPrefix_append [simp]: "TrimPrefix (p @ t) p = t"
  by (simp add: TrimPrefix_def)

lemma TrimSuffix_append [simp]: "TrimSuffix (t @ p) p = t"
  by (simp add: TrimSuffix_def)

lemma Contains_iff: "Contains s sub \<longleftrightarrow> (\<exists>a b. s = a @ sub @ b)"
proof (induction s)
  case Nil
  then show ?case by auto
next
  case IH: (Cons c s)
  show ?case
  proof
    assume "Contains (c # s) sub"
    then consider (here) t where "c # s = sub @ t" | (later) a b where "s = a @ sub @ b"
      using IH by (auto simp: HasPrefix_iff)
    then show "\<exists>a b. c # s = a @ sub @ b"
    proof cases
      case here
      then have "c # s = [] @ sub @ t" by simp
      then show ?thesis by blast
    next
      case later
      then have "c # s = (c # a) @ sub @ b" by simp
      then show ?thesis by blast
    qed
  next
    assume "\<exists>a b. c # s = a @ sub @ b"
    then obtain a b where ab: "c # s = a @ sub @ b" by blast
    show "Contains (c # s) sub"
    proof (cases a)
      case Nil
      then have "HasPrefix (c # s) sub" using ab by (auto simp: HasPrefix_iff)
      then show ?thesis by simp
    next
      case (Cons x a')
      then have "s = a' @ sub @ b" using ab by simp
      then have "Contains s sub" using IH by blast
      then show ?thesis by simp
    qed
  qed
qed

lemma Contains_append: "Contains (a @ sub @ b) sub"
  using Contains_iff by blast

lemma Contains_Index: "Contains s sub \<longleftrightarrow> Index s sub \<noteq> -1"
proof -
  have "Contains s sub \<longleftrightarrow> Index_nat s sub \<noteq> None"
    by (induction s) auto
  then show ?thesis by (auto simp: Index_def split: option.splits)
qed

lemma Contains_char: "Contains s [c] \<longleftrightarrow> c \<in> set s"
  by (induction s) auto

lemma HasPrefix_Index: "Index s sub = 0 \<longleftrightarrow> HasPrefix s sub"
  by (cases s) (auto simp: Index_def HasPrefix_def split: option.splits)

lemma Index_char_split:
  assumes "Index s [c] = int i"
  shows "i < length s" "s ! i = c" "c \<notin> set (take i s)" "s = take i s @ c # drop (Suc i) s"
proof -
  have "i < length s \<and> s ! i = c \<and> c \<notin> set (take i s)"
    using assms
  proof (induction s arbitrary: i)
    case (Cons x s)
    show ?case
    proof (cases "x = c")
      case True
      with Cons.prems show ?thesis by (simp add: Index_def)
    next
      case False
      with Cons.prems obtain j where j: "Index_nat s [c] = Some j" "i = Suc j"
        by (auto simp: Index_def split: option.splits)
      then have "Index s [c] = int j" by (simp add: Index_def)
      with Cons.IH[of j] j False show ?thesis by auto
    qed
  qed (simp add: Index_def)
  then show "i < length s" "s ! i = c" "c \<notin> set (take i s)" by auto
  then show "s = take i s @ c # drop (Suc i) s" by (metis id_take_nth_drop)
qed

lemma Index_char_append: "c \<notin> set a \<Longrightarrow> Index (a @ c # b) [c] = int (length a)"
proof (induction a)
  case (Cons x a)
  then have "Index (a @ c # b) [c] = int (length a)" by simp
  then show ?case using Cons.prems
    by (auto simp: Index_def split: option.splits)
qed (simp add: Index_def)

lemma LastIndex_nat_notin: "c \<notin> set b \<Longrightarrow> LastIndex_nat b [c] = None"
  by (induction b) auto

lemma LastIndex_char_append: "c \<notin> set b \<Longrightarrow> LastIndex (a @ c # b) [c] = int (length a)"
proof (induction a)
  case Nil
  then show ?case by (simp add: LastIndex_def LastIndex_nat_notin)
next
  case (Cons x a)
  then have "LastIndex_nat (a @ c # b) [c] = Some (length a)"
    by (auto simp: LastIndex_def split: option.splits)
  then show ?case by (simp add: LastIndex_def)
qed

section \<open>Splitting, joining, case and blanks\<close>

fun Split :: "string \<Rightarrow> char \<Rightarrow> string list" where
  "Split [] c = [[]]"
| "Split (x # s) c =
     (if x = c then [] # Split s c
      else case Split s c of [] \<Rightarrow> [[x]] | w # ws \<Rightarrow> (x # w) # ws)"

fun Join :: "string list \<Rightarrow> string \<Rightarrow> string" where
  "Join [] sep = []"
| "Join [w] sep = w"
| "Join (w # v # ws) sep = w @ sep @ Join (v # ws) sep"

text \<open>\<open>strings.ReplaceAll(s, " ", "")\<close>.\<close>

definition RemoveBlanks :: "string \<Rightarrow> string" where
  "RemoveBlanks s = filter (\<lambda>c. c \<noteq> CHR '' '') s"

text \<open>
  \<open>strings.ToLower\<close> on its ASCII part. Bytes of multi-byte runes are left alone: no rune outside
  ASCII lower-cases to a letter of \<open>true\<close> or \<open>false\<close>, the only words the driver compares the
  result with.
\<close>

definition lower_byte :: "char \<Rightarrow> char" where
  "lower_byte c = (let n = of_char c :: nat in if 65 \<le> n \<and> n \<le> 90 then char_of (n + 32) else c)"

definition ToLower :: "string \<Rightarrow> string" where
  "ToLower s = map lower_byte s"

lemma Split_neq_Nil [simp]: "Split s c \<noteq> []"
  by (cases s) (auto split: list.splits)

lemma Join_Cons: "ws \<noteq> [] \<Longrightarrow> Join (w # ws) sep = w @ sep @ Join ws sep"
  by (cases ws) auto

lemma Join_Split [simp]: "Join (Split s c) [c] = s"
proof (induction s)
  case (Cons x s)
  show ?case
  proof (cases "x = c")
    case True
    with Cons show ?thesis by (simp add: Join_Cons)
  next
    case False
    obtain w ws where w: "Split s c = w # ws" by (cases "Split s c") auto
    with Cons False show ?thesis by (cases ws) auto
  qed
qed simp

lemma Split_no_sep: "c \<notin> set s \<Longrightarrow> Split s c = [s]"
  by (induction s) auto

lemma Split_append: "c \<notin> set a \<Longrightarrow> Split (a @ c # b) c = a # Split b c"
  by (induction a) auto

lemma Split_parts_no_sep: "w \<in> set (Split s c) \<Longrightarrow> c \<notin> set w"
proof (induction s arbitrary: w)
  case (Cons x s)
  obtain v vs where v: "Split s c = v # vs" by (cases "Split s c") auto
  with Cons show ?case by (auto split: if_splits)
qed simp

lemma length_Split: "length (Split s c) = Suc (count_list s c)"
proof (induction s)
  case (Cons x s)
  obtain v vs where v: "Split s c = v # vs" by (cases "Split s c") auto
  with Cons show ?case by auto
qed simp

lemma Split_Join:
  "ws \<noteq> [] \<Longrightarrow> (\<And>w. w \<in> set ws \<Longrightarrow> c \<notin> set w) \<Longrightarrow> Split (Join ws [c]) c = ws"
proof (induction ws)
  case (Cons w ws)
  show ?case
  proof (cases ws)
    case Nil
    with Cons.prems show ?thesis by (simp add: Split_no_sep)
  next
    case (Cons v vs)
    with Cons.IH Cons.prems show ?thesis by (simp add: Split_append)
  qed
qed simp

section \<open>Printing and reading integers\<close>

definition digit_char :: "nat \<Rightarrow> char" where
  "digit_char d = char_of (48 + d)"

definition is_digit :: "char \<Rightarrow> bool" where
  "is_digit c \<longleftrightarrow> 48 \<le> (of_char c :: nat) \<and> (of_char c :: nat) \<le> 57"

definition digit_val :: "char \<Rightarrow> nat" where
  "digit_val c = of_char c - 48"

fun digits_of :: "nat \<Rightarrow> string" where
  "digits_of n = (if n < 10 then [digit_char n] else digits_of (n div 10) @ [digit_char (n mod 10)])"

declare digits_of.simps [simp del]

text \<open>\<open>strconv.Itoa\<close> and the verb \<open>%d\<close>.\<close>

definition Itoa :: "int \<Rightarrow> string" where
  "Itoa i = (if i < 0 then CHR ''-'' # digits_of (nat (- i)) else digits_of (nat i))"

fun read_digits :: "nat \<Rightarrow> string \<Rightarrow> nat option" where
  "read_digits acc [] = Some acc"
| "read_digits acc (c # s) =
     (if is_digit c then read_digits (10 * acc + digit_val c) s else None)"

text \<open>
  \<open>strconv.ParseInt(s, 10, bits)\<close>: an optional sign, at least one decimal digit, and a value of
  the given width; \<open>None\<close> is a non-nil error (syntax or range).
\<close>

definition ParseInt :: "nat \<Rightarrow> string \<Rightarrow> int option" where
  "ParseInt bits s =
     (let (neg, ds) = (case s of
          [] \<Rightarrow> (False, [])
        | c # t \<Rightarrow> if c = CHR ''-'' then (True, t) else if c = CHR ''+'' then (False, t) else (False, s))
      in if ds = [] then None
         else case read_digits 0 ds of
             None \<Rightarrow> None
           | Some n \<Rightarrow> let v = (if neg then - int n else int n)
                       in if - (2 ^ (bits - 1)) \<le> v \<and> v < 2 ^ (bits - 1) then Some v else None)"

definition Atoi :: "string \<Rightarrow> int option" where
  "Atoi s = ParseInt 64 s"

lemma of_char_digit [simp]: "d < 10 \<Longrightarrow> of_char (digit_char d) = (48 + d :: nat)"
  by (simp add: digit_char_def)

lemma is_digit_digit_char [simp]: "d < 10 \<Longrightarrow> is_digit (digit_char d)"
  by (simp add: is_digit_def)

lemma digit_val_digit_char [simp]: "d < 10 \<Longrightarrow> digit_val (digit_char d) = d"
  by (simp add: digit_val_def)

lemma read_digits_append:
  "read_digits acc (s @ t) = Option.bind (read_digits acc s) (\<lambda>n. read_digits n t)"
  by (induction s arbitrary: acc) auto

lemma digits_of_neq_Nil [simp]: "digits_of n \<noteq> []"
  by (subst digits_of.simps) simp

lemma digits_of_digits: "c \<in> set (digits_of n) \<Longrightarrow> is_digit c"
proof (induction n rule: digits_of.induct)
  case (1 n)
  show ?case
  proof (cases "n < 10")
    case True
    with "1.prems" show ?thesis by (simp add: digits_of.simps[of n])
  next
    case False
    with "1.prems" "1.IH" show ?thesis by (auto simp: digits_of.simps[of n])
  qed
qed

lemma read_digits_of: "read_digits 0 (digits_of n) = Some n"
proof (induction n rule: digits_of.induct)
  case (1 n)
  then show ?case
    by (cases "n < 10") (simp_all add: digits_of.simps[of n] read_digits_append)
qed

lemma length_digits_of: "n < 10 ^ Suc k \<Longrightarrow> length (digits_of n) \<le> Suc k"
proof (induction k arbitrary: n)
  case 0
  then show ?case by (simp add: digits_of.simps[of n])
next
  case (Suc k)
  show ?case
  proof (cases "n < 10")
    case False
    have "n div 10 < 10 ^ Suc k" using Suc.prems by (simp add: less_mult_imp_div_less)
    then have "length (digits_of (n div 10)) \<le> Suc k" by (rule Suc.IH)
    with False show ?thesis by (simp add: digits_of.simps[of n])
  qed (simp add: digits_of.simps[of n])
qed

lemma is_digit_not_sign: "is_digit c \<Longrightarrow> c \<noteq> CHR ''-'' \<and> c \<noteq> CHR ''+''"
  by (auto simp: is_digit_def)

lemma read_digits_only: "read_digits acc s = Some n \<Longrightarrow> c \<in> set s \<Longrightarrow> is_digit c"
  by (induction acc s rule: read_digits.induct) (auto split: if_splits)

lemma ParseInt_digits:
  assumes "ds \<noteq> []" and "\<And>c. c \<in> set ds \<Longrightarrow> is_digit c" and "read_digits 0 ds = Some n"
    and "int n < 2 ^ (bits - 1)"
  shows "ParseInt bits ds = Some (int n)"
proof -
  obtain c t where ds: "ds = c # t" using assms(1) by (cases ds) auto
  then have "c \<noteq> CHR ''-''" "c \<noteq> CHR ''+''"
    using assms(2) is_digit_not_sign by auto
  moreover have "- (2 ^ (bits - 1)) \<le> int n"
    by (rule order_trans[of _ 0]) simp_all
  ultimately show ?thesis using assms(3,4) ds
    by (simp add: ParseInt_def Let_def del: read_digits.simps)
qed

lemma ParseInt_range: "ParseInt bits s = Some v \<Longrightarrow> - (2 ^ (bits - 1)) \<le> v \<and> v < 2 ^ (bits - 1)"
  by (auto simp: ParseInt_def Let_def split: prod.splits option.splits if_splits)

lemma Atoi_Itoa:
  assumes "- (2 ^ 63) \<le> i" "i < 2 ^ 63"
  shows "Atoi (Itoa i) = Some i"
proof (cases "i < 0")
  case True
  then show ?thesis using assms
    by (simp add: Atoi_def Itoa_def ParseInt_def read_digits_of)
next
  case False
  then show ?thesis using assms
    by (simp add: Atoi_def Itoa_def ParseInt_digits digits_of_digits read_digits_of)
qed

lemma Itoa_nonneg_digits: "0 \<le> i \<Longrightarrow> c \<in> set (Itoa i) \<Longrightarrow> is_digit c"
  by (auto simp: Itoa_def digits_of_digits)

lemma length_Itoa: "0 \<le> i \<Longrightarrow> i < 2 ^ 63 \<Longrightarrow> length (Itoa i) \<le> 19"
  using length_digits_of[of "nat i" 18] by (simp add: Itoa_def nat_less_iff)

lemma Itoa_neq_Nil [simp]: "Itoa i \<noteq> []"
  by (simp add: Itoa_def)

end
