(* ===== verification/Go_Text.thy ===== *)
theory Go_Text
  imports Go_Strings
begin

text \<open>
  The larger text functions of Go's library: \<open>strings.TrimSpace\<close> over the UTF-8 encodings of the
  Unicode white space runes, \<open>bufio.Scanner\<close> in its default line mode with its 64 KiB token limit,
  and \<open>filepath.Clean\<close>, \<open>filepath.Join\<close>, \<open>filepath.Ext\<close> on slash-separated paths.
\<close>

section \<open>TrimSpace\<close>

text \<open>The runes of \<open>unicode.IsSpace\<close>, as the byte sequences that encode them.\<close>

definition space_runes :: "string list" where
  "space_runes =
     [[CHR 0x09], [CHR 0x0A], [CHR 0x0B], [CHR 0x0C], [CHR 0x0D], [CHR 0x20],
      [CHR 0xC2, CHR 0x85], [CHR 0xC2, CHR 0xA0], [CHR 0xE1, CHR 0x9A, CHR 0x80],
      [CHR 0xE2, CHR 0x80, CHR 0x80], [CHR 0xE2, CHR 0x80, CHR 0x81], [CHR 0xE2, CHR 0x80, CHR 0x82],
      [CHR 0xE2, CHR 0x80, CHR 0x83], [CHR 0xE2, CHR 0x80, CHR 0x84], [CHR 0xE2, CHR 0x80, CHR 0x85],
      [CHR 0xE2, CHR 0x80, CHR 0x86], [CHR 0xE2, CHR 0x80, CHR 0x87], [CHR 0xE2, CHR 0x80, CHR 0x88],
      [CHR 0xE2, CHR 0x80, CHR 0x89], [CHR 0xE2, CHR 0x80, CHR 0x8A], [CHR 0xE2, CHR 0x80, CHR 0xA8],
      [CHR 0xE2, CHR 0x80, CHR 0xA9], [CHR 0xE2, CHR 0x80, CHR 0xAF], [CHR 0xE2, CHR 0x81, CHR 0x9F],
      [CHR 0xE3, CHR 0x80, CHR 0x80]]"

lemma space_runes_nonempty: "list_all (\<lambda>w. w \<noteq> []) space_runes"
  by (simp add: space_runes_def)

lemma find_space_shorter:
  assumes "find P space_runes = Some w"
  shows "w \<noteq> []"
proof -
  have "w \<in> set space_runes"
    using assms by (auto simp: find_Some_iff)
  then show ?thesis using space_runes_nonempty by (auto simp: list_all_iff)
qed

function TrimLeftSpace :: "string \<Rightarrow> string" where
  "TrimLeftSpace s =
     (case find (HasPrefix s) space_runes of
        None \<Rightarrow> s
      | Some w \<Rightarrow> if s = [] then [] else TrimLeftSpace (drop (length w) s))"
  by pat_completeness auto
termination
  by (relation "measure length") (auto dest: find_space_shorter)

function TrimRightSpace :: "string \<Rightarrow> string" where
  "TrimRightSpace s =
     (case find (HasSuffix s) space_runes of
        None \<Rightarrow> s
      | Some w \<Rightarrow> if s = [] then [] else TrimRightSpace (take (length s - length w) s))"
  by pat_completeness auto
termination
proof (relation "measure length", goal_cases)
  case (2 s w)
  then show ?case using find_space_shorter[of "HasSuffix s" w] by (cases w; cases s) auto
qed simp

declare TrimLeftSpace.simps [simp del] TrimRightSpace.simps [simp del]

definition TrimSpace :: "string \<Rightarrow> string" where
  "TrimSpace s = TrimRightSpace (TrimLeftSpace s)"

text \<open>A printable ASCII byte other than the blank: neither starts nor ends a space rune.\<close>

definition graphic :: "char \<Rightarrow> bool" where
  "graphic c \<longleftrightarrow> 0x20 < (of_char c :: nat) \<and> (of_char c :: nat) < 0x7F"

lemma space_runes_ends:
  "list_all (\<lambda>w. w \<noteq> [] \<and> \<not> graphic (hd w) \<and> \<not> graphic (last w)) space_runes"
  by (simp add: space_runes_def graphic_def)

lemma TrimLeftSpace_graphic:
  assumes "graphic c"
  shows "TrimLeftSpace (c # s) = c # s"
proof -
  have "\<not> HasPrefix (c # s) w" if "w \<in> set space_runes" for w
    using that assms space_runes_ends by - (cases w, auto simp: list_all_iff)
  then have "find (HasPrefix (c # s)) space_runes = None"
    by (auto simp: find_None_iff)
  then show ?thesis by (subst TrimLeftSpace.simps) simp
qed

lemma HasSuffix_last: "HasSuffix s p \<Longrightarrow> p \<noteq> [] \<Longrightarrow> last s = last p"
  by (auto simp: HasSuffix_iff)

lemma TrimRightSpace_graphic:
  assumes "graphic (last s)"
  shows "TrimRightSpace s = s"
proof -
  have "\<not> HasSuffix s w" if "w \<in> set space_runes" for w
    using that assms space_runes_ends HasSuffix_last[of s w] by (auto simp: list_all_iff)
  then have "find (HasSuffix s) space_runes = None"
    by (auto simp: find_None_iff)
  then show ?thesis by (subst TrimRightSpace.simps) simp
qed

lemma TrimSpace_graphic:
  "s \<noteq> [] \<Longrightarrow> graphic (hd s) \<Longrightarrow> graphic (last s) \<Longrightarrow> TrimSpace s = s"
  by (cases s) (auto simp: TrimSpace_def TrimLeftSpace_graphic TrimRightSpace_graphic)

lemma TrimLeftSpace_blank: "TrimLeftSpace (CHR '' '' # s) = TrimLeftSpace s"
proof -
  have "find (HasPrefix (CHR '' '' # s)) space_runes = Some '' ''"
    by (simp add: space_runes_def)
  then show ?thesis by (subst TrimLeftSpace.simps) simp
qed

lemma TrimSpace_blank: "TrimSpace (CHR '' '' # s) = TrimSpace s"
  by (simp add: TrimSpace_def TrimLeftSpace_blank)

lemma TrimSpace_Nil [simp]: "TrimSpace [] = []"
  by (simp add: TrimSpace_def TrimLeftSpace.simps[of "[]"] TrimRightSpace.simps[of "[]"] split: option.splits)

lemma is_digit_graphic: "is_digit c \<Longrightarrow> graphic c"
  by (auto simp: is_digit_def graphic_def)

lemma TrimSpace_Itoa: "0 \<le> i \<Longrightarrow> TrimSpace (Itoa i) = Itoa i"
  by (rule TrimSpace_graphic) (auto intro!: is_digit_graphic Itoa_nonneg_digits)

section \<open>Scanning lines\<close>

definition newline :: char where
  "newline = CHR 0x0A"

text \<open>
  \<open>bufio.ScanLines\<close>: the text up to each newline, the unterminated rest unless it is empty; one
  carriage return before the newline is dropped from the token.
\<close>

definition raw_lines :: "string \<Rightarrow> string list" where
  "raw_lines s = (let ls = Split s newline in if last ls = [] then butlast ls else ls)"

definition dropCR :: "string \<Rightarrow> string" where
  "dropCR l = (if l \<noteq> [] \<and> last l = CHR 0x0D then butlast l else l)"

text \<open>
  The scanner's buffer holds at most \<open>MaxScanTokenSize\<close> = 65536 bytes: a line of more than 65535
  bytes ends the scan, with \<open>Err() = ErrTooLong\<close>, and the lines after it are not delivered.
\<close>

definition max_line :: nat where
  "max_line = 65535"

definition scan_lines :: "string \<Rightarrow> string list" where
  "scan_lines s = map dropCR (takeWhile (\<lambda>l. length l \<le> max_line) (raw_lines s))"

definition scan_too_long :: "string \<Rightarrow> bool" where
  "scan_too_long s = (\<exists>l\<in>set (raw_lines s). \<not> length l \<le> max_line)"

lemma raw_lines_append: "newline \<notin> set a \<Longrightarrow> raw_lines (a @ newline # b) = a # raw_lines b"
  by (auto simp: raw_lines_def Let_def Split_append)

lemma raw_lines_Nil [simp]: "raw_lines [] = []"
  by (simp add: raw_lines_def)

lemma scan_lines_append:
  assumes "newline \<notin> set a" and "length a \<le> max_line"
  shows "scan_lines (a @ newline # b) = dropCR a # scan_lines b"
  using assms by (simp add: scan_lines_def raw_lines_append)

lemma dropCR_id: "l = [] \<or> last l \<noteq> CHR 0x0D \<Longrightarrow> dropCR l = l"
  by (auto simp: dropCR_def)

section \<open>Paths\<close>

text \<open>
  \<open>filepath.Clean\<close>: empty and \<open>.\<close> elements go, \<open>..\<close> cancels the element before it, and at the root
  \<open>..\<close> is dropped. The elements are collected in reverse.
\<close>

fun clean_step :: "bool \<Rightarrow> string list \<Rightarrow> string \<Rightarrow> string list" where
  "clean_step rooted acc w =
     (if w = '''' \<or> w = ''.'' then acc
      else if w = ''..'' then
        (case acc of
           [] \<Rightarrow> if rooted then [] else [''..'']
         | x # xs \<Rightarrow> if x = ''..'' then ''..'' # acc else xs)
      else w # acc)"

definition Clean :: "string \<Rightarrow> string" where
  "Clean path =
     (let rooted = HasPrefix path ''/'';
          ws = rev (foldl (clean_step rooted) [] (Split path (CHR ''/'')))
      in if rooted then CHR ''/'' # Join ws ''/'' else if ws = [] then ''.'' else Join ws ''/'')"

text \<open>\<open>filepath.Join\<close> of two elements: empty elements are ignored, the rest joined and cleaned.\<close>

definition path_join :: "string \<Rightarrow> string \<Rightarrow> string" where
  "path_join a b =
     (if a = [] \<and> b = [] then []
      else if a = [] then Clean b
      else if b = [] then Clean a
      else Clean (a @ CHR ''/'' # b))"

text \<open>\<open>filepath.Ext\<close>: from the last dot of the last element; empty when there is none.\<close>

definition Ext :: "string \<Rightarrow> string" where
  "Ext path =
     (let base = last (Split path (CHR ''/''))
      in case LastIndex_nat base ''.'' of None \<Rightarrow> [] | Some i \<Rightarrow> drop i base)"

text \<open>A path element that is a plain name: \<open>Clean\<close> keeps it as it is.\<close>

definition plain_name :: "string \<Rightarrow> bool" where
  "plain_name w \<longleftrightarrow> w \<noteq> '''' \<and> w \<noteq> ''.'' \<and> w \<noteq> ''..'' \<and> CHR ''/'' \<notin> set w"

definition clean_dir :: "string \<Rightarrow> bool" where
  "clean_dir d \<longleftrightarrow> (\<exists>ws. ws \<noteq> [] \<and> list_all plain_name ws \<and> d = CHR ''/'' # Join ws ''/'')"

lemma foldl_clean_plain:
  "list_all plain_name ws \<Longrightarrow> foldl (clean_step r) acc ws = rev ws @ acc"
  by (induction ws arbitrary: acc) (auto simp: plain_name_def)

lemma Join_snoc: "ws \<noteq> [] \<Longrightarrow> Join (ws @ [w]) sep = Join ws sep @ sep @ w"
proof (induction ws)
  case (Cons v ws)
  then show ?case by (cases ws) auto
qed simp

lemma Clean_plain:
  assumes "ws \<noteq> []" and "list_all plain_name ws"
  shows "Clean (CHR ''/'' # Join ws ''/'') = CHR ''/'' # Join ws ''/''"
proof -
  have "CHR ''/'' \<notin> set w" if "w \<in> set ws" for w
    using that assms(2) by (auto simp: plain_name_def list_all_iff)
  then have "Split (Join ws ''/'') (CHR ''/'') = ws"
    using assms(1) by (intro Split_Join) auto
  then show ?thesis using assms(2)
    by (simp add: Clean_def Let_def foldl_clean_plain)
qed

lemma path_join_plain:
  assumes "clean_dir d" and "plain_name f"
  shows "path_join d f = d @ CHR ''/'' # f"
proof -
  obtain ws where ws: "ws \<noteq> []" "list_all plain_name ws" "d = CHR ''/'' # Join ws ''/''"
    using assms(1) by (auto simp: clean_dir_def)
  have "Clean (CHR ''/'' # Join (ws @ [f]) ''/'') = CHR ''/'' # Join (ws @ [f]) ''/''"
    using ws assms(2) by (intro Clean_plain) auto
  moreover have "f \<noteq> []" using assms(2) by (simp add: plain_name_def)
  ultimately show ?thesis using ws
    by (simp add: path_join_def Join_snoc)
qed

lemma path_join_plain_inject:
  assumes "clean_dir d" "plain_name f" "plain_name g" "path_join d f = path_join d g"
  shows "f = g"
  using assms by (simp add: path_join_plain)

lemma Ext_append:
  assumes "CHR ''.'' \<notin> set e" "CHR ''/'' \<notin> set n" "CHR ''/'' \<notin> set e"
  shows "Ext (n @ CHR ''.'' # e) = CHR ''.'' # e"
proof -
  have "LastIndex (n @ CHR ''.'' # e) ''.'' = int (length n)"
    using assms(1) by (rule LastIndex_char_append)
  then have "LastIndex_nat (n @ CHR ''.'' # e) ''.'' = Some (length n)"
    by (auto simp: LastIndex_def split: option.splits)
  moreover have "Split (n @ CHR ''.'' # e) (CHR ''/'') = [n @ CHR ''.'' # e]"
    using assms(2,3) by (intro Split_no_sep) auto
  ultimately show ?thesis by (simp add: Ext_def)
qed

end
