(* ===== verification/Stunnel_Config.thy ===== *)
theory Stunnel_Config
  imports Go_Text
begin

text \<open>
  The stunnel service files of \<open>pkg/rfseit/stunnel_manager.go\<close>: the manager's state, the text
  \<open>buildTunnelConfig\<close> writes for a volume, the parser \<open>extractPortFromConfigFile\<close> that reads the
  accept port back after a restart, and the path of a volume's file. The main result is the round
  trip: what is written is read back.
\<close>

section \<open>Constants and state\<close>

definition DefaultServicesDir :: string where
  "DefaultServicesDir = ''/etc/stunnel/services''"

definition InitialPort :: int where
  "InitialPort = 11300"

definition PortRange :: int where
  "PortRange = 300"

definition DefaultDebugLevel :: int where
  "DefaultDebugLevel = 5"

definition NFSOverTLSPort :: int where
  "NFSOverTLSPort = 20049"

definition ProductionCheckHost :: string where
  "ProductionCheckHost = ''production.is-share.appdomain.cloud''"

definition StagingCheckHost :: string where
  "StagingCheckHost = ''staging.is-share.appdomain.cloud''"

definition RHELCAPath :: string where
  "RHELCAPath = ''/etc/host-certs/pki/ca-trust/extracted/pem/tls-ca-bundle.pem''"

definition UbuntuCAPath :: string where
  "UbuntuCAPath = ''/etc/host-certs/ssl/certs/ca-certificates.crt''"

text \<open>A \<open>time.AfterFunc\<close> timer: whether its callback is still due, and the request it captured.\<close>

record timer =
  armed :: bool
  timerReq :: string

record stunnel_manager =
  servicesDir :: string
  initialPort :: int
  portRange :: int
  allocatedPorts :: "(string, int) fmap"
  portToVolume :: "(int, string) fmap"
  caFile :: string
  checkHost :: string
  stunnelStarted :: bool
  debugLevel :: int
  debounceTimer :: "timer option"
  pendingSIGHUP :: bool

section \<open>The service file\<close>

definition buildTunnelConfig :: "stunnel_manager \<Rightarrow> string \<Rightarrow> string \<Rightarrow> int \<Rightarrow> string" where
  "buildTunnelConfig sm volumeID nfsServer port =
     ''['' @ volumeID @ '']'' @ newline #
     ''client = yes'' @ newline #
     ''accept = 127.0.0.1:'' @ Itoa port @ newline #
     ''connect = '' @ nfsServer @ '':'' @ Itoa NFSOverTLSPort @ newline #
     ''CAfile = '' @ caFile sm @ newline #
     ''checkHost = '' @ checkHost sm @ newline #
     ''verify = 2'' @ newline #
     ''debug = '' @ Itoa (debugLevel sm) @ [newline]"

definition config_path :: "stunnel_manager \<Rightarrow> string \<Rightarrow> string" where
  "config_path sm volumeID = path_join (servicesDir sm) (volumeID @ ''.conf'')"

section \<open>Reading the accept port back\<close>

datatype config_error =
    FailedToOpen
  | NoPortInAddress
  | InvalidPortText
  | PortOutOfRange nat int
  | AtLine nat config_error
  | ErrorReading
  | NoAcceptDirective

definition extractPortFromAddress :: "string \<Rightarrow> config_error + int" where
  "extractPortFromAddress address =
     (let lastColon = LastIndex address '':''
      in if lastColon = -1 then Inl NoPortInAddress
         else case Atoi (TrimSpace (drop (nat (lastColon + 1)) address)) of
             None \<Rightarrow> Inl InvalidPortText
           | Some port \<Rightarrow> Inr port)"

text \<open>
  The scanner loop over the delivered lines; \<open>None\<close> when it ends without an accept line. The
  number of the line before is the third argument.
\<close>

fun scan_accept :: "int \<Rightarrow> int \<Rightarrow> nat \<Rightarrow> string list \<Rightarrow> (config_error + int) option" where
  "scan_accept ini rng n [] = None"
| "scan_accept ini rng n (text # rest) =
     (let lineNum = Suc n; line = TrimSpace text
      in if line = '''' \<or> HasPrefix line ''#'' \<or> HasPrefix line '';'' then
           scan_accept ini rng lineNum rest
         else if HasPrefix line ''accept'' then
           (let after = TrimSpace (TrimPrefix line ''accept'')
            in if \<not> HasPrefix after ''='' then scan_accept ini rng lineNum rest
               else Some (case extractPortFromAddress (TrimSpace (drop 1 after)) of
                   Inl e \<Rightarrow> Inl (AtLine lineNum e)
                 | Inr port \<Rightarrow>
                     if port < ini \<or> port > ini + rng - 1 then Inl (PortOutOfRange lineNum port)
                     else Inr port))
         else scan_accept ini rng lineNum rest)"

text \<open>
  Files by path. Opening can fail, and reading can fail after some bytes were delivered; reading a
  directory fails at once.
\<close>

datatype node = File string | Dir

type_synonym filesys = "(string, node) fmap"

record file_faults =
  openFails :: "string \<Rightarrow> bool"
  readFails :: "string \<Rightarrow> nat option"

definition no_faults :: file_faults where
  "no_faults = \<lparr>openFails = (\<lambda>_. False), readFails = (\<lambda>_. None)\<rparr>"

fun file_data :: "node \<Rightarrow> nat option \<Rightarrow> string \<times> bool" where
  "file_data (File c) None = (c, False)"
| "file_data (File c) (Some n) = (take n c, True)"
| "file_data Dir _ = ([], True)"

definition extractPortFromConfigFile ::
  "file_faults \<Rightarrow> filesys \<Rightarrow> stunnel_manager \<Rightarrow> string \<Rightarrow> config_error + int" where
  "extractPortFromConfigFile os fs sm configPath =
     (case fmlookup fs configPath of
        None \<Rightarrow> Inl FailedToOpen
      | Some nd \<Rightarrow>
          if openFails os configPath then Inl FailedToOpen
          else (let (data, rerr) = file_data nd (readFails os configPath)
                in case scan_accept (initialPort sm) (portRange sm) 0 (scan_lines data) of
                     Some r \<Rightarrow> r
                   | None \<Rightarrow> if scan_too_long data \<or> rerr then Inl ErrorReading
                             else Inl NoAcceptDirective))"

section \<open>Lemmas\<close>

lemma extractPortFromAddress_Itoa:
  assumes "0 \<le> p" "p < 2 ^ 63"
  shows "extractPortFromAddress (host @ CHR '':'' # Itoa p) = Inr p"
proof -
  have "CHR '':'' \<notin> set (Itoa p)"
    using Itoa_nonneg_digits[OF assms(1)] by (force simp: is_digit_def)
  then have "LastIndex (host @ CHR '':'' # Itoa p) '':'' = int (length host)"
    by (rule LastIndex_char_append)
  moreover have "Atoi (TrimSpace (Itoa p)) = Some p"
    using assms by (simp add: TrimSpace_Itoa Atoi_Itoa)
  ultimately show ?thesis
    by (simp add: extractPortFromAddress_def Let_def nat_add_distrib)
qed

lemma scan_accept_skip:
  assumes "s \<noteq> []" "graphic (hd s)" "graphic (last s)" "\<not> HasPrefix s ''accept''"
  shows "scan_accept ini rng n (s # rest) = scan_accept ini rng (Suc n) rest"
  using assms by (simp add: TrimSpace_graphic Let_def)

text \<open>The line \<open>accept = 127.0.0.1:PORT\<close> gives the port, when it is in the manager's range.\<close>

lemma scan_accept_address:
  assumes "0 \<le> p" "p < 2 ^ 63"
  shows "scan_accept ini rng n ((''accept = 127.0.0.1:'' @ Itoa p) # rest) =
    Some (if p < ini \<or> p > ini + rng - 1 then Inl (PortOutOfRange (Suc n) p) else Inr p)"
proof -
  let ?a = "''127.0.0.1:'' @ Itoa p"
  have dig: "graphic (last (Itoa p))"
    using assms(1) by (auto intro!: is_digit_graphic Itoa_nonneg_digits)
  have t1: "TrimSpace (''accept = '' @ ?a) = ''accept = '' @ ?a"
    using dig by (intro TrimSpace_graphic) (auto simp: graphic_def)
  have t2: "TrimSpace ('' = '' @ ?a) = ''= '' @ ?a"
    using dig by (simp add: TrimSpace_blank) (intro TrimSpace_graphic; auto simp: graphic_def)
  have t3: "TrimSpace ('' '' @ ?a) = ?a"
    using dig by (simp add: TrimSpace_blank) (intro TrimSpace_graphic; auto simp: graphic_def)
  have pre: "TrimPrefix (''accept = '' @ ?a) ''accept'' = '' = '' @ ?a"
    using TrimPrefix_append[of "''accept''" "'' = '' @ ?a"] by simp
  have ext: "extractPortFromAddress ?a = Inr p"
    using extractPortFromAddress_Itoa[OF assms, of "''127.0.0.1''"] by simp
  show ?thesis using t1 t2 t3 pre ext by (simp add: Let_def)
qed

lemma scan_accept_line:
  assumes "0 \<le> p" "p < 2 ^ 63" "ini \<le> p" "p < ini + rng"
  shows "scan_accept ini rng n ((''accept = 127.0.0.1:'' @ Itoa p) # rest) = Some (Inr p)"
  using scan_accept_address[OF assms(1,2), of ini rng n rest] assms(3,4) by simp

lemma Itoa_line: "0 \<le> p \<Longrightarrow> c \<in> set (Itoa p) \<Longrightarrow> c \<noteq> newline \<and> c \<noteq> CHR 0x0D"
  using Itoa_nonneg_digits[of p c] by (auto simp: is_digit_def newline_def)

lemma scan_lines_config:
  assumes "newline \<notin> set v" "length v + 2 \<le> max_line" "0 \<le> p" "p < 2 ^ 63"
  shows "\<exists>rest. scan_lines (buildTunnelConfig sm v srv p) =
    (''['' @ v @ '']'') # ''client = yes'' # (''accept = 127.0.0.1:'' @ Itoa p) # rest"
proof -
  let ?l1 = "''['' @ v @ '']''" and ?l3 = "''accept = 127.0.0.1:'' @ Itoa p"
  obtain rest where cfg: "buildTunnelConfig sm v srv p =
      ?l1 @ newline # ''client = yes'' @ newline # ?l3 @ newline # rest"
    unfolding buildTunnelConfig_def by auto
  have l1: "newline \<notin> set ?l1" "length ?l1 \<le> max_line" "dropCR ?l1 = ?l1"
    using assms(1,2) by (auto simp: newline_def dropCR_id)
  have l3: "newline \<notin> set ?l3" "length ?l3 \<le> max_line" "dropCR ?l3 = ?l3"
    using Itoa_line[OF assms(3)] length_Itoa[OF assms(3,4)] by (auto simp: newline_def max_line_def intro!: dropCR_id)
  have l2: "scan_lines (''client = yes'' @ newline # r) = ''client = yes'' # scan_lines r" for r
    using scan_lines_append[of "''client = yes''" r]
    by (simp add: newline_def max_line_def dropCR_def)
  show ?thesis
    unfolding cfg scan_lines_append[OF l1(1,2)] l2 scan_lines_append[OF l3(1,2)] l1(3) l3(3)
    by blast
qed

lemma config_scan_roundtrip:
  assumes "newline \<notin> set v" "length v + 2 \<le> max_line" "0 \<le> p" "p < 2 ^ 63"
    "ini \<le> p" "p < ini + rng"
  shows "scan_accept ini rng 0 (scan_lines (buildTunnelConfig sm v srv p)) = Some (Inr p)"
proof -
  obtain rest where l: "scan_lines (buildTunnelConfig sm v srv p) =
      (''['' @ v @ '']'') # ''client = yes'' # (''accept = 127.0.0.1:'' @ Itoa p) # rest"
    using scan_lines_config[OF assms(1-4)] by blast
  have "scan_accept ini rng 0 ((''['' @ v @ '']'') # r) = scan_accept ini rng 1 r" for r
    using scan_accept_skip[of "''['' @ v @ '']''" ini rng 0 r] by (simp add: graphic_def)
  moreover have "scan_accept ini rng n (''client = yes'' # r) = scan_accept ini rng (Suc n) r" for n r
    by (rule scan_accept_skip) (simp_all add: graphic_def)
  ultimately show ?thesis
    unfolding l using scan_accept_line[OF assms(3-6)] by (simp del: scan_accept.simps)
qed

text \<open>A volume id that can name a service file: no newline, no slash, and not too long.\<close>

definition good_volume_id :: "string \<Rightarrow> bool" where
  "good_volume_id v \<longleftrightarrow> newline \<notin> set v \<and> CHR ''/'' \<notin> set v \<and> length v + 2 \<le> max_line"

lemma plain_name_conf: "CHR ''/'' \<notin> set v \<Longrightarrow> plain_name (v @ ''.conf'')"
  unfolding plain_name_def by (cases v rule: rev_cases; force)

lemma config_path_plain:
  assumes "clean_dir (servicesDir sm)" "CHR ''/'' \<notin> set v"
  shows "config_path sm v = servicesDir sm @ CHR ''/'' # v @ ''.conf''"
  unfolding config_path_def using assms by (intro path_join_plain plain_name_conf)

lemma config_path_inject:
  assumes "clean_dir (servicesDir sm)" "CHR ''/'' \<notin> set v" "CHR ''/'' \<notin> set u"
    "config_path sm v = config_path sm u"
  shows "v = u"
  using assms by (simp add: config_path_plain)

lemma clean_dir_default: "clean_dir DefaultServicesDir"
  unfolding clean_dir_def DefaultServicesDir_def
  by (rule exI[of _ "[''etc'', ''stunnel'', ''services'']"]) (simp add: plain_name_def)

section \<open>Properties\<close>

text \<open>C22: round trip of the service file. Whatever manager, NFS server and rest of the disk, a port of the manager's
  range that is written into a volume's configuration is the port the recovery parser reads back from that file.\<close>

theorem config_file_roundtrip:
  assumes "newline \<notin> set v" "length v + 2 \<le> max_line" "0 \<le> p" "p < 2 ^ 63"
    "initialPort sm \<le> p" "p < initialPort sm + portRange sm"
  shows "extractPortFromConfigFile no_faults
    (fmupd (config_path sm v) (File (buildTunnelConfig sm' v srv p)) fs) sm (config_path sm v) = Inr p"
  using config_scan_roundtrip[OF assms] by (simp add: extractPortFromConfigFile_def no_faults_def)

theorem config_file_roundtrip_witness:
  "let sm = \<lparr>servicesDir = DefaultServicesDir, initialPort = 11300, portRange = 300, allocatedPorts = fmempty,
        portToVolume = fmempty, caFile = UbuntuCAPath, checkHost = ProductionCheckHost, stunnelStarted = False,
        debugLevel = 5, debounceTimer = None, pendingSIGHUP = False\<rparr>
   in extractPortFromConfigFile no_faults
     (fmupd (config_path sm ''r006-1'') (File (buildTunnelConfig sm ''r006-1'' ''10.240.0.5'' 11342)) fmempty) sm
     (config_path sm ''r006-1'') = Inr 11342"
  unfolding Let_def by (rule config_file_roundtrip) (simp_all add: newline_def max_line_def)

text \<open>Volumes never overwrite each other's service file: with a clean services directory and ids without a slash,
  each volume's file lies directly in that directory and two volumes have the same file only if they are the same.\<close>

lemma config_paths_separate:
  assumes "clean_dir (servicesDir sm)" "CHR ''/'' \<notin> set v" "CHR ''/'' \<notin> set u"
  shows "config_path sm v = servicesDir sm @ CHR ''/'' # v @ ''.conf'' \<and>
    (config_path sm v = config_path sm u \<longleftrightarrow> v = u)"
  using assms config_path_plain config_path_inject by blast

lemma config_paths_separate_example:
  "\<exists>sm. servicesDir sm = DefaultServicesDir \<and> config_path sm ''a'' = DefaultServicesDir @ ''/a.conf'' \<and>
    config_path sm ''a'' \<noteq> config_path sm ''b''"
proof -
  obtain sm :: stunnel_manager where d: "servicesDir sm = DefaultServicesDir"
    by (metis stunnel_manager.select_convs(1))
  then have "config_path sm ''a'' = servicesDir sm @ CHR ''/'' # ''a'' @ ''.conf'' \<and>
    (config_path sm ''a'' = config_path sm ''b'' \<longleftrightarrow> ''a'' = ''b'')"
    using clean_dir_default by (intro config_paths_separate) simp_all
  then show ?thesis using d by (intro exI[of _ sm]) auto
qed

text \<open>Nothing in the manager confines the file to that directory. \<open>filepath.Join\<close> cleans the path, so a volume
  id with parent components names a file outside the services directory.\<close>

lemma config_path_escapes:
  "servicesDir sm = DefaultServicesDir \<Longrightarrow> config_path sm ''../../cron.d/x'' = ''/etc/cron.d/x.conf''"
  unfolding config_path_def DefaultServicesDir_def by (simp, code_simp)

lemma config_path_escapes_example:
  "config_path \<lparr>servicesDir = DefaultServicesDir, initialPort = 0, portRange = 0, allocatedPorts = fmempty,
        portToVolume = fmempty, caFile = [], checkHost = [], stunnelStarted = False,
        debugLevel = 5, debounceTimer = None, pendingSIGHUP = False\<rparr> ''../../cron.d/x'' = ''/etc/cron.d/x.conf''"
  by (rule config_path_escapes) simp

end
