(* ===== verification/Allocator.thy ===== *)
theory Allocator
  imports Main
begin

text \<open>
  The contract between a keyed resource allocator and its clients: the node server asks the stunnel
  manager for the local port of a file share (\<open>ensure\<close>), gives it back (\<open>remove\<close>), and relies on
  what is stated here and nothing else. The lemmas are the client's view: ports are not shared, a
  second request returns the same port, and a port stays with its volume through any sequence of
  operations that does not remove that volume.
\<close>

section \<open>Sequences of operations\<close>

datatype ('e, 'r, 'v) alloc_op = Ensure 'e 'v | Remove 'r 'v

fun alloc_step ::
  "('e \<Rightarrow> 'v \<Rightarrow> 's \<Rightarrow> ('err + 'p) \<times> 's) \<Rightarrow> ('r \<Rightarrow> 'v \<Rightarrow> 's \<Rightarrow> ('err + unit) \<times> 's)
    \<Rightarrow> ('e, 'r, 'v) alloc_op \<Rightarrow> 's \<Rightarrow> 's" where
  "alloc_step ens rem (Ensure e v) s = snd (ens e v s)"
| "alloc_step ens rem (Remove r v) s = snd (rem r v s)"

fun alloc_run ::
  "('e \<Rightarrow> 'v \<Rightarrow> 's \<Rightarrow> ('err + 'p) \<times> 's) \<Rightarrow> ('r \<Rightarrow> 'v \<Rightarrow> 's \<Rightarrow> ('err + unit) \<times> 's)
    \<Rightarrow> ('e, 'r, 'v) alloc_op list \<Rightarrow> 's \<Rightarrow> 's" where
  "alloc_run ens rem [] s = s"
| "alloc_run ens rem (x # xs) s = alloc_run ens rem xs (alloc_step ens rem x s)"

definition removes :: "'v \<Rightarrow> ('e, 'r, 'v) alloc_op \<Rightarrow> bool" where
  "removes v x \<longleftrightarrow> (case x of Remove r u \<Rightarrow> u = v | Ensure e u \<Rightarrow> False)"

section \<open>The interface\<close>

locale keyed_allocator =
  fixes lookup :: "'s \<Rightarrow> 'v \<Rightarrow> 'p option"
    and owner :: "'s \<Rightarrow> 'p \<Rightarrow> 'v option"
    and valid :: "'e \<Rightarrow> 'v \<Rightarrow> bool"
    and ensure :: "'e \<Rightarrow> 'v \<Rightarrow> 's \<Rightarrow> ('err + 'p) \<times> 's"
    and remove :: "'r \<Rightarrow> 'v \<Rightarrow> 's \<Rightarrow> ('err + unit) \<times> 's"
    and invar :: "'s \<Rightarrow> bool"
  assumes owner_iff: "invar s \<Longrightarrow> owner s p = Some v \<longleftrightarrow> lookup s v = Some p"
    and ensure_invar: "invar s \<Longrightarrow> invar (snd (ensure e v s))"
    and remove_invar: "invar s \<Longrightarrow> invar (snd (remove r v s))"
    and ensure_hit: "invar s \<Longrightarrow> valid e v \<Longrightarrow> lookup s v = Some p \<Longrightarrow> ensure e v s = (Inr p, s)"
    and ensure_ok: "invar s \<Longrightarrow> ensure e v s = (Inr p, s') \<Longrightarrow> lookup s' = (lookup s)(v \<mapsto> p)"
    and ensure_valid: "ensure e v s = (Inr p, s') \<Longrightarrow> valid e v"
    and ensure_err: "invar s \<Longrightarrow> ensure e v s = (Inl x, s') \<Longrightarrow> lookup s' = lookup s"
    and remove_frame: "invar s \<Longrightarrow> u \<noteq> v \<Longrightarrow> lookup (snd (remove r v s)) u = lookup s u"
begin

lemma not_shared: "invar s \<Longrightarrow> lookup s v = Some p \<Longrightarrow> lookup s u = Some p \<Longrightarrow> v = u"
  using owner_iff by (metis option.inject)

lemma ensure_frame:
  assumes "invar s" "lookup s u = Some q"
  shows "lookup (snd (ensure e v s)) u = Some q"
proof (cases "ensure e v s")
  case (Pair res s')
  show ?thesis
  proof (cases res)
    case (Inl x)
    then show ?thesis using Pair assms ensure_err by simp
  next
    case (Inr p)
    with Pair have ens: "ensure e v s = (Inr p, s')" by simp
    show ?thesis
    proof (cases "u = v")
      case True
      then have "ensure e v s = (Inr q, s)"
        using assms ensure_hit ensure_valid[OF ens] by simp
      then show ?thesis using assms True by simp
    next
      case False
      then show ?thesis using ensure_ok[OF assms(1) ens] ens assms(2) by simp
    qed
  qed
qed

lemma ensure_again: "invar s \<Longrightarrow> ensure e v s = (Inr p, s') \<Longrightarrow> valid e' v \<Longrightarrow> ensure e' v s' = (Inr p, s')"
  using ensure_invar[of s e v] by (intro ensure_hit) (auto simp: ensure_ok)

lemma step_invar: "invar s \<Longrightarrow> invar (alloc_step ensure remove x s)"
  by (cases x) (auto simp: ensure_invar remove_invar)

lemma run_invar: "invar s \<Longrightarrow> invar (alloc_run ensure remove xs s)"
  by (induction xs arbitrary: s) (auto simp: step_invar)

lemma step_keeps: "invar s \<Longrightarrow> \<not> removes v x \<Longrightarrow> lookup s v = Some p \<Longrightarrow>
    lookup (alloc_step ensure remove x s) v = Some p"
  by (cases x) (auto simp: removes_def ensure_frame remove_frame)

text \<open>A volume keeps its port as long as nobody removes it.\<close>

lemma run_keeps:
  "invar s \<Longrightarrow> \<forall>x\<in>set xs. \<not> removes v x \<Longrightarrow> lookup s v = Some p \<Longrightarrow>
    lookup (alloc_run ensure remove xs s) v = Some p"
  by (induction xs arbitrary: s) (auto simp: step_keeps step_invar)

end

end
