(* ===== verification/Stunnel.thy ===== *)
theory Stunnel
  imports Stunnel_Config Allocator "HOL-Library.List_Lexorder" "HOL-Library.Char_ord"
begin

text \<open>
  The stunnel manager of \<open>pkg/rfseit/stunnel_manager.go\<close>, each exported operation run alone (the
  interleavings of concurrent calls are the subject of \<open>Stunnel_Conc\<close>). The state is the manager
  record and a world of files and delivered signals; what the operating system answers to a call
  (can this port be bound, did the write succeed, is stunnel running) is an argument. Invariant:
  the two port maps are inverse to each other and stay in the port range.
\<close>

section \<open>World and system calls\<close>

record world =
  files :: filesys
  sighups :: "int list"

datatype tunnel_error =
    LoggerRequired
  | OSTypeNotSet
  | UnknownOSType string
  | CAFileNotFound string
  | DetectCAFailed tunnel_error
  | EmptyCAPath
  | CheckHostFailed tunnel_error
  | EmptyCheckHost
  | ReadDirFailed
  | VolumeIDRequired
  | TargetIPRequired
  | NoAvailablePorts int int
  | WriteConfigFailed
  | StunnelNotRunning
  | PgrepTimedOut
  | StunnelNotLocated
  | NoStunnelPIDs
  | MultipleStunnelProcesses
  | InvalidStunnelPID string
  | SIGHUPFailed int
  | LastTunnelSIGHUPFailed tunnel_error
  | RemoveConfigFailed

text \<open>
  \<open>os.WriteFile\<close> is several system calls: a failure can leave the file untouched or hold any
  content written so far.
\<close>

datatype write_result = WriteOk | WriteError "string option"

datatype remove_result = RmOk | RmNotExist | RmError

datatype pgrep_result = PgrepTimeout | PgrepError | PgrepOutput string

datatype kill_result = KillOk | KillESRCH | KillError

record ensure_os =
  bindable :: "int \<Rightarrow> bool"
  writeResult :: write_result
  runningBefore :: bool
  runningAfterWait :: bool
  rollbackRemoveOk :: bool

record remove_os =
  procMounts :: "string option"
  pgrep :: pgrep_result
  kill :: "int \<Rightarrow> kill_result"
  removeOk :: bool

definition remove_path :: "bool \<Rightarrow> string \<Rightarrow> filesys \<Rightarrow> remove_result \<times> filesys" where
  "remove_path ok path fs =
     (if fmlookup fs path = None then (RmNotExist, fs)
      else if ok then (RmOk, fmdrop path fs)
      else (RmError, fs))"

section \<open>Construction\<close>

definition detectCABundle :: "environ \<Rightarrow> (string \<Rightarrow> bool) \<Rightarrow> tunnel_error + string" where
  "detectCABundle env statOk =
     (let osType = Getenv env ''OS_TYPE''
      in if osType = '''' then Inl OSTypeNotSet
         else if osType = ''RHCOS'' \<or> osType = ''RHEL'' then
           (if statOk RHELCAPath then Inr RHELCAPath else Inl (CAFileNotFound RHELCAPath))
         else if osType = ''Ubuntu'' then
           (if statOk UbuntuCAPath then Inr UbuntuCAPath else Inl (CAFileNotFound UbuntuCAPath))
         else Inl (UnknownOSType osType))"

definition getClusterEnv :: "environ \<Rightarrow> tunnel_error + string" where
  "getClusterEnv env =
     (let clusterEnv = (if Getenv env ''CLUSTER_ENV'' = '''' then ''prod'' else Getenv env ''CLUSTER_ENV'')
      in Inr (if clusterEnv = ''prod'' then ProductionCheckHost
              else if clusterEnv = ''stage'' then StagingCheckHost
              else ProductionCheckHost))"

text \<open>
  \<open>os.ReadDir\<close>: the names of the files below the directory, in byte order, with their kind.
\<close>

definition dir_entries :: "filesys \<Rightarrow> string \<Rightarrow> (string \<times> bool) list" where
  "dir_entries fs d =
     map (\<lambda>p. (drop (length d + 1) p, fmlookup fs p = Some Dir))
       (filter (\<lambda>p. HasPrefix p (d @ ''/'') \<and> drop (length d + 1) p \<noteq> '''' \<and>
                    CHR ''/'' \<notin> set (drop (length d + 1) p))
         (sorted_list_of_fset (fmdom fs)))"

fun recover_loop ::
  "file_faults \<Rightarrow> filesys \<Rightarrow> (string \<times> bool) list \<Rightarrow> stunnel_manager \<Rightarrow> stunnel_manager" where
  "recover_loop os fs [] sm = sm"
| "recover_loop os fs ((name, isDir) # rest) sm =
     (if isDir \<or> Ext name \<noteq> ''.conf'' then recover_loop os fs rest sm
      else (let volumeID = TrimSuffix name ''.conf'';
                configPath = path_join (servicesDir sm) name
            in case extractPortFromConfigFile os fs sm configPath of
                 Inl e \<Rightarrow> recover_loop os fs rest sm
               | Inr port \<Rightarrow>
                   if port \<ge> initialPort sm \<and> port \<le> initialPort sm + portRange sm - 1
                   then recover_loop os fs rest
                     (sm\<lparr>allocatedPorts := fmupd volumeID port (allocatedPorts sm),
                         portToVolume := fmupd port volumeID (portToVolume sm)\<rparr>)
                   else recover_loop os fs rest sm))"

definition recoverExistingTunnels ::
  "file_faults \<Rightarrow> bool \<Rightarrow> filesys \<Rightarrow> stunnel_manager \<Rightarrow> (tunnel_error + unit) \<times> stunnel_manager" where
  "recoverExistingTunnels os readDirFails fs sm =
     (case fmlookup fs (servicesDir sm) of
        None \<Rightarrow> (Inr (), sm)
      | Some (File c) \<Rightarrow> (Inl ReadDirFailed, sm)
      | Some Dir \<Rightarrow>
          if readDirFails then (Inl ReadDirFailed, sm)
          else (Inr (), recover_loop os fs (dir_entries fs (servicesDir sm)) sm))"

definition fresh_manager :: "string \<Rightarrow> string \<Rightarrow> stunnel_manager" where
  "fresh_manager ca host =
     \<lparr>servicesDir = DefaultServicesDir, initialPort = InitialPort, portRange = PortRange,
      allocatedPorts = fmempty, portToVolume = fmempty, caFile = ca, checkHost = host,
      stunnelStarted = False, debugLevel = DefaultDebugLevel, debounceTimer = None,
      pendingSIGHUP = False\<rparr>"

definition NewStunnelManager ::
  "bool \<Rightarrow> environ \<Rightarrow> (string \<Rightarrow> bool) \<Rightarrow> file_faults \<Rightarrow> bool \<Rightarrow> filesys \<Rightarrow> tunnel_error + stunnel_manager" where
  "NewStunnelManager loggerNil env statOk os readDirFails fs =
     (if loggerNil then Inl LoggerRequired
      else case detectCABundle env statOk of
          Inl e \<Rightarrow> Inl (DetectCAFailed e)
        | Inr ca \<Rightarrow>
            if ca = '''' then Inl EmptyCAPath
            else case getClusterEnv env of
                Inl e \<Rightarrow> Inl (CheckHostFailed e)
              | Inr host \<Rightarrow>
                  if host = '''' then Inl EmptyCheckHost
                  else Inr (snd (recoverExistingTunnels os readDirFails fs (fresh_manager ca host))))"

text \<open>The constructor for tests: a services directory of the caller's, and no recovery.\<close>

datatype testing_error = TestLoggerRequired | ServicesDirRequired | CAFileRequired

definition NewStunnelManagerForTesting :: "bool \<Rightarrow> string \<Rightarrow> string \<Rightarrow> testing_error + stunnel_manager" where
  "NewStunnelManagerForTesting loggerNil dir ca =
     (if loggerNil then Inl TestLoggerRequired
      else if dir = '''' then Inl ServicesDirRequired
      else if ca = '''' then Inl CAFileRequired
      else Inr ((fresh_manager ca ProductionCheckHost)\<lparr>servicesDir := dir\<rparr>))"

section \<open>Ports\<close>

text \<open>The loop over the candidate ports; the last argument counts the ports still to try.\<close>

fun find_port :: "(int \<Rightarrow> bool) \<Rightarrow> (int, string) fmap \<Rightarrow> int \<Rightarrow> nat \<Rightarrow> int option" where
  "find_port avail taken port 0 = None"
| "find_port avail taken port (Suc n) =
     (if fmlookup taken port \<noteq> None then find_port avail taken (port + 1) n
      else if \<not> avail port then find_port avail taken (port + 1) n
      else Some port)"

definition findAvailablePort :: "(int \<Rightarrow> bool) \<Rightarrow> stunnel_manager \<Rightarrow> tunnel_error + int" where
  "findAvailablePort avail sm =
     (let maxPort = initialPort sm + portRange sm
      in case find_port avail (portToVolume sm) (initialPort sm) (nat (maxPort - initialPort sm)) of
           Some port \<Rightarrow> Inr port
         | None \<Rightarrow> Inl (NoAvailablePorts (initialPort sm) (maxPort - 1)))"

definition GetTunnelPort :: "stunnel_manager \<Rightarrow> string \<Rightarrow> int \<times> bool" where
  "GetTunnelPort sm volumeID =
     (if volumeID = '''' then (0, False)
      else case fmlookup (allocatedPorts sm) volumeID of None \<Rightarrow> (0, False) | Some p \<Rightarrow> (p, True))"

text \<open>A mount line of \<open>/proc/mounts\<close> that goes through the tunnel on this port.\<close>

definition mount_uses_port :: "int \<Rightarrow> string \<Rightarrow> bool" where
  "mount_uses_port port line \<longleftrightarrow>
     Contains line ''nfs4'' \<and> Contains line ''127.0.0.1:'' \<and> Contains line (''port='' @ Itoa port)"

definition isTunnelPortInUse :: "string option \<Rightarrow> int \<Rightarrow> bool" where
  "isTunnelPortInUse mounts port =
     (case mounts of
        None \<Rightarrow> True
      | Some data \<Rightarrow> length (filter (mount_uses_port port) (scan_lines data)) > 0)"

section \<open>Signalling stunnel\<close>

definition reloadStunnel ::
  "pgrep_result \<Rightarrow> (int \<Rightarrow> kill_result) \<Rightarrow> world \<Rightarrow> (tunnel_error + unit) \<times> world" where
  "reloadStunnel pg kl w =
     (case pg of
        PgrepTimeout \<Rightarrow> (Inl PgrepTimedOut, w)
      | PgrepError \<Rightarrow> (Inl StunnelNotLocated, w)
      | PgrepOutput output \<Rightarrow>
          (let pidStr = TrimSpace output
           in if length pidStr = 0 then (Inl NoStunnelPIDs, w)
              else if Contains pidStr [newline] then (Inl MultipleStunnelProcesses, w)
              else case Atoi pidStr of
                  None \<Rightarrow> (Inl (InvalidStunnelPID pidStr), w)
                | Some pid \<Rightarrow>
                    (case kl pid of
                       KillOk \<Rightarrow> (Inr (), w\<lparr>sighups := sighups w @ [pid]\<rparr>)
                     | KillESRCH \<Rightarrow> (Inr (), w)
                     | KillError \<Rightarrow> (Inl (SIGHUPFailed pid), w))))"

definition scheduleDebouncedSIGHUP :: "string \<Rightarrow> stunnel_manager \<Rightarrow> stunnel_manager" where
  "scheduleDebouncedSIGHUP requestID sm =
     sm\<lparr>pendingSIGHUP := True, debounceTimer := Some \<lparr>armed = True, timerReq = requestID\<rparr>\<rparr>"

text \<open>The callback of the debounce timer, once it holds \<open>debounceMu\<close>; errors are only logged.\<close>

definition debounce_callback ::
  "pgrep_result \<Rightarrow> (int \<Rightarrow> kill_result) \<Rightarrow> stunnel_manager \<times> world \<Rightarrow> stunnel_manager \<times> world" where
  "debounce_callback pg kl st =
     (case st of (sm, w) \<Rightarrow>
        if \<not> pendingSIGHUP sm then (sm, w)
        else (sm\<lparr>pendingSIGHUP := False\<rparr>, snd (reloadStunnel pg kl w)))"

text \<open>The debounce window passes: an armed timer runs its callback, once.\<close>

definition debounce_expire ::
  "pgrep_result \<Rightarrow> (int \<Rightarrow> kill_result) \<Rightarrow> stunnel_manager \<times> world \<Rightarrow> stunnel_manager \<times> world" where
  "debounce_expire pg kl st =
     (case st of (sm, w) \<Rightarrow>
        (case debounceTimer sm of
           None \<Rightarrow> (sm, w)
         | Some t \<Rightarrow>
             if armed t
             then debounce_callback pg kl (sm\<lparr>debounceTimer := Some (t\<lparr>armed := False\<rparr>)\<rparr>, w)
             else (sm, w)))"

section \<open>EnsureTunnel\<close>

definition writeTunnelConfig :: "write_result \<Rightarrow> string \<Rightarrow> string \<Rightarrow> filesys \<Rightarrow> (tunnel_error + unit) \<times> filesys" where
  "writeTunnelConfig res configPath config fs =
     (case res of
        WriteOk \<Rightarrow> (Inr (), fmupd configPath (File config) fs)
      | WriteError None \<Rightarrow> (Inl WriteConfigFailed, fs)
      | WriteError (Some partial) \<Rightarrow> (Inl WriteConfigFailed, fmupd configPath (File partial) fs))"

text \<open>The slow path, with \<open>sm.mu\<close> held for writing.\<close>

definition ensure_locked ::
  "ensure_os \<Rightarrow> string \<Rightarrow> string \<Rightarrow> string \<Rightarrow> stunnel_manager \<times> world
    \<Rightarrow> (tunnel_error + int) \<times> stunnel_manager \<times> world" where
  "ensure_locked os volumeID nfsServer requestID st =
     (case st of (sm, w) \<Rightarrow>
        (case fmlookup (allocatedPorts sm) volumeID of
           Some port \<Rightarrow> (Inr port, sm, w)
         | None \<Rightarrow>
           (case findAvailablePort (bindable os) sm of
              Inl e \<Rightarrow> (Inl e, sm, w)
            | Inr port \<Rightarrow>
              (let configPath = config_path sm volumeID;
                   config = buildTunnelConfig sm volumeID nfsServer port
               in case writeTunnelConfig (writeResult os) configPath config (files w) of
                  (Inl e, fs') \<Rightarrow> (Inl e, sm, w\<lparr>files := fs'\<rparr>)
                | (Inr _, fs') \<Rightarrow>
                  (let w1 = w\<lparr>files := fs'\<rparr>;
                       sm1 = sm\<lparr>allocatedPorts := fmupd volumeID port (allocatedPorts sm),
                                portToVolume := fmupd port volumeID (portToVolume sm)\<rparr>
                   in if \<not> stunnelStarted sm1 \<and> \<not> runningBefore os then
                        (if \<not> runningAfterWait os then
                           (Inl StunnelNotRunning,
                            sm1\<lparr>allocatedPorts := fmdrop volumeID (allocatedPorts sm1),
                                portToVolume := fmdrop port (portToVolume sm1)\<rparr>,
                            w1\<lparr>files := snd (remove_path (rollbackRemoveOk os) configPath (files w1))\<rparr>)
                         else (Inr port, sm1\<lparr>stunnelStarted := True\<rparr>, w1))
                      else (Inr port, scheduleDebouncedSIGHUP requestID (sm1\<lparr>stunnelStarted := True\<rparr>), w1))))))"

definition EnsureTunnel ::
  "ensure_os \<Rightarrow> string \<Rightarrow> string \<Rightarrow> string \<Rightarrow> stunnel_manager \<times> world
    \<Rightarrow> (tunnel_error + int) \<times> stunnel_manager \<times> world" where
  "EnsureTunnel os volumeID nfsServer requestID st =
     (if volumeID = '''' then (Inl VolumeIDRequired, st)
      else if nfsServer = '''' then (Inl TargetIPRequired, st)
      else case fmlookup (allocatedPorts (fst st)) volumeID of
          Some port \<Rightarrow> (Inr port, st)
        | None \<Rightarrow> ensure_locked os volumeID nfsServer requestID st)"

section \<open>RemoveTunnel\<close>

definition stop_timer :: "stunnel_manager \<Rightarrow> stunnel_manager" where
  "stop_timer sm = sm\<lparr>debounceTimer := map_option (\<lambda>t. t\<lparr>armed := False\<rparr>) (debounceTimer sm)\<rparr>"

definition handleLastTunnelCleanup ::
  "remove_os \<Rightarrow> stunnel_manager \<times> world \<Rightarrow> (tunnel_error + unit) \<times> stunnel_manager \<times> world" where
  "handleLastTunnelCleanup os st =
     (case st of (sm, w) \<Rightarrow>
        (let sm1 = (stop_timer sm)\<lparr>pendingSIGHUP := False\<rparr>
         in case reloadStunnel (pgrep os) (kill os) w of
              (Inl e, w1) \<Rightarrow> (Inl (LastTunnelSIGHUPFailed e), sm1, w1)
            | (Inr _, w1) \<Rightarrow> (Inr (), sm1\<lparr>stunnelStarted := False\<rparr>, w1)))"

definition forget_port :: "string \<Rightarrow> int \<Rightarrow> stunnel_manager \<Rightarrow> stunnel_manager" where
  "forget_port volumeID port sm =
     sm\<lparr>allocatedPorts := fmdrop volumeID (allocatedPorts sm),
        portToVolume := fmdrop port (portToVolume sm)\<rparr>"

definition restore_port :: "string \<Rightarrow> int \<Rightarrow> stunnel_manager \<Rightarrow> stunnel_manager" where
  "restore_port volumeID port sm =
     sm\<lparr>allocatedPorts := fmupd volumeID port (allocatedPorts sm),
        portToVolume := fmupd port volumeID (portToVolume sm)\<rparr>"

text \<open>From \<open>os.Remove(configPath)\<close> to the end.\<close>

definition remove_config ::
  "remove_os \<Rightarrow> bool \<Rightarrow> string \<Rightarrow> int \<Rightarrow> string \<Rightarrow> stunnel_manager \<times> world
    \<Rightarrow> (tunnel_error + unit) \<times> stunnel_manager \<times> world" where
  "remove_config os isLastTunnel volumeID tunnelPort requestID st =
     (case st of (sm, w) \<Rightarrow>
        (let (res, fs') = remove_path (removeOk os) (config_path sm volumeID) (files w);
             w1 = w\<lparr>files := fs'\<rparr>
         in if res = RmError then (Inl RemoveConfigFailed, restore_port volumeID tunnelPort sm, w1)
            else (Inr (), if isLastTunnel then sm else scheduleDebouncedSIGHUP requestID sm, w1)))"

definition RemoveTunnel ::
  "remove_os \<Rightarrow> string \<Rightarrow> string \<Rightarrow> stunnel_manager \<times> world
    \<Rightarrow> (tunnel_error + unit) \<times> stunnel_manager \<times> world" where
  "RemoveTunnel os volumeID requestID st =
     (case st of (sm, w) \<Rightarrow>
        if volumeID = '''' then (Inl VolumeIDRequired, sm, w)
        else case fmlookup (allocatedPorts sm) volumeID of
            None \<Rightarrow> (Inr (), sm, w)
          | Some tunnelPort \<Rightarrow>
              if isTunnelPortInUse (procMounts os) tunnelPort then (Inr (), sm, w)
              else (let isLastTunnel = (fcard (fmdom (allocatedPorts sm)) = 1);
                        sm1 = forget_port volumeID tunnelPort sm
                    in if isLastTunnel then
                         (case handleLastTunnelCleanup os (sm1, w) of
                            (Inl e, sm2, w2) \<Rightarrow> (Inl e, restore_port volumeID tunnelPort sm2, w2)
                          | (Inr _, sm2, w2) \<Rightarrow>
                              remove_config os isLastTunnel volumeID tunnelPort requestID (sm2, w2))
                       else remove_config os isLastTunnel volumeID tunnelPort requestID (sm1, w)))"

end
