(* ===== verification/Stunnel_Inv.thy ===== *)
theory Stunnel_Inv
  imports Stunnel
begin

text \<open>
  Correctness of the stunnel manager's operations run one after another: the port search, the
  invariant that the two maps are inverse to each other, idempotence, rollback on every error
  path, and the interpretation of the allocator interface.
\<close>

section \<open>The invariant\<close>

definition port_inv :: "stunnel_manager \<Rightarrow> bool" where
  "port_inv sm \<longleftrightarrow>
     fmpred (\<lambda>v p. fmlookup (portToVolume sm) p = Some v \<and>
                   initialPort sm \<le> p \<and> p < initialPort sm + portRange sm) (allocatedPorts sm) \<and>
     fmpred (\<lambda>p v. fmlookup (allocatedPorts sm) v = Some p) (portToVolume sm)"

text \<open>What an operation on the tunnels leaves alone.\<close>

definition same_setup :: "stunnel_manager \<Rightarrow> stunnel_manager \<Rightarrow> bool" where
  "same_setup sm sm' \<longleftrightarrow> servicesDir sm' = servicesDir sm \<and> initialPort sm' = initialPort sm \<and>
     portRange sm' = portRange sm \<and> caFile sm' = caFile sm \<and> checkHost sm' = checkHost sm \<and>
     debugLevel sm' = debugLevel sm"

definition same_maps :: "stunnel_manager \<Rightarrow> stunnel_manager \<Rightarrow> bool" where
  "same_maps sm sm' \<longleftrightarrow> allocatedPorts sm' = allocatedPorts sm \<and> portToVolume sm' = portToVolume sm"

lemma port_inv_iff:
  "port_inv sm \<Longrightarrow> fmlookup (portToVolume sm) p = Some v \<longleftrightarrow> fmlookup (allocatedPorts sm) v = Some p"
  unfolding port_inv_def fmpred_iff by blast

lemma port_inv_range:
  "port_inv sm \<Longrightarrow> fmlookup (allocatedPorts sm) v = Some p \<Longrightarrow>
    initialPort sm \<le> p \<and> p < initialPort sm + portRange sm"
  unfolding port_inv_def fmpred_iff by blast

lemma port_inv_I:
  assumes "\<And>v p. fmlookup (allocatedPorts sm) v = Some p \<longleftrightarrow> fmlookup (portToVolume sm) p = Some v"
    and "\<And>v p. fmlookup (allocatedPorts sm) v = Some p \<Longrightarrow> initialPort sm \<le> p \<and> p < initialPort sm + portRange sm"
  shows "port_inv sm"
  unfolding port_inv_def fmpred_iff using assms by blast

lemma port_inv_transfer:
  "port_inv sm \<Longrightarrow> same_setup sm sm' \<Longrightarrow> same_maps sm sm' \<Longrightarrow> port_inv sm'"
  by (simp add: port_inv_def same_setup_def same_maps_def)

lemma port_inv_restore:
  assumes "port_inv sm" "fmlookup (allocatedPorts sm) v = None" "fmlookup (portToVolume sm) p = None"
    "initialPort sm \<le> p" "p < initialPort sm + portRange sm"
  shows "port_inv (restore_port v p sm)"
proof (rule port_inv_I)
  fix u q
  show "fmlookup (allocatedPorts (restore_port v p sm)) u = Some q \<longleftrightarrow>
      fmlookup (portToVolume (restore_port v p sm)) q = Some u"
    using assms(2,3) port_inv_iff[OF assms(1), of q u] port_inv_iff[OF assms(1), of p u]
      port_inv_iff[OF assms(1), of q v]
    by (auto simp: restore_port_def)
next
  fix u q
  assume "fmlookup (allocatedPorts (restore_port v p sm)) u = Some q"
  then show "initialPort (restore_port v p sm) \<le> q \<and>
      q < initialPort (restore_port v p sm) + portRange (restore_port v p sm)"
    using assms port_inv_range[OF assms(1), of u q] by (auto simp: restore_port_def split: if_splits)
qed

lemma port_inv_forget:
  assumes "port_inv sm" "fmlookup (allocatedPorts sm) v = Some p"
  shows "port_inv (forget_port v p sm)"
proof (rule port_inv_I)
  fix u q
  show "fmlookup (allocatedPorts (forget_port v p sm)) u = Some q \<longleftrightarrow>
      fmlookup (portToVolume (forget_port v p sm)) q = Some u"
    using assms(2) port_inv_iff[OF assms(1), of q u] port_inv_iff[OF assms(1), of p u]
      port_inv_iff[OF assms(1), of p v]
    by (auto simp: forget_port_def)
next
  fix u q
  assume "fmlookup (allocatedPorts (forget_port v p sm)) u = Some q"
  then show "initialPort (forget_port v p sm) \<le> q \<and>
      q < initialPort (forget_port v p sm) + portRange (forget_port v p sm)"
    using assms port_inv_range[OF assms(1), of u q] by (auto simp: forget_port_def split: if_splits)
qed

lemma port_inv_fresh: "port_inv (fresh_manager ca host)"
  by (simp add: port_inv_def fresh_manager_def)

text \<open>At most \<open>portRange\<close> tunnels exist at any time.\<close>

lemma port_inv_card:
  assumes "port_inv sm"
  shows "fcard (fmdom (allocatedPorts sm)) \<le> nat (portRange sm)"
proof -
  let ?m = "allocatedPorts sm" and ?R = "{initialPort sm..<initialPort sm + portRange sm}"
  have inj: "inj_on (\<lambda>v. the (fmlookup ?m v)) (fmdom' ?m)"
  proof (rule inj_onI)
    fix u v
    assume "u \<in> fmdom' ?m" "v \<in> fmdom' ?m" "the (fmlookup ?m u) = the (fmlookup ?m v)"
    then obtain p where "fmlookup ?m u = Some p" "fmlookup ?m v = Some p"
      by (auto simp: fmlookup_dom'_iff)
    then show "u = v" using port_inv_iff[OF assms] by (metis option.inject)
  qed
  have "(\<lambda>v. the (fmlookup ?m v)) ` fmdom' ?m \<subseteq> ?R"
    using port_inv_range[OF assms] by (auto simp: fmlookup_dom'_iff)
  then have "card (fmdom' ?m) \<le> card ?R"
    using inj by (intro card_inj_on_le) auto
  then show ?thesis by (simp add: fcard.rep_eq fmdom'_alt_def)
qed

section \<open>The port search\<close>

lemma find_port_Some:
  "find_port avail taken port n = Some p \<longleftrightarrow>
     port \<le> p \<and> p < port + int n \<and> fmlookup taken p = None \<and> avail p \<and>
     (\<forall>q. port \<le> q \<and> q < p \<longrightarrow> fmlookup taken q \<noteq> None \<or> \<not> avail q)"
proof (induction n arbitrary: port)
  case (Suc n)
  show ?case
  proof (cases "fmlookup taken port = None \<and> avail port")
    case True
    then show ?thesis by (auto simp: not_less_iff_gr_or_eq)
  next
    case False
    then have "find_port avail taken port (Suc n) = find_port avail taken (port + 1) n" by auto
    moreover have "(\<forall>q. port \<le> q \<and> q < p \<longrightarrow> fmlookup taken q \<noteq> None \<or> \<not> avail q) \<longleftrightarrow>
        (\<forall>q. port + 1 \<le> q \<and> q < p \<longrightarrow> fmlookup taken q \<noteq> None \<or> \<not> avail q)"
    proof -
      have "port \<le> q \<and> q < p \<longleftrightarrow> q = port \<and> port < p \<or> port + 1 \<le> q \<and> q < p" for q by auto
      then show ?thesis using False by (metis (no_types))
    qed
    moreover have "p \<noteq> port" if "fmlookup taken p = None" "avail p"
      using False that by auto
    ultimately show ?thesis using Suc.IH[of "port + 1"] by auto
  qed
qed auto

lemma find_port_None:
  "find_port avail taken port n = None \<longleftrightarrow>
     (\<forall>q. port \<le> q \<and> q < port + int n \<longrightarrow> fmlookup taken q \<noteq> None \<or> \<not> avail q)"
proof (induction n arbitrary: port)
  case (Suc n)
  have split: "port \<le> q \<and> q < port + int (Suc n) \<longleftrightarrow> q = port \<or> port + 1 \<le> q \<and> q < port + 1 + int n" for q
    by auto
  have "(\<forall>q. port \<le> q \<and> q < port + int (Suc n) \<longrightarrow> fmlookup taken q \<noteq> None \<or> \<not> avail q) \<longleftrightarrow>
      (fmlookup taken port \<noteq> None \<or> \<not> avail port) \<and>
      (\<forall>q. port + 1 \<le> q \<and> q < port + 1 + int n \<longrightarrow> fmlookup taken q \<noteq> None \<or> \<not> avail q)"
    unfolding split by blast
  then show ?case using Suc.IH[of "port + 1"] by auto
qed auto

lemma findAvailablePort_Inr:
  "findAvailablePort avail sm = Inr p \<longleftrightarrow>
     initialPort sm \<le> p \<and> p < initialPort sm + portRange sm \<and>
     fmlookup (portToVolume sm) p = None \<and> avail p \<and>
     (\<forall>q. initialPort sm \<le> q \<and> q < p \<longrightarrow> fmlookup (portToVolume sm) q \<noteq> None \<or> \<not> avail q)"
proof -
  have "findAvailablePort avail sm = Inr p \<longleftrightarrow>
      find_port avail (portToVolume sm) (initialPort sm) (nat (portRange sm)) = Some p"
    by (auto simp: findAvailablePort_def Let_def split: option.splits)
  then show ?thesis unfolding find_port_Some by auto
qed

section \<open>EnsureTunnel\<close>

lemma same_setup_simps [simp]:
  "same_setup sm (restore_port v p sm)" "same_setup sm (forget_port v p sm)"
  "same_setup sm (scheduleDebouncedSIGHUP r sm)" "same_setup sm (stop_timer sm)" "same_setup sm sm"
  by (simp_all add: same_setup_def restore_port_def forget_port_def scheduleDebouncedSIGHUP_def stop_timer_def)

lemma same_maps_simps [simp]:
  "same_maps sm (scheduleDebouncedSIGHUP r sm)" "same_maps sm (stop_timer sm)" "same_maps sm sm"
  "same_maps sm (sm\<lparr>stunnelStarted := b\<rparr>)" "same_maps sm (sm\<lparr>pendingSIGHUP := b\<rparr>)"
  by (simp_all add: same_maps_def scheduleDebouncedSIGHUP_def stop_timer_def)

text \<open>
  The three ways \<open>EnsureTunnel\<close> ends: the volume already had its port; a new port was committed; an
  error, with the maps as before (nothing committed, or rolled back).
\<close>

lemma ensure_locked_cases:
  assumes "ensure_locked os v srv r (sm, w) = (res, sm', w')" "fmlookup (allocatedPorts sm) v = None"
  obtains
    (alloc) p where "findAvailablePort (bindable os) sm = Inr p" "res = Inr p" "same_maps (restore_port v p sm) sm'" "same_setup sm sm'"
      "stunnelStarted sm'" "writeResult os = WriteOk"
      "w' = w\<lparr>files := fmupd (config_path sm v) (File (buildTunnelConfig sm v srv p)) (files w)\<rparr>"
  | (fail) e where "res = Inl e" "same_maps sm sm'" "same_setup sm sm'" "sighups w' = sighups w"
proof (cases "findAvailablePort (bindable os) sm")
  case (Inl e)
  then have "res = Inl e" "sm' = sm" "w' = w" using assms by (auto simp: ensure_locked_def)
  then show ?thesis using fail[of e] by simp
next
  case (Inr p)
  then have free: "fmlookup (portToVolume sm) p = None" by (simp add: findAvailablePort_Inr)
  show ?thesis
  proof (cases "writeResult os")
    case (WriteError left)
    then show ?thesis using assms Inr fail by (cases left) (auto simp: ensure_locked_def writeTunnelConfig_def)
  next
    case WriteOk
    show ?thesis
    proof (cases "\<not> stunnelStarted sm \<and> \<not> runningBefore os \<and> \<not> runningAfterWait os")
      case True
      then have "same_maps sm sm'" "same_setup sm sm'" "res = Inl StunnelNotRunning" "sighups w' = sighups w"
        using assms Inr free WriteOk
        by (auto simp: ensure_locked_def writeTunnelConfig_def same_maps_def same_setup_def Let_def fmdrop_upd_new)
      then show ?thesis using fail by blast
    next
      case False
      then show ?thesis using assms Inr WriteOk
        by (intro alloc[of p])
          (auto simp: ensure_locked_def writeTunnelConfig_def Let_def same_maps_def same_setup_def
            restore_port_def scheduleDebouncedSIGHUP_def split: if_splits)
    qed
  qed
qed

lemma EnsureTunnel_cases:
  assumes "EnsureTunnel os v srv r (sm, w) = (res, sm', w')"
  obtains
    (hit) p where "v \<noteq> ''''" "srv \<noteq> ''''" "fmlookup (allocatedPorts sm) v = Some p" "res = Inr p" "sm' = sm" "w' = w"
  | (alloc) p where "v \<noteq> ''''" "srv \<noteq> ''''" "fmlookup (allocatedPorts sm) v = None"
      "findAvailablePort (bindable os) sm = Inr p" "res = Inr p"
      "same_maps (restore_port v p sm) sm'" "same_setup sm sm'" "stunnelStarted sm'"
      "writeResult os = WriteOk"
      "w' = w\<lparr>files := fmupd (config_path sm v) (File (buildTunnelConfig sm v srv p)) (files w)\<rparr>"
  | (fail) e where "res = Inl e" "same_maps sm sm'" "same_setup sm sm'" "sighups w' = sighups w"
proof (cases "v = '''' \<or> srv = ''''")
  case True
  then show ?thesis using assms fail by (auto simp: EnsureTunnel_def split: if_splits)
next
  case guards: False
  show ?thesis
  proof (cases "fmlookup (allocatedPorts sm) v")
    case (Some p)
    then show ?thesis using assms guards hit by (auto simp: EnsureTunnel_def)
  next
    case None
    then have "ensure_locked os v srv r (sm, w) = (res, sm', w')" using assms guards by (simp add: EnsureTunnel_def)
    then show ?thesis by (rule ensure_locked_cases[OF _ None]) (use guards None alloc fail in blast)+
  qed
qed

text \<open>The successful slow path, written out.\<close>

lemma ensure_locked_new:
  assumes "fmlookup (allocatedPorts sm) v = None" "findAvailablePort (bindable os) sm = Inr p"
    "writeResult os = WriteOk" "stunnelStarted sm \<or> runningBefore os"
  shows "ensure_locked os v srv r (sm, w) =
    (Inr p, scheduleDebouncedSIGHUP r ((restore_port v p sm)\<lparr>stunnelStarted := True\<rparr>),
     w\<lparr>files := fmupd (config_path sm v) (File (buildTunnelConfig sm v srv p)) (files w)\<rparr>)"
  using assms by (auto simp: ensure_locked_def writeTunnelConfig_def restore_port_def Let_def)

lemmas schedule_sels = scheduleDebouncedSIGHUP_def restore_port_def forget_port_def

lemma EnsureTunnel_port_inv:
  assumes "port_inv sm" "EnsureTunnel os v srv r (sm, w) = (res, sm', w')"
  shows "port_inv sm'"
  using assms(2)
proof (cases rule: EnsureTunnel_cases)
  case hit
  then show ?thesis using assms(1) by simp
next
  case (alloc p)
  then have "port_inv (restore_port v p sm)"
    using assms(1) by (intro port_inv_restore) (auto simp: findAvailablePort_Inr)
  moreover have "same_setup (restore_port v p sm) sm'"
    using alloc(7) by (simp add: same_setup_def restore_port_def)
  ultimately show ?thesis using alloc(6) port_inv_transfer by blast
next
  case fail
  then show ?thesis using assms(1) port_inv_transfer by blast
qed

section \<open>RemoveTunnel\<close>

lemma restore_forget:
  "fmlookup (allocatedPorts sm) v = Some p \<Longrightarrow> fmlookup (portToVolume sm) p = Some v \<Longrightarrow>
    same_maps sm (restore_port v p (forget_port v p sm))"
  by (simp add: restore_port_def forget_port_def same_maps_def fmdrop_upd_restore)

lemma handleLast_frame:
  "handleLastTunnelCleanup os (sm, w) = (res, sm', w') \<Longrightarrow>
     same_maps sm sm' \<and> same_setup sm sm' \<and> files w' = files w"
  by (auto simp: handleLastTunnelCleanup_def reloadStunnel_def Let_def same_maps_def same_setup_def
      stop_timer_def split: prod.splits sum.splits pgrep_result.splits option.splits kill_result.splits if_splits)

lemma remove_config_cases:
  assumes "remove_config os l v p r (sm, w) = (res, sm', w')"
  shows "(res = Inr () \<and> same_maps sm sm' \<and> fmlookup (files w') (config_path sm v) = None \<or>
      res = Inl RemoveConfigFailed \<and> same_maps (restore_port v p sm) sm' \<and> files w' = files w) \<and>
    same_setup sm sm' \<and> (\<forall>q. q \<noteq> config_path sm v \<longrightarrow> fmlookup (files w') q = fmlookup (files w) q)"
  using assms
  by (auto simp: remove_config_def remove_path_def Let_def split: if_splits)

text \<open>The end of a removal whose port was forgotten before.\<close>

lemma remove_config_ends:
  assumes "remove_config os l v p r (sm2, w2) = (res, sm', w')" "same_maps (forget_port v p sm) sm2" "same_setup sm sm2"
    "files w2 = files w" "fmlookup (allocatedPorts sm) v = Some p" "fmlookup (portToVolume sm) p = Some v"
  obtains (gone) "res = Inr ()" "same_maps (forget_port v p sm) sm'" "same_setup sm sm'" "fmlookup (files w') (config_path sm v) = None"
      "\<And>q. q \<noteq> config_path sm v \<Longrightarrow> fmlookup (files w') q = fmlookup (files w) q"
  | (fail) e where "res = Inl e" "same_maps sm sm'" "same_setup sm sm'" "files w' = files w"
proof -
  have keep: "same_setup sm sm'" "config_path sm2 v = config_path sm v"
    using remove_config_cases[OF assms(1)] assms(3) by (auto simp: same_setup_def config_path_def)
  consider "res = Inr ()" "same_maps sm2 sm'" "fmlookup (files w') (config_path sm v) = None"
    | "res = Inl RemoveConfigFailed" "same_maps (restore_port v p sm2) sm'" "files w' = files w2"
    using remove_config_cases[OF assms(1)] keep by auto
  then show thesis
  proof cases
    case 1
    then show thesis using gone keep assms(2,4) remove_config_cases[OF assms(1)] by (auto simp: same_maps_def)
  next
    case 2
    with restore_forget[OF assms(5,6)] assms(2,4) keep show thesis
      by (intro fail) (auto simp: same_maps_def restore_port_def)
  qed
qed

text \<open>
  The ways \<open>RemoveTunnel\<close> ends: nothing to do; the tunnel and its file are gone; an error, with the
  maps as before.
\<close>

lemma RemoveTunnel_cases:
  assumes "RemoveTunnel os v r (sm, w) = (res, sm', w')"
    and inv: "port_inv sm"
  obtains
    (idle) "sm' = sm" "w' = w" "v \<noteq> '''' \<Longrightarrow> res = Inr ()"
      "\<And>p. fmlookup (allocatedPorts sm) v = Some p \<Longrightarrow> v \<noteq> '''' \<Longrightarrow> isTunnelPortInUse (procMounts os) p"
  | (gone) p where "v \<noteq> ''''" "res = Inr ()" "fmlookup (allocatedPorts sm) v = Some p"
      "\<not> isTunnelPortInUse (procMounts os) p" "same_maps (forget_port v p sm) sm'" "same_setup sm sm'"
      "fmlookup (files w') (config_path sm v) = None"
      "\<And>q. q \<noteq> config_path sm v \<Longrightarrow> fmlookup (files w') q = fmlookup (files w) q"
  | (fail) e where "v \<noteq> ''''" "res = Inl e" "same_maps sm sm'" "same_setup sm sm'" "files w' = files w"
proof (cases "fmlookup (allocatedPorts sm) v")
  case None
  then show ?thesis using assms idle by (auto simp: RemoveTunnel_def split: if_splits)
next
  case (Some p)
  show ?thesis
  proof (cases "v = '''' \<or> isTunnelPortInUse (procMounts os) p")
    case True
    then show ?thesis using assms Some idle by (auto simp: RemoveTunnel_def split: if_splits)
  next
    case False
    let ?sm1 = "forget_port v p sm"
    have pv: "fmlookup (portToVolume sm) p = Some v" using port_inv_iff[OF inv] Some by blast
    have restored: "same_maps sm (restore_port v p ?sm1)"
      using restore_forget[OF Some pv] by simp
    have tail: ?thesis
      if rc: "remove_config os l v p r (sm2, w2) = (res, sm', w')"
        and sm2: "same_maps ?sm1 sm2" "same_setup sm sm2" "files w2 = files w" for l sm2 w2
      by (rule remove_config_ends[OF rc sm2 Some pv]) (use False Some gone fail in blast)+
    show ?thesis
    proof (cases "fcard (fmdom (allocatedPorts sm)) = 1")
      case notlast: False
      then have "remove_config os False v p r (?sm1, w) = (res, sm', w')"
        using assms(1) False Some by (simp add: RemoveTunnel_def)
      then show ?thesis by (rule tail) simp_all
    next
      case last: True
      obtain hr sm2 w2 where h: "handleLastTunnelCleanup os (?sm1, w) = (hr, sm2, w2)"
        by (metis prod.exhaust)
      note frame = handleLast_frame[OF h]
      show ?thesis
      proof (cases hr)
        case (Inl e)
        then have eq: "res = Inl e" "sm' = restore_port v p sm2" "w' = w2"
          using assms(1) False Some last h by (auto simp: RemoveTunnel_def)
        with restored frame False show ?thesis
          by (intro fail) (auto simp: same_maps_def same_setup_def restore_port_def forget_port_def)
      next
        case (Inr u)
        then have "remove_config os True v p r (sm2, w2) = (res, sm', w')"
          using assms(1) False Some last h by (simp add: RemoveTunnel_def)
        then show ?thesis
          by (rule tail) (use frame in \<open>auto simp: same_setup_def forget_port_def\<close>)
      qed
    qed
  qed
qed

lemma RemoveTunnel_port_inv:
  assumes "port_inv sm" "RemoveTunnel os v r (sm, w) = (res, sm', w')"
  shows "port_inv sm'"
proof (rule RemoveTunnel_cases[OF assms(2) assms(1)])
  fix p
  assume gone: "fmlookup (allocatedPorts sm) v = Some p" "same_maps (forget_port v p sm) sm'" "same_setup sm sm'"
  have "port_inv (forget_port v p sm)"
    using assms(1) gone(1) by (rule port_inv_forget)
  moreover have "same_setup (forget_port v p sm) sm'"
    using gone(3) by (simp add: same_setup_def forget_port_def)
  ultimately show ?thesis using gone(2) port_inv_transfer by blast
qed (use assms(1) port_inv_transfer in auto)

section \<open>The allocator interface\<close>

definition tunnel_port :: "stunnel_manager \<times> world \<Rightarrow> string \<Rightarrow> int option" where
  "tunnel_port st v = fmlookup (allocatedPorts (fst st)) v"

definition tunnel_owner :: "stunnel_manager \<times> world \<Rightarrow> int \<Rightarrow> string option" where
  "tunnel_owner st p = fmlookup (portToVolume (fst st)) p"

definition tunnel_valid :: "ensure_os \<times> string \<times> string \<Rightarrow> string \<Rightarrow> bool" where
  "tunnel_valid e v \<longleftrightarrow> v \<noteq> '''' \<and> fst (snd e) \<noteq> ''''"

definition tunnel_ensure ::
  "ensure_os \<times> string \<times> string \<Rightarrow> string \<Rightarrow> stunnel_manager \<times> world \<Rightarrow> (tunnel_error + int) \<times> stunnel_manager \<times> world" where
  "tunnel_ensure e v st = EnsureTunnel (fst e) v (fst (snd e)) (snd (snd e)) st"

definition tunnel_remove ::
  "remove_os \<times> string \<Rightarrow> string \<Rightarrow> stunnel_manager \<times> world \<Rightarrow> (tunnel_error + unit) \<times> stunnel_manager \<times> world" where
  "tunnel_remove r v st = RemoveTunnel (fst r) v (snd r) st"

definition tunnel_invar :: "stunnel_manager \<times> world \<Rightarrow> bool" where
  "tunnel_invar st \<longleftrightarrow> port_inv (fst st)"

lemmas tunnel_defs = tunnel_port_def tunnel_owner_def tunnel_valid_def tunnel_ensure_def
  tunnel_remove_def tunnel_invar_def

lemma RemoveTunnel_other:
  assumes "port_inv sm" "RemoveTunnel os v r (sm, w) = (res, sm', w')" "u \<noteq> v"
  shows "fmlookup (allocatedPorts sm') u = fmlookup (allocatedPorts sm) u"
  by (rule RemoveTunnel_cases[OF assms(2) assms(1)]) (use assms(3) in \<open>auto simp: same_maps_def forget_port_def\<close>)

interpretation tunnel: keyed_allocator tunnel_port tunnel_owner tunnel_valid tunnel_ensure tunnel_remove tunnel_invar
proof unfold_locales
  fix s :: "stunnel_manager \<times> world" and p v
  assume "tunnel_invar s"
  then show "tunnel_owner s p = Some v \<longleftrightarrow> tunnel_port s v = Some p"
    by (simp add: tunnel_defs port_inv_iff)
next
  fix s :: "stunnel_manager \<times> world" and e v
  assume "tunnel_invar s"
  then show "tunnel_invar (snd (tunnel_ensure e v s))"
    by (metis EnsureTunnel_port_inv prod.collapse tunnel_ensure_def tunnel_invar_def)
next
  fix s :: "stunnel_manager \<times> world" and r v
  assume "tunnel_invar s"
  then show "tunnel_invar (snd (tunnel_remove r v s))"
    by (metis RemoveTunnel_port_inv prod.collapse tunnel_remove_def tunnel_invar_def)
next
  fix s :: "stunnel_manager \<times> world" and e v p
  assume "tunnel_valid e v" "tunnel_port s v = Some p"
  then show "tunnel_ensure e v s = (Inr p, s)"
    by (simp add: tunnel_defs EnsureTunnel_def)
next
  fix s s' :: "stunnel_manager \<times> world" and e v p
  assume a: "tunnel_ensure e v s = (Inr p, s')"
  obtain sm w sm' w' where s: "s = (sm, w)" "s' = (sm', w')" by fastforce
  have "EnsureTunnel (fst e) v (fst (snd e)) (snd (snd e)) (sm, w) = (Inr p, sm', w')"
    using a s by (simp add: tunnel_ensure_def)
  then show "tunnel_port s' = (tunnel_port s)(v \<mapsto> p)"
    by (cases rule: EnsureTunnel_cases)
      (auto simp: s fun_eq_iff tunnel_port_def same_maps_def restore_port_def)
next
  fix s s' :: "stunnel_manager \<times> world" and e v p
  assume "tunnel_ensure e v s = (Inr p, s')"
  then show "tunnel_valid e v" by (auto simp: tunnel_defs EnsureTunnel_def split: if_splits)
next
  fix s s' :: "stunnel_manager \<times> world" and e v x
  assume a: "tunnel_ensure e v s = (Inl x, s')"
  obtain sm w sm' w' where s: "s = (sm, w)" "s' = (sm', w')" by fastforce
  have "EnsureTunnel (fst e) v (fst (snd e)) (snd (snd e)) (sm, w) = (Inl x, sm', w')"
    using a s by (simp add: tunnel_ensure_def)
  then show "tunnel_port s' = tunnel_port s"
    by (cases rule: EnsureTunnel_cases) (auto simp: s fun_eq_iff tunnel_port_def same_maps_def)
next
  fix s :: "stunnel_manager \<times> world" and r and u v :: string
  assume "tunnel_invar s" "u \<noteq> v"
  then show "tunnel_port (snd (tunnel_remove r v s)) u = tunnel_port s u"
    by (metis RemoveTunnel_other prod.collapse tunnel_defs(1,5,6) fst_conv snd_conv)
qed

section \<open>Properties\<close>

text \<open>A fresh manager with an empty services directory, and a system on which every call succeeds.\<close>

definition demo_sm :: stunnel_manager where
  "demo_sm = fresh_manager UbuntuCAPath ProductionCheckHost"

definition demo_world :: world where
  "demo_world = \<lparr>files = fmupd DefaultServicesDir Dir fmempty, sighups = []\<rparr>"

definition demo_os :: ensure_os where
  "demo_os = \<lparr>bindable = (\<lambda>_. True), writeResult = WriteOk, runningBefore = True,
     runningAfterWait = True, rollbackRemoveOk = True\<rparr>"

lemma demo_inv: "port_inv demo_sm"
  by (simp add: demo_sm_def port_inv_fresh)

lemma demo_find: "findAvailablePort (bindable demo_os) demo_sm = Inr 11300"
  by (simp add: findAvailablePort_Inr demo_os_def demo_sm_def fresh_manager_def InitialPort_def PortRange_def)

lemma demo_sels [simp]:
  "allocatedPorts demo_sm = fmempty" "portToVolume demo_sm = fmempty" "\<not> stunnelStarted demo_sm"
  "servicesDir demo_sm = DefaultServicesDir" "initialPort demo_sm = 11300" "portRange demo_sm = 300"
  "bindable demo_os = (\<lambda>_. True)" "writeResult demo_os = WriteOk" "runningBefore demo_os" "rollbackRemoveOk demo_os"
  by (simp_all add: demo_sm_def demo_os_def fresh_manager_def InitialPort_def PortRange_def)

lemma demo_ensure_of:
  assumes "v \<noteq> []" "srv \<noteq> []"
  obtains sm w where "EnsureTunnel demo_os v srv r (demo_sm, demo_world) = (Inr 11300, sm, w)"
  using assms demo_find by (auto simp: EnsureTunnel_def ensure_locked_def Let_def writeTunnelConfig_def)

lemma demo_ensure: "\<exists>sm w. EnsureTunnel demo_os ''v1'' ''10.0.0.1'' ''r'' (demo_sm, demo_world) = (Inr 11300, sm, w)"
  using demo_ensure_of[of "''v1''" "''10.0.0.1''"] by blast

text \<open>The port search returns the lowest port of the configured range that no volume holds and
  that can be bound; it fails only when every port of the range is held or cannot be bound.\<close>

lemma findAvailablePort_spec:
  "case findAvailablePort avail sm of
     Inr p \<Rightarrow> initialPort sm \<le> p \<and> p < initialPort sm + portRange sm \<and>
       fmlookup (portToVolume sm) p = None \<and> avail p \<and>
       (\<nexists>q. initialPort sm \<le> q \<and> q < p \<and> fmlookup (portToVolume sm) q = None \<and> avail q)
   | Inl e \<Rightarrow> e = NoAvailablePorts (initialPort sm) (initialPort sm + portRange sm - 1) \<and>
       (\<nexists>q. initialPort sm \<le> q \<and> q < initialPort sm + portRange sm \<and>
            fmlookup (portToVolume sm) q = None \<and> avail q)"
proof (cases "findAvailablePort avail sm")
  case (Inr p)
  then show ?thesis using findAvailablePort_Inr[of avail sm p] by auto
next
  case (Inl e)
  then have "find_port avail (portToVolume sm) (initialPort sm) (nat (portRange sm)) = None"
    "e = NoAvailablePorts (initialPort sm) (initialPort sm + portRange sm - 1)"
    by (auto simp: findAvailablePort_def Let_def split: option.splits)
  then show ?thesis using Inl by (auto simp: find_port_None)
qed

text \<open>What a successful \<open>EnsureTunnel\<close> did to the port search and to the disk.\<close>

lemma EnsureTunnel_disk:
  assumes "EnsureTunnel os v srv r (sm, w) = (Inr p, sm', w')"
  shows "case fmlookup (allocatedPorts sm) v of
       Some q \<Rightarrow> p = q \<and> sm' = sm \<and> w' = w
     | None \<Rightarrow> fmlookup (portToVolume sm) p = None \<and> bindable os p \<and>
         (\<nexists>q. initialPort sm \<le> q \<and> q < p \<and> fmlookup (portToVolume sm) q = None \<and> bindable os q) \<and>
         fmlookup (files w') (config_path sm v) = Some (File (buildTunnelConfig sm v srv p)) \<and>
         (\<forall>f. f \<noteq> config_path sm v \<longrightarrow> fmlookup (files w') f = fmlookup (files w) f)"
  using assms by (cases rule: EnsureTunnel_cases) (auto simp: findAvailablePort_Inr)

text \<open>C23: when EnsureTunnel returns a port, the volume holds it (GetTunnelPort reports it), the port is in the
  configured range, no other volume holds it, and no other volume's port changed. On disk: if the volume had no port
  before, the port is the lowest one of the range that is free and can be bound, and exactly one file changed, the
  volume's own service file, which now holds the tunnel configuration for this server and this port; if it had one,
  nothing changed anywhere. Asking again, on whatever system, returns the same port and changes nothing.\<close>

theorem EnsureTunnel_ok:
  assumes "port_inv sm" "EnsureTunnel os v srv r (sm, w) = (Inr p, sm', w')"
  shows "GetTunnelPort sm' v = (p, True) \<and>
    initialPort sm \<le> p \<and> p < initialPort sm + portRange sm \<and>
    (\<forall>u. u \<noteq> v \<longrightarrow> fmlookup (allocatedPorts sm') u = fmlookup (allocatedPorts sm) u \<and>
                    fmlookup (allocatedPorts sm') u \<noteq> Some p) \<and>
    (case fmlookup (allocatedPorts sm) v of
       Some q \<Rightarrow> p = q \<and> sm' = sm \<and> w' = w
     | None \<Rightarrow> fmlookup (portToVolume sm) p = None \<and> bindable os p \<and>
         (\<nexists>q. initialPort sm \<le> q \<and> q < p \<and> fmlookup (portToVolume sm) q = None \<and> bindable os q) \<and>
         fmlookup (files w') (config_path sm v) = Some (File (buildTunnelConfig sm v srv p)) \<and>
         (\<forall>f. f \<noteq> config_path sm v \<longrightarrow> fmlookup (files w') f = fmlookup (files w) f)) \<and>
    EnsureTunnel os' v srv r' (sm', w') = (Inr p, sm', w')"
proof -
  let ?e = "(os, srv, r)"
  have ens: "tunnel_ensure ?e v (sm, w) = (Inr p, (sm', w'))" and inv: "tunnel_invar (sm, w)"
    using assms by (simp_all add: tunnel_defs)
  have v: "v \<noteq> ''''" "srv \<noteq> ''''"
    using tunnel.ensure_valid[OF ens] by (simp_all add: tunnel_valid_def)
  have inv': "port_inv sm'" using assms by (rule EnsureTunnel_port_inv)
  have port: "tunnel_port (sm', w') = (tunnel_port (sm, w))(v \<mapsto> p)"
    using inv ens by (rule tunnel.ensure_ok)
  then have here: "fmlookup (allocatedPorts sm') v = Some p" by (simp add: tunnel_port_def fun_eq_iff)
  have ranges: "initialPort sm' = initialPort sm" "portRange sm' = portRange sm"
    using assms(2) by (cases rule: EnsureTunnel_cases; simp add: same_setup_def)+
  have "EnsureTunnel os' v srv r' (sm', w') = (Inr p, sm', w')"
    using tunnel.ensure_again[OF inv ens, of "(os', srv, r')"] v by (simp add: tunnel_defs)
  moreover have "fmlookup (allocatedPorts sm') u \<noteq> Some p" if "u \<noteq> v" for u
    using that here tunnel.not_shared[of "(sm', w')" v p u] inv' by (auto simp: tunnel_defs)
  ultimately show ?thesis
    using here v port ranges port_inv_range[OF inv' here] EnsureTunnel_disk[OF assms(2)]
    by (auto simp: GetTunnelPort_def tunnel_port_def fun_eq_iff)
qed

theorem EnsureTunnel_ok_witness:
  "\<exists>sm w. EnsureTunnel demo_os ''v1'' ''10.0.0.1'' ''r'' (demo_sm, demo_world) = (Inr 11300, sm, w) \<and>
     GetTunnelPort sm ''v1'' = (11300, True) \<and>
     fmlookup (files w) (config_path demo_sm ''v1'') = Some (File (buildTunnelConfig demo_sm ''v1'' ''10.0.0.1'' 11300))"
proof -
  obtain sm w where e: "EnsureTunnel demo_os ''v1'' ''10.0.0.1'' ''r'' (demo_sm, demo_world) = (Inr 11300, sm, w)"
    using demo_ensure by blast
  then show ?thesis using EnsureTunnel_ok[OF demo_inv e] by simp
qed

text \<open>An EnsureTunnel that fails, at whatever point (bad argument, no port, write error, stunnel not running
  after the wait), leaves both port maps as they were and sends no signal.\<close>

lemma EnsureTunnel_error:
  assumes "EnsureTunnel os v srv r (sm, w) = (Inl e, sm', w')"
  shows "allocatedPorts sm' = allocatedPorts sm \<and> portToVolume sm' = portToVolume sm \<and>
    sighups w' = sighups w"
  using assms by (cases rule: EnsureTunnel_cases) (auto simp: same_maps_def)

lemma EnsureTunnel_error_example:
  "\<exists>sm w. EnsureTunnel (demo_os\<lparr>runningBefore := False, runningAfterWait := False\<rparr>) ''v1'' ''10.0.0.1'' ''r''
      (demo_sm, demo_world) = (Inl StunnelNotRunning, sm, w) \<and> allocatedPorts sm = fmempty"
proof -
  let ?os = "demo_os\<lparr>runningBefore := False, runningAfterWait := False\<rparr>"
  have "findAvailablePort (bindable ?os) demo_sm = Inr 11300" using demo_find by simp
  then have "\<exists>sm w. EnsureTunnel ?os ''v1'' ''10.0.0.1'' ''r'' (demo_sm, demo_world) = (Inl StunnelNotRunning, sm, w)"
    by (simp add: EnsureTunnel_def ensure_locked_def Let_def writeTunnelConfig_def)
  then show ?thesis using EnsureTunnel_error demo_sels(1) by metis
qed

text \<open>C24: RemoveTunnel on a volume whose port no mount uses: on success the volume has no port, its port is free
  again, its service file is gone, and no other volume or file is touched; on failure both maps and all files are
  as before the call.\<close>

theorem RemoveTunnel_spec:
  assumes "port_inv sm" "v \<noteq> ''''" "fmlookup (allocatedPorts sm) v = Some p"
    "\<not> isTunnelPortInUse (procMounts os) p" "RemoveTunnel os v r (sm, w) = (res, sm', w')"
  shows "case res of
      Inr _ \<Rightarrow> allocatedPorts sm' = fmdrop v (allocatedPorts sm) \<and>
        portToVolume sm' = fmdrop p (portToVolume sm) \<and>
        fmlookup (files w') (config_path sm v) = None \<and>
        (\<forall>q. q \<noteq> config_path sm v \<longrightarrow> fmlookup (files w') q = fmlookup (files w) q)
    | Inl _ \<Rightarrow> allocatedPorts sm' = allocatedPorts sm \<and> portToVolume sm' = portToVolume sm \<and>
        files w' = files w"
  by (rule RemoveTunnel_cases[OF assms(5) assms(1)]) (use assms(2-4) in \<open>auto simp: same_maps_def forget_port_def\<close>)

definition demo_rm :: remove_os where
  "demo_rm = \<lparr>procMounts = Some [], pgrep = PgrepOutput ''42'', kill = (\<lambda>_. KillOk), removeOk = True\<rparr>"

definition demo_one :: stunnel_manager where
  "demo_one = restore_port ''v1'' 11300 demo_sm"

lemma demo_one_inv: "port_inv demo_one"
  unfolding demo_one_def by (rule port_inv_restore[OF demo_inv]) simp_all

lemma not_in_use_empty: "\<not> isTunnelPortInUse (Some []) p"
  by (simp add: isTunnelPortInUse_def scan_lines_def)

theorem RemoveTunnel_spec_witness:
  "\<exists>res sm w. RemoveTunnel demo_rm ''v1'' ''r'' (demo_one, demo_world) = (res, sm, w) \<and>
     (res = Inr () \<longrightarrow> allocatedPorts sm = fmdrop ''v1'' (allocatedPorts demo_one))"
proof -
  obtain res sm w where r: "RemoveTunnel demo_rm ''v1'' ''r'' (demo_one, demo_world) = (res, sm, w)"
    by (metis prod.exhaust)
  have "fmlookup (allocatedPorts demo_one) ''v1'' = Some 11300" by (simp add: demo_one_def restore_port_def)
  moreover have "\<not> isTunnelPortInUse (procMounts demo_rm) 11300" by (simp add: demo_rm_def not_in_use_empty)
  ultimately show ?thesis using RemoveTunnel_spec[OF demo_one_inv _ _ _ r, of 11300] r
    by (auto split: sum.splits)
qed

text \<open>RemoveTunnel changes nothing and reports success when the volume has no tunnel or when a mount still uses
  its port; so a second RemoveTunnel after a successful one is a no-op.\<close>

lemma RemoveTunnel_idle:
  assumes "v \<noteq> ''''"
    "\<And>p. fmlookup (allocatedPorts sm) v = Some p \<Longrightarrow> isTunnelPortInUse (procMounts os) p"
  shows "RemoveTunnel os v r (sm, w) = (Inr (), sm, w)"
  using assms by (auto simp: RemoveTunnel_def split: option.splits)

lemma RemoveTunnel_idle_example:
  "RemoveTunnel demo_rm ''v1'' ''r'' (demo_sm, demo_world) = (Inr (), demo_sm, demo_world)"
  by (rule RemoveTunnel_idle) simp_all

text \<open>No operation changes the configuration of the manager, so the range stays that of the start.\<close>

lemma tunnel_step_setup:
  assumes "port_inv (fst st)"
  shows "same_setup (fst st) (fst (alloc_step tunnel_ensure tunnel_remove x st))"
proof (cases st)
  case (Pair sm w)
  show ?thesis
  proof (cases x)
    case (Ensure e v)
    obtain res sm' w' where E: "EnsureTunnel (fst e) v (fst (snd e)) (snd (snd e)) (sm, w) = (res, sm', w')"
      by (metis prod.exhaust)
    then have "same_setup sm sm'" by (cases rule: EnsureTunnel_cases) simp_all
    then show ?thesis using E Ensure Pair by (simp add: tunnel_ensure_def)
  next
    case (Remove e v)
    obtain res sm' w' where R: "RemoveTunnel (fst e) v (snd e) (sm, w) = (res, sm', w')"
      by (metis prod.exhaust)
    have "port_inv sm" using assms Pair by simp
    then have "same_setup sm sm'" by (rule RemoveTunnel_cases[OF R]) simp_all
    then show ?thesis using R Remove Pair by (simp add: tunnel_remove_def)
  qed
qed

lemma tunnel_run_setup:
  "port_inv (fst st) \<Longrightarrow> same_setup (fst st) (fst (alloc_run tunnel_ensure tunnel_remove ops st))"
proof (induction ops arbitrary: st)
  case (Cons x ops)
  let ?st = "alloc_step tunnel_ensure tunnel_remove x st"
  have "port_inv (fst ?st)" using tunnel.step_invar[of st x] Cons.prems by (simp add: tunnel_invar_def)
  then have "same_setup (fst ?st) (fst (alloc_run tunnel_ensure tunnel_remove ops ?st))" by (rule Cons.IH)
  moreover have "same_setup (fst st) (fst ?st)" using Cons.prems by (rule tunnel_step_setup)
  ultimately show ?case by (simp add: same_setup_def)
qed simp

text \<open>C1: from any manager that satisfies the invariant, after any sequence of EnsureTunnel and RemoveTunnel calls
  with any outcomes of the system calls, every port a volume holds is in the range the manager was configured with,
  two different volumes never hold the same port, and at most portRange volumes hold one.\<close>

theorem tunnels_never_share:
  assumes "port_inv (fst st)"
  shows "let sm' = fst (alloc_run tunnel_ensure tunnel_remove ops st)
    in (\<forall>v p. fmlookup (allocatedPorts sm') v = Some p \<longrightarrow>
          initialPort (fst st) \<le> p \<and> p < initialPort (fst st) + portRange (fst st)) \<and>
       (\<forall>u v p. fmlookup (allocatedPorts sm') u = Some p \<longrightarrow> fmlookup (allocatedPorts sm') v = Some p \<longrightarrow> u = v) \<and>
       fcard (fmdom (allocatedPorts sm')) \<le> nat (portRange (fst st))"
proof -
  let ?st = "alloc_run tunnel_ensure tunnel_remove ops st"
  have inv: "tunnel_invar ?st" using assms by (intro tunnel.run_invar) (simp add: tunnel_invar_def)
  then have pinv: "port_inv (fst ?st)" by (simp add: tunnel_invar_def)
  have range: "initialPort (fst ?st) = initialPort (fst st)" "portRange (fst ?st) = portRange (fst st)"
    using tunnel_run_setup[OF assms] by (simp_all add: same_setup_def)
  have "u = v" if "fmlookup (allocatedPorts (fst ?st)) u = Some p" "fmlookup (allocatedPorts (fst ?st)) v = Some p" for u v p
    using tunnel.not_shared[of ?st u p v] inv that by (simp add: tunnel_port_def)
  then show ?thesis using port_inv_card[OF pinv] port_inv_range[OF pinv] range by (auto simp: Let_def)
qed

text \<open>Two volumes asked for in a row on a system on which every call succeeds.\<close>

lemma ensure_demo:
  assumes "v \<noteq> ''''" "srv \<noteq> ''''" "fmlookup (allocatedPorts sm) v = None"
    "findAvailablePort (bindable demo_os) sm = Inr p"
  shows "tunnel_ensure (demo_os, srv, r) v (sm, w) =
    (Inr p, scheduleDebouncedSIGHUP r ((restore_port v p sm)\<lparr>stunnelStarted := True\<rparr>),
     w\<lparr>files := fmupd (config_path sm v) (File (buildTunnelConfig sm v srv p)) (files w)\<rparr>)"
  using assms ensure_locked_new[of sm v demo_os p srv r w] by (simp add: tunnel_ensure_def EnsureTunnel_def)

lemma demo_two_tunnels:
  "let sm' = fst (alloc_run tunnel_ensure tunnel_remove
      [Ensure (demo_os, ''10.0.0.1'', ''r'') ''v1'', Ensure (demo_os, ''10.0.0.2'', ''r'') ''v2'']
      (demo_sm, demo_world))
   in fmlookup (allocatedPorts sm') ''v1'' = Some 11300 \<and> fmlookup (allocatedPorts sm') ''v2'' = Some 11301"
proof -
  let ?sm1 = "scheduleDebouncedSIGHUP ''r'' ((restore_port ''v1'' 11300 demo_sm)\<lparr>stunnelStarted := True\<rparr>)"
  have "findAvailablePort (bindable demo_os) ?sm1 = Inr 11301"
    by (simp add: findAvailablePort_Inr schedule_sels)
  then show ?thesis
    using demo_find by (simp add: Let_def ensure_demo schedule_sels)
qed

theorem tunnels_never_share_witness:
  "let sm' = fst (alloc_run tunnel_ensure tunnel_remove
      [Ensure (demo_os, ''10.0.0.1'', ''r'') ''v1'', Ensure (demo_os, ''10.0.0.2'', ''r'') ''v2'']
      (demo_sm, demo_world))
   in \<exists>p q. fmlookup (allocatedPorts sm') ''v1'' = Some p \<and> fmlookup (allocatedPorts sm') ''v2'' = Some q \<and>
        p \<noteq> q \<and> 11300 \<le> p \<and> p < 11600 \<and> 11300 \<le> q \<and> q < 11600"
  using demo_two_tunnels demo_inv
    tunnels_never_share[of "(demo_sm, demo_world)"
      "[Ensure (demo_os, ''10.0.0.1'', ''r'') ''v1'', Ensure (demo_os, ''10.0.0.2'', ''r'') ''v2'']"]
  by (simp add: Let_def del: alloc_run.simps)

text \<open>A volume keeps its port through any sequence of operations of other volumes and of further EnsureTunnel
  calls of its own, whatever the system calls answer, until RemoveTunnel is called for it: a mount through the
  tunnel is never redirected.\<close>

lemma port_is_sticky:
  assumes "port_inv sm" "fmlookup (allocatedPorts sm) v = Some p" "\<forall>x\<in>set ops. \<not> removes v x"
  shows "fmlookup (allocatedPorts (fst (alloc_run tunnel_ensure tunnel_remove ops (sm, w)))) v = Some p"
  using tunnel.run_keeps[of "(sm, w)" ops v p] assms by (simp add: tunnel_defs)

lemma port_is_sticky_example:
  "fmlookup (allocatedPorts (fst (alloc_run tunnel_ensure tunnel_remove
      [Ensure (demo_os, ''10.0.0.2'', ''r'') ''v2'', Remove (demo_rm, ''r'') ''v2'']
      (demo_one, demo_world)))) ''v1'' = Some 11300"
  by (rule port_is_sticky[OF demo_one_inv]) (simp_all add: demo_one_def restore_port_def removes_def)

section \<open>Mount lines\<close>

text \<open>IsTunnelPortInUse has no false negatives on a readable mount table: if some line (all lines up to it fit the
  scanner) is an nfs4 mount of 127.0.0.1 with the option port=N, port N counts as in use; and when the table cannot
  be read the port counts as in use.\<close>

lemma isTunnelPortInUse_sound:
  assumes "l \<in> set (takeWhile (\<lambda>l. length l \<le> max_line) (raw_lines data))" "l = [] \<or> last l \<noteq> CHR 0x0D"
    "l = a1 @ ''nfs4'' @ b1" "l = a2 @ ''127.0.0.1:'' @ b2" "l = a3 @ ''port='' @ Itoa p @ b3"
  shows "isTunnelPortInUse (Some data) p \<and> isTunnelPortInUse None p"
proof -
  have "Contains l ''nfs4''" unfolding assms(3) by (rule Contains_append)
  moreover have "Contains l ''127.0.0.1:''" unfolding assms(4) by (rule Contains_append)
  moreover have "Contains l (''port='' @ Itoa p)"
    unfolding assms(5) using Contains_append[of a3 "''port='' @ Itoa p" b3] by simp
  ultimately have "mount_uses_port p l" by (simp add: mount_uses_port_def)
  moreover have "l \<in> set (scan_lines data)"
    using assms(1,2) unfolding scan_lines_def by (force simp: dropCR_id)
  ultimately have "filter (mount_uses_port p) (scan_lines data) \<noteq> []" by (auto simp: filter_empty_conv)
  then show ?thesis by (simp add: isTunnelPortInUse_def)
qed

lemma isTunnelPortInUse_sound_example:
  "isTunnelPortInUse (Some ''127.0.0.1:/x /m nfs4 rw,port=11300 0 0'') 11300"
proof -
  let ?l = "''127.0.0.1:/x /m nfs4 rw,port=11300 0 0''"
  have raw: "raw_lines ?l = [?l]" by code_simp
  have itoa: "Itoa 11300 = ''11300''" by (simp add: Itoa_def digits_of.simps digit_char_def char_of_def bit_0)
  show ?thesis
  proof (rule isTunnelPortInUse_sound[THEN conjunct1])
    show "?l \<in> set (takeWhile (\<lambda>l. length l \<le> max_line) (raw_lines ?l))"
      unfolding raw by (simp add: max_line_def)
    show "?l = ''127.0.0.1:/x /m '' @ ''nfs4'' @ '' rw,port=11300 0 0''" by simp
    show "?l = '''' @ ''127.0.0.1:'' @ ''/x /m nfs4 rw,port=11300 0 0''" by simp
    show "?l = ''127.0.0.1:/x /m nfs4 rw,'' @ ''port='' @ Itoa 11300 @ '' 0 0''" unfolding itoa by simp
  qed simp
qed

section \<open>Debouncing\<close>

text \<open>A pgrep answer that names exactly one process.\<close>

lemma reload_one:
  assumes "Contains (TrimSpace out) [newline] = False" "Atoi (TrimSpace out) = Some pid" "kl pid = KillOk"
  shows "reloadStunnel (PgrepOutput out) kl w = (Inr (), w\<lparr>sighups := sighups w @ [pid]\<rparr>)"
proof -
  have "TrimSpace out \<noteq> []" using assms(2) by (auto simp: Atoi_def ParseInt_def)
  then show ?thesis using assms by (simp add: reloadStunnel_def Let_def)
qed

text \<open>However many times a reload is scheduled within one debounce window, stunnel gets exactly one SIGHUP when
  the window passes, and none when it passes again.\<close>

lemma debounce_coalesces:
  assumes "reqs \<noteq> []" "\<not> Contains (TrimSpace out) [newline]" "Atoi (TrimSpace out) = Some pid" "kl pid = KillOk"
  shows "let st' = debounce_expire (PgrepOutput out) kl (fold scheduleDebouncedSIGHUP reqs sm, w)
    in sighups (snd st') = sighups w @ [pid] \<and> debounce_expire pg' kl' st' = st'"
proof -
  have "pendingSIGHUP (fold scheduleDebouncedSIGHUP reqs sm) \<and>
      (\<exists>r. debounceTimer (fold scheduleDebouncedSIGHUP reqs sm) = Some \<lparr>armed = True, timerReq = r\<rparr>)"
    using assms(1) by (induction reqs rule: rev_induct) (auto simp: scheduleDebouncedSIGHUP_def)
  then show ?thesis
    using reload_one[of out pid kl w] assms(2-4)
    by (auto simp: debounce_expire_def debounce_callback_def Let_def)
qed

lemma debounce_coalesces_example:
  "sighups (snd (debounce_expire (PgrepOutput ''42'') (\<lambda>_. KillOk)
     (fold scheduleDebouncedSIGHUP [''r1'', ''r2'', ''r3''] demo_sm, demo_world))) = [42]"
proof -
  have t: "TrimSpace ''42'' = ''42''" by code_simp
  have "Atoi ''42'' = Some 42" by code_simp
  then show ?thesis
    using debounce_coalesces[of "[''r1'', ''r2'', ''r3'']" "''42''" 42 "\<lambda>_. KillOk" demo_sm demo_world]
    by (simp add: t Let_def demo_world_def newline_def)
qed

text \<open>ReloadStunnel signals at most one process per call; when pgrep finds several stunnel processes, or none, it
  signals nothing and reports an error.\<close>

lemma reloadStunnel_signals_one:
  "let (res, w') = reloadStunnel pg kl w
   in (sighups w' = sighups w \<or> (\<exists>pid. sighups w' = sighups w @ [pid] \<and> kl pid = KillOk)) \<and> files w' = files w \<and>
      ((\<exists>out. pg = PgrepOutput out \<and> (TrimSpace out = [] \<or> newline \<in> set (TrimSpace out))) \<longrightarrow>
         sighups w' = sighups w \<and> res \<noteq> Inr ())"
  by (auto simp: reloadStunnel_def Let_def Contains_char split: pgrep_result.splits option.splits kill_result.splits)

lemma reloadStunnel_signals_one_example:
  "let (res, w') = reloadStunnel (PgrepOutput [CHR ''4'', newline, CHR ''5'']) (\<lambda>_. KillOk) demo_world
   in sighups w' = [] \<and> res \<noteq> Inr ()"
proof -
  have "TrimSpace [CHR ''4'', newline, CHR ''5''] = [CHR ''4'', newline, CHR ''5'']"
    by code_simp
  then show ?thesis
    using reloadStunnel_signals_one[of "PgrepOutput [CHR ''4'', newline, CHR ''5'']" "\<lambda>_. KillOk" demo_world]
    by (auto simp: demo_world_def split: prod.splits)
qed

section \<open>Availability\<close>

text \<open>C39: when EnsureTunnel answers with a port. For a named volume and server it returns a port exactly when the
  volume already has one, or when some port of the range is held by no volume and can be bound, the service file can
  be written, and stunnel was seen running before, runs now or comes up during the wait. In particular a tunnel is
  never refused for lack of a port while a single port of the range is free.\<close>

theorem EnsureTunnel_available:
  "(\<exists>p sm' w'. EnsureTunnel os v srv r (sm, w) = (Inr p, sm', w')) \<longleftrightarrow>
     v \<noteq> '''' \<and> srv \<noteq> '''' \<and>
     ((\<exists>p. fmlookup (allocatedPorts sm) v = Some p) \<or>
      (\<exists>q. initialPort sm \<le> q \<and> q < initialPort sm + portRange sm \<and>
           fmlookup (portToVolume sm) q = None \<and> bindable os q) \<and>
      writeResult os = WriteOk \<and> (stunnelStarted sm \<or> runningBefore os \<or> runningAfterWait os))"
    (is "?returns \<longleftrightarrow> v \<noteq> '''' \<and> srv \<noteq> '''' \<and> (?held \<or> ?room \<and> ?write \<and> ?runs)")
proof (cases "v = '''' \<or> srv = '''' \<or> ?held")
  case True
  then show ?thesis by (auto simp: EnsureTunnel_def)
next
  case False
  then have ens: "EnsureTunnel os v srv r (sm, w) = ensure_locked os v srv r (sm, w)"
    by (auto simp: EnsureTunnel_def)
  have none: "fmlookup (allocatedPorts sm) v = None" using False by (cases "fmlookup (allocatedPorts sm) v") auto
  show ?thesis
  proof (cases "findAvailablePort (bindable os) sm")
    case (Inl e)
    then have "\<not> ?returns" using ens none by (simp add: ensure_locked_def)
    moreover have "\<not> ?room" using findAvailablePort_spec[of sm "bindable os"] Inl by auto
    ultimately show ?thesis using False by blast
  next
    case (Inr p)
    then have "?returns \<longleftrightarrow> ?write \<and> ?runs"
      using ens none by (auto simp: ensure_locked_def writeTunnelConfig_def Let_def split: write_result.splits option.splits)
    moreover have ?room using findAvailablePort_spec[of sm "bindable os"] Inr by auto
    ultimately show ?thesis using False by blast
  qed
qed

theorem EnsureTunnel_available_witness:
  "(\<exists>p sm' w'. EnsureTunnel (demo_os\<lparr>bindable := (\<lambda>q. q = 11599)\<rparr>) ''v2'' ''10.0.0.2'' ''r'' (demo_one, demo_world) = (Inr p, sm', w')) \<and>
   (\<nexists>p sm' w'. EnsureTunnel (demo_os\<lparr>bindable := (\<lambda>q. q = 11300)\<rparr>) ''v2'' ''10.0.0.2'' ''r'' (demo_one, demo_world) = (Inr p, sm', w'))"
  unfolding EnsureTunnel_available by (auto simp: demo_one_def restore_port_def)

end
