(* ===== verification/Stunnel_Conc.thy ===== *)
theory Stunnel_Conc
  imports Stunnel_Inv
begin

text \<open>
  Concurrent calls of the stunnel manager. \<open>EnsureTunnel\<close> reads the map under a read lock and, on a
  miss, runs the rest under the write lock; \<open>RemoveTunnel\<close> forgets the port under the write lock,
  releases it, signals stunnel and unlinks the file without a lock, and takes the lock again only
  to roll back after a failure. Each critical section is one step; between the steps of one call
  other calls may run.
\<close>

section \<open>Steps\<close>

datatype pc =
    Idle
  | EnsureWaiting string string string
  | EnsureReturned string "tunnel_error + int"
  | RemoveLast string int string
  | RemoveUnlink string int string bool
  | RemoveRollback string int tunnel_error
  | RemoveReturned "tunnel_error + unit"

record conc =
  mgr :: stunnel_manager
  env :: world
  threads :: "nat \<Rightarrow> pc"

definition goto :: "nat \<Rightarrow> pc \<Rightarrow> conc \<Rightarrow> conc" where
  "goto t c s = s\<lparr>threads := (threads s)(t := c)\<rparr>"

definition conc_init :: "stunnel_manager \<Rightarrow> world \<Rightarrow> conc" where
  "conc_init sm w = \<lparr>mgr = sm, env = w, threads = (\<lambda>_. Idle)\<rparr>"

inductive conc_step :: "conc \<Rightarrow> conc \<Rightarrow> bool" where
  ensure_hit: "threads s t = Idle \<Longrightarrow> v \<noteq> '''' \<Longrightarrow> (srv :: string) \<noteq> '''' \<Longrightarrow>
     fmlookup (allocatedPorts (mgr s)) v = Some p \<Longrightarrow>
     conc_step s (goto t (EnsureReturned v (Inr p)) s)"
| ensure_miss: "threads s t = Idle \<Longrightarrow> v \<noteq> '''' \<Longrightarrow> srv \<noteq> '''' \<Longrightarrow>
     fmlookup (allocatedPorts (mgr s)) v = None \<Longrightarrow>
     conc_step s (goto t (EnsureWaiting v srv r) s)"
| ensure_slow: "threads s t = EnsureWaiting v srv r \<Longrightarrow>
     ensure_locked os v srv r (mgr s, env s) = (res, sm', w') \<Longrightarrow>
     conc_step s (goto t (EnsureReturned v res) (s\<lparr>mgr := sm', env := w'\<rparr>))"
| remove_idle: "threads s t = Idle \<Longrightarrow> v \<noteq> '''' \<Longrightarrow>
     fmlookup (allocatedPorts (mgr s)) v = None \<or>
       (\<exists>p. fmlookup (allocatedPorts (mgr s)) v = Some p \<and> isTunnelPortInUse mounts p) \<Longrightarrow>
     conc_step s (goto t (RemoveReturned (Inr ())) s)"
| remove_forget: "threads s t = Idle \<Longrightarrow> v \<noteq> '''' \<Longrightarrow>
     fmlookup (allocatedPorts (mgr s)) v = Some p \<Longrightarrow> \<not> isTunnelPortInUse mounts p \<Longrightarrow>
     conc_step s
       (goto t (if fcard (fmdom (allocatedPorts (mgr s))) = 1 then RemoveLast v p r
                else RemoveUnlink v p r False)
         (s\<lparr>mgr := forget_port v p (mgr s)\<rparr>))"
| remove_last: "threads s t = RemoveLast v p r \<Longrightarrow>
     handleLastTunnelCleanup os (mgr s, env s) = (res, sm', w') \<Longrightarrow>
     conc_step s
       (goto t (case res of Inl e \<Rightarrow> RemoveRollback v p e | Inr _ \<Rightarrow> RemoveUnlink v p r True)
         (s\<lparr>mgr := sm', env := w'\<rparr>))"
| remove_unlink: "threads s t = RemoveUnlink v p r isLast \<Longrightarrow>
     remove_path ok (config_path (mgr s) v) (files (env s)) = (res, fs') \<Longrightarrow>
     conc_step s
       (if res = RmError
        then goto t (RemoveRollback v p RemoveConfigFailed) (s\<lparr>env := (env s)\<lparr>files := fs'\<rparr>\<rparr>)
        else goto t (RemoveReturned (Inr ()))
          (s\<lparr>mgr := (if isLast then mgr s else scheduleDebouncedSIGHUP r (mgr s)),
             env := (env s)\<lparr>files := fs'\<rparr>\<rparr>))"
| remove_rollback: "threads s t = RemoveRollback v p e \<Longrightarrow>
     conc_step s (goto t (RemoveReturned (Inl e)) (s\<lparr>mgr := restore_port v p (mgr s)\<rparr>))"
| debounce: "debounce_expire pg kl (mgr s, env s) = (sm', w') \<Longrightarrow>
     conc_step s (s\<lparr>mgr := sm', env := w'\<rparr>)"
| return: "threads s t = EnsureReturned v res \<or> threads s t = RemoveReturned rres \<Longrightarrow>
     conc_step s (goto t Idle s)"

inductive conc_reach :: "conc \<Rightarrow> conc \<Rightarrow> bool" where
  refl: "conc_reach s s"
| step: "conc_reach s t \<Longrightarrow> conc_step t u \<Longrightarrow> conc_reach s u"

fun rolling_back :: "pc \<Rightarrow> bool" where
  "rolling_back (RemoveRollback v p e) = True"
| "rolling_back _ = False"

text \<open>Runs in which no removal fails: no call ever has to roll back.\<close>

inductive calm_reach :: "conc \<Rightarrow> conc \<Rightarrow> bool" where
  calm_refl: "calm_reach s s"
| calm_step: "calm_reach s t \<Longrightarrow> conc_step t u \<Longrightarrow> (\<And>i. \<not> rolling_back (threads u i)) \<Longrightarrow> calm_reach s u"

section \<open>Invariant\<close>

lemma goto_simps [simp]:
  "mgr (goto t c s) = mgr s" "env (goto t c s) = env s"
  "threads (goto t c s) i = (if i = t then c else threads s i)"
  by (simp_all add: goto_def)

lemma debounce_expire_frame:
  "debounce_expire pg kl (sm, w) = (sm', w') \<Longrightarrow> same_maps sm sm' \<and> same_setup sm sm' \<and> files w' = files w"
  by (auto simp: debounce_expire_def debounce_callback_def reloadStunnel_def Let_def same_maps_def same_setup_def
      split: option.splits if_splits pgrep_result.splits kill_result.splits)

lemma ensure_locked_port_inv:
  assumes "port_inv sm" "ensure_locked os v srv r (sm, w) = (res, sm', w')" "v \<noteq> ''''" "srv \<noteq> ''''"
  shows "port_inv sm'"
proof (cases "fmlookup (allocatedPorts sm) v")
  case None
  then have "EnsureTunnel os v srv r (sm, w) = (res, sm', w')"
    using assms(2-4) by (simp add: EnsureTunnel_def)
  then show ?thesis using assms(1) EnsureTunnel_port_inv by blast
next
  case (Some p)
  then show ?thesis using assms(1,2) by (simp add: ensure_locked_def)
qed

text \<open>Waiting calls were made with non-empty arguments.\<close>

definition calls_ok :: "conc \<Rightarrow> bool" where
  "calls_ok s \<longleftrightarrow> (\<forall>t v srv r. threads s t = EnsureWaiting v srv r \<longrightarrow> v \<noteq> '''' \<and> srv \<noteq> '''')"

lemma conc_step_calls_ok: "conc_step s u \<Longrightarrow> calls_ok s \<Longrightarrow> calls_ok u"
  by (induction rule: conc_step.induct) (auto simp: calls_ok_def split: if_splits sum.splits)

lemma conc_step_port_inv:
  assumes "conc_step s u" "port_inv (mgr s)" "calls_ok s" "\<And>i. \<not> rolling_back (threads s i)"
  shows "port_inv (mgr u)"
  using assms
proof (induction rule: conc_step.induct)
  case (ensure_slow s t v srv r os res sm' w')
  then have "v \<noteq> ''''" "srv \<noteq> ''''" by (auto simp: calls_ok_def)
  then show ?case using ensure_slow ensure_locked_port_inv by simp
next
  case (remove_forget s t v p mounts r)
  then show ?case using port_inv_forget by simp
next
  case (remove_last s t v p r os res sm' w')
  then show ?case using handleLast_frame port_inv_transfer by fastforce
next
  case (remove_unlink s t v p r isLast ok res fs')
  then show ?case
    using port_inv_transfer[of "mgr s" "scheduleDebouncedSIGHUP r (mgr s)"] by simp
next
  case (remove_rollback s t v p e)
  then show ?case by (metis rolling_back.simps(1))
next
  case (debounce pg kl s sm' w')
  then show ?case using debounce_expire_frame port_inv_transfer by fastforce
qed simp_all

lemma calm_reach_inv:
  "calm_reach s u \<Longrightarrow> port_inv (mgr s) \<Longrightarrow> calls_ok s \<Longrightarrow> (\<And>i. \<not> rolling_back (threads s i)) \<Longrightarrow>
    port_inv (mgr u) \<and> calls_ok u \<and> (\<forall>i. \<not> rolling_back (threads u i))"
proof (induction rule: calm_reach.induct)
  case (calm_step s t u)
  then show ?case using conc_step_port_inv conc_step_calls_ok by blast
qed simp

section \<open>Properties\<close>

text \<open>C7: however concurrent EnsureTunnel and RemoveTunnel calls interleave, as long as no removal has to roll back,
  two volumes never hold the same port and every held port lies in the configured range.\<close>

theorem concurrent_calls_never_share:
  assumes "port_inv sm" "calm_reach (conc_init sm w) s"
    "fmlookup (allocatedPorts (mgr s)) u = Some p" "fmlookup (allocatedPorts (mgr s)) v = Some p"
  shows "u = v \<and> initialPort (mgr s) \<le> p \<and> p < initialPort (mgr s) + portRange (mgr s)"
proof -
  have "port_inv (mgr s)"
    using calm_reach_inv[OF assms(2)] assms(1) by (simp add: conc_init_def calls_ok_def)
  then show ?thesis using assms(3,4) port_inv_iff port_inv_range by (metis option.inject)
qed

text \<open>Two first calls overlap: both miss the map, then both run the slow path.\<close>

lemma overlap_run:
  "\<exists>s. calm_reach (conc_init demo_sm demo_world) s \<and> allocatedPorts (mgr s) =
     fmupd ''v2'' 11301 (fmupd ''v1'' 11300 fmempty)"
proof -
  let ?s0 = "conc_init demo_sm demo_world"
  let ?s1 = "goto 0 (EnsureWaiting ''v1'' ''10.0.0.1'' ''a'') ?s0"
  let ?s2 = "goto 1 (EnsureWaiting ''v2'' ''10.0.0.2'' ''b'') ?s1"
  let ?m1 = "scheduleDebouncedSIGHUP ''a'' ((restore_port ''v1'' 11300 demo_sm)\<lparr>stunnelStarted := True\<rparr>)"
  let ?m2 = "scheduleDebouncedSIGHUP ''b'' ((restore_port ''v2'' 11301 ?m1)\<lparr>stunnelStarted := True\<rparr>)"
  obtain w1 where e1: "ensure_locked demo_os ''v1'' ''10.0.0.1'' ''a'' (demo_sm, demo_world) = (Inr 11300, ?m1, w1)"
    using ensure_locked_new[OF _ demo_find] by simp
  have "findAvailablePort (bindable demo_os) ?m1 = Inr 11301"
    by (simp add: findAvailablePort_Inr schedule_sels)
  then obtain w2 where e2: "ensure_locked demo_os ''v2'' ''10.0.0.2'' ''b'' (?m1, w1) = (Inr 11301, ?m2, w2)"
    using ensure_locked_new[of ?m1 "''v2''"] by (simp add: schedule_sels)
  let ?s3 = "goto 0 (EnsureReturned ''v1'' (Inr 11300)) (?s2\<lparr>mgr := ?m1, env := w1\<rparr>)"
  let ?s4 = "goto 1 (EnsureReturned ''v2'' (Inr 11301)) (?s3\<lparr>mgr := ?m2, env := w2\<rparr>)"
  have c1: "conc_step ?s0 ?s1" "conc_step ?s1 ?s2"
    by (rule conc_step.ensure_miss; simp add: conc_init_def)+
  have c2: "conc_step ?s2 ?s3"
    by (rule conc_step.ensure_slow[where os = demo_os]) (simp_all add: conc_init_def, rule e1)
  have c3: "conc_step ?s3 ?s4"
    by (rule conc_step.ensure_slow[where os = demo_os]) (simp_all add: conc_init_def, rule e2)
  have calm: "\<not> rolling_back (threads ?s1 i)" "\<not> rolling_back (threads ?s2 i)"
    "\<not> rolling_back (threads ?s3 i)" "\<not> rolling_back (threads ?s4 i)" for i
    by (simp_all add: conc_init_def)
  have "calm_reach ?s0 ?s4"
    using calm_step[OF calm_step[OF calm_step[OF calm_step[OF calm_refl c1(1) calm(1)] c1(2) calm(2)] c2 calm(3)] c3 calm(4)] .
  then show ?thesis by (intro exI[of _ ?s4]) (simp add: schedule_sels)
qed

theorem concurrent_calls_never_share_witness:
  "\<exists>s. calm_reach (conc_init demo_sm demo_world) s \<and>
     fmlookup (allocatedPorts (mgr s)) ''v1'' = Some 11300 \<and> 11300 < initialPort (mgr s) + portRange (mgr s) \<and>
     fmlookup (allocatedPorts (mgr s)) ''v2'' = Some 11301"
proof -
  obtain s where s: "calm_reach (conc_init demo_sm demo_world) s"
    "allocatedPorts (mgr s) = fmupd ''v2'' 11301 (fmupd ''v1'' 11300 fmempty)"
    using overlap_run by blast
  then show ?thesis
    using concurrent_calls_never_share[OF demo_inv s(1), of "''v1''" 11300 "''v1''"] by auto
qed

text \<open>
  A manager that confirmed stunnel once and holds one tunnel, with its service file. In the first run stunnel has
  died since, so the signal of the last removal fails; in the second it runs and holds port 11300.
\<close>

definition race_sm :: stunnel_manager where
  "race_sm = demo_one\<lparr>stunnelStarted := True\<rparr>"

definition race_world :: world where
  "race_world = demo_world\<lparr>files := fmupd (config_path race_sm ''v1'')
     (File (buildTunnelConfig race_sm ''v1'' ''10.0.0.1'' 11300)) (files demo_world)\<rparr>"

definition dead_rm :: remove_os where
  "dead_rm = demo_rm\<lparr>pgrep := PgrepError\<rparr>"

definition busy_os :: ensure_os where
  "busy_os = demo_os\<lparr>bindable := (\<lambda>p. p \<noteq> 11300)\<rparr>"

lemma race_inv: "port_inv race_sm"
  using port_inv_transfer[OF demo_one_inv, of race_sm] by (simp add: race_sm_def same_setup_def)

lemma race_sels [simp]:
  "allocatedPorts race_sm = fmupd ''v1'' 11300 fmempty" "portToVolume race_sm = fmupd 11300 ''v1'' fmempty"
  "stunnelStarted race_sm" "initialPort race_sm = 11300" "portRange race_sm = 300"
  "servicesDir race_sm = DefaultServicesDir" "debounceTimer race_sm = None"
  by (simp_all add: race_sm_def demo_one_def restore_port_def demo_sm_def fresh_manager_def InitialPort_def PortRange_def)

lemma reload_42: "reloadStunnel (PgrepOutput ''42'') (\<lambda>_. KillOk) w = (Inr (), w\<lparr>sighups := sighups w @ [42]\<rparr>)"
  by (rule reload_one; code_simp)

lemma race_forget_step:
  "conc_step (conc_init race_sm race_world)
     (goto 0 (RemoveLast ''v1'' 11300 ''a'') ((conc_init race_sm race_world)\<lparr>mgr := forget_port ''v1'' 11300 race_sm\<rparr>))"
  using conc_step.remove_forget[of "conc_init race_sm race_world" 0 "''v1''" 11300 "Some []" "''a''"]
  by (simp add: conc_init_def not_in_use_empty fcard.rep_eq fmdom'_alt_def)

text \<open>C25: a rollback is not safe against concurrent allocation. RemoveTunnel gives its port up before it signals
  stunnel and takes it back when the signal fails, without looking who holds it by then: there is a run of two calls
  after which two volumes have the same port.\<close>

theorem rollback_shares_port:
  "\<exists>s. port_inv race_sm \<and> conc_reach (conc_init race_sm race_world) s \<and>
     threads s 0 = RemoveReturned (Inl (LastTunnelSIGHUPFailed StunnelNotLocated)) \<and>
     threads s 1 = EnsureReturned ''v2'' (Inr 11300) \<and>
     fmlookup (allocatedPorts (mgr s)) ''v1'' = Some 11300 \<and> fmlookup (allocatedPorts (mgr s)) ''v2'' = Some 11300"
proof -
  let ?s0 = "conc_init race_sm race_world"
  let ?m1 = "forget_port ''v1'' 11300 race_sm"
  let ?s1 = "goto 0 (RemoveLast ''v1'' 11300 ''a'') (?s0\<lparr>mgr := ?m1\<rparr>)"
  let ?s2 = "goto 1 (EnsureWaiting ''v2'' ''10.0.0.2'' ''b'') ?s1"
  let ?m2 = "scheduleDebouncedSIGHUP ''b'' ((restore_port ''v2'' 11300 ?m1)\<lparr>stunnelStarted := True\<rparr>)"
  have "findAvailablePort (bindable demo_os) ?m1 = Inr 11300"
    by (simp add: findAvailablePort_Inr schedule_sels)
  then obtain w2 where e: "ensure_locked demo_os ''v2'' ''10.0.0.2'' ''b'' (?m1, race_world) = (Inr 11300, ?m2, w2)"
    using ensure_locked_new[of ?m1 "''v2''"] by (simp add: schedule_sels)
  let ?s3 = "goto 1 (EnsureReturned ''v2'' (Inr 11300)) (?s2\<lparr>mgr := ?m2, env := w2\<rparr>)"
  obtain m3 where l: "handleLastTunnelCleanup dead_rm (?m2, w2) = (Inl (LastTunnelSIGHUPFailed StunnelNotLocated), m3, w2)"
    by (simp add: handleLastTunnelCleanup_def reloadStunnel_def dead_rm_def)
  let ?s4 = "goto 0 (RemoveRollback ''v1'' 11300 (LastTunnelSIGHUPFailed StunnelNotLocated)) (?s3\<lparr>mgr := m3, env := w2\<rparr>)"
  let ?s5 = "goto 0 (RemoveReturned (Inl (LastTunnelSIGHUPFailed StunnelNotLocated))) (?s4\<lparr>mgr := restore_port ''v1'' 11300 m3\<rparr>)"
  have m3: "same_maps ?m2 m3" using handleLast_frame[OF l] by simp
  have "conc_step ?s1 ?s2" by (rule conc_step.ensure_miss) (simp_all add: conc_init_def schedule_sels)
  moreover have "conc_step ?s2 ?s3"
    by (rule conc_step.ensure_slow[where os = demo_os]) (simp_all add: conc_init_def, rule e)
  moreover have "conc_step ?s3 ?s4"
    using conc_step.remove_last[of ?s3 0 "''v1''" 11300 "''a''" dead_rm] l by simp
  moreover have "conc_step ?s4 ?s5"
    using conc_step.remove_rollback[of ?s4 0 "''v1''" 11300] by simp
  ultimately have "conc_reach ?s0 ?s5"
    using race_forget_step by (meson conc_reach.intros)
  then show ?thesis
    using race_inv m3 by (intro exI[of _ ?s5]) (simp add: same_maps_def schedule_sels)
qed

text \<open>RemoveTunnel unlinks the service file without the lock. When EnsureTunnel re-creates the tunnel of the same
  volume in between, both calls succeed and the volume holds a port for which no service file exists.\<close>

lemma unlink_deletes_new_config:
  "\<exists>s. conc_reach (conc_init race_sm race_world) s \<and>
     threads s 0 = RemoveReturned (Inr ()) \<and> threads s 1 = EnsureReturned ''v1'' (Inr 11301) \<and>
     fmlookup (allocatedPorts (mgr s)) ''v1'' = Some 11301 \<and>
     fmlookup (files (env s)) (config_path (mgr s) ''v1'') = None"
proof -
  let ?s0 = "conc_init race_sm race_world"
  let ?m1 = "forget_port ''v1'' 11300 race_sm"
  let ?s1 = "goto 0 (RemoveLast ''v1'' 11300 ''a'') (?s0\<lparr>mgr := ?m1\<rparr>)"
  let ?s2 = "goto 1 (EnsureWaiting ''v1'' ''10.0.0.1'' ''b'') ?s1"
  let ?m2 = "scheduleDebouncedSIGHUP ''b'' ((restore_port ''v1'' 11301 ?m1)\<lparr>stunnelStarted := True\<rparr>)"
  have "findAvailablePort (bindable busy_os) ?m1 = Inr 11301"
    by (simp add: findAvailablePort_Inr schedule_sels busy_os_def)
  then obtain w2 where e: "ensure_locked busy_os ''v1'' ''10.0.0.1'' ''b'' (?m1, race_world) = (Inr 11301, ?m2, w2)"
      "fmlookup (files w2) (config_path ?m1 ''v1'') \<noteq> None"
    using ensure_locked_new[of ?m1 "''v1''" busy_os 11301 "''10.0.0.1''" "''b''" race_world]
    by (simp add: schedule_sels busy_os_def)
  let ?s3 = "goto 1 (EnsureReturned ''v1'' (Inr 11301)) (?s2\<lparr>mgr := ?m2, env := w2\<rparr>)"
  obtain m3 w3 where l: "handleLastTunnelCleanup demo_rm (?m2, w2) = (Inr (), m3, w3)" and w3: "files w3 = files w2"
    by (simp add: handleLastTunnelCleanup_def demo_rm_def reload_42)
  let ?s4 = "goto 0 (RemoveUnlink ''v1'' 11300 ''a'' True) (?s3\<lparr>mgr := m3, env := w3\<rparr>)"
  have m3: "same_maps ?m2 m3" "same_setup ?m2 m3" using handleLast_frame[OF l] by simp_all
  then have path: "config_path m3 ''v1'' = config_path ?m1 ''v1''"
    by (simp add: config_path_def same_setup_def schedule_sels)
  let ?fs = "fmdrop (config_path m3 ''v1'') (files w3)"
  let ?s5 = "goto 0 (RemoveReturned (Inr ())) (?s4\<lparr>mgr := m3, env := w3\<lparr>files := ?fs\<rparr>\<rparr>)"
  have "conc_step ?s1 ?s2" by (rule conc_step.ensure_miss) (simp_all add: conc_init_def schedule_sels)
  moreover have "conc_step ?s2 ?s3"
    by (rule conc_step.ensure_slow[where os = busy_os]) (simp_all add: conc_init_def, rule e(1))
  moreover have "conc_step ?s3 ?s4"
    using conc_step.remove_last[of ?s3 0 "''v1''" 11300 "''a''" demo_rm] l by simp
  moreover have "conc_step ?s4 ?s5"
    using conc_step.remove_unlink[of ?s4 0 "''v1''" 11300 "''a''" True True RmOk ?fs] e(2) path w3
    by (simp add: remove_path_def)
  ultimately have "conc_reach ?s0 ?s5"
    using race_forget_step by (meson conc_reach.intros)
  then show ?thesis
    using m3 by (intro exI[of _ ?s5]) (simp add: same_maps_def schedule_sels)
qed

end
