(* ===== verification/Stunnel_Recovery.thy ===== *)
theory Stunnel_Recovery
  imports Stunnel_Inv
begin

text \<open>
  Restart safety of the stunnel manager. The port maps live in memory only; after a restart of the
  node pod \<open>recoverExistingTunnels\<close> rebuilds them from the service files. Shown here: what the
  recovery loop computes from a directory, that every operation keeps files and maps in step
  (unless a write stops half way), and that recovery then restores exactly the maps that were lost.
\<close>

section \<open>What recovery computes\<close>

definition recovered_entry ::
  "file_faults \<Rightarrow> filesys \<Rightarrow> stunnel_manager \<Rightarrow> string \<times> bool \<Rightarrow> (string \<times> int) option" where
  "recovered_entry os fs sm e =
     (case e of (name, isDir) \<Rightarrow>
        if isDir \<or> Ext name \<noteq> ''.conf'' then None
        else case extractPortFromConfigFile os fs sm (path_join (servicesDir sm) name) of
            Inl _ \<Rightarrow> None
          | Inr p \<Rightarrow> Some (TrimSuffix name ''.conf'', p))"

definition recovered ::
  "file_faults \<Rightarrow> filesys \<Rightarrow> stunnel_manager \<Rightarrow> (string \<times> bool) list \<Rightarrow> (string \<times> int) list" where
  "recovered os fs sm es = List.map_filter (recovered_entry os fs sm) es"

lemma scan_accept_range: "scan_accept ini rng n ls = Some (Inr p) \<Longrightarrow> ini \<le> p \<and> p < ini + rng"
  by (induction ini rng n ls rule: scan_accept.induct) (auto simp: Let_def split: if_splits sum.splits)

lemma extract_range:
  assumes "extractPortFromConfigFile os fs sm path = Inr p"
  shows "initialPort sm \<le> p \<and> p < initialPort sm + portRange sm"
proof -
  have "\<exists>ls. scan_accept (initialPort sm) (portRange sm) 0 ls = Some (Inr p)"
    using assms by (auto simp: extractPortFromConfigFile_def Let_def split: option.splits if_splits prod.splits)
  then show ?thesis using scan_accept_range by blast
qed

lemma recovered_entry_same:
  assumes "same_setup sm sm'"
  shows "recovered_entry os fs sm' = recovered_entry os fs sm"
proof -
  have same: "initialPort sm' = initialPort sm" "portRange sm' = portRange sm"
    "servicesDir sm' = servicesDir sm"
    using assms by (simp_all add: same_setup_def)
  show ?thesis
    unfolding recovered_entry_def extractPortFromConfigFile_def same ..
qed

lemma recover_loop_eq:
  "recover_loop os fs es sm =
     sm\<lparr>allocatedPorts := fold (\<lambda>(v, p). fmupd v p) (recovered os fs sm es) (allocatedPorts sm),
        portToVolume := fold (\<lambda>(v, p). fmupd p v) (recovered os fs sm es) (portToVolume sm)\<rparr>"
proof (induction es arbitrary: sm)
  case Nil
  then show ?case by (simp add: recovered_def List.map_filter_def)
next
  case (Cons e es)
  obtain name isDir where e: "e = (name, isDir)" by (cases e)
  show ?case
  proof (cases "recovered_entry os fs sm e")
    case None
    have "recover_loop os fs (e # es) sm = recover_loop os fs es sm"
      using None unfolding e
      by (auto simp: recovered_entry_def Let_def split: if_splits sum.splits)
    then show ?thesis using Cons.IH[of sm] None by (simp add: recovered_def List.map_filter_def)
  next
    case (Some vp)
    obtain v p where vp: "vp = (v, p)" by (cases vp)
    have ex: "extractPortFromConfigFile os fs sm (path_join (servicesDir sm) name) = Inr p"
      "\<not> isDir" "Ext name = ''.conf''" "v = TrimSuffix name ''.conf''"
      using Some unfolding e vp by (auto simp: recovered_entry_def split: if_splits sum.splits)
    have "recover_loop os fs (e # es) sm = recover_loop os fs es (restore_port v p sm)"
      using ex extract_range[OF ex(1)] unfolding e by (simp add: restore_port_def Let_def)
    moreover have "recovered os fs (restore_port v p sm) es = recovered os fs sm es"
      using recovered_entry_same[of sm "restore_port v p sm"] by (simp add: recovered_def)
    ultimately show ?thesis
      using Cons.IH[of "restore_port v p sm"] Some vp
      by (simp add: recovered_def List.map_filter_def restore_port_def)
  qed
qed

lemma fold_fmupd_lookup:
  "distinct (map fst xs) \<Longrightarrow>
     fmlookup (fold (\<lambda>(k, v). fmupd k v) xs m) k =
       (case map_of xs k of None \<Rightarrow> fmlookup m k | Some v \<Rightarrow> Some v)"
proof (induction xs arbitrary: m)
  case (Cons x xs)
  obtain a b where x: "x = (a, b)" by (cases x)
  have "map_of xs a = None" using Cons.prems x by (simp add: map_of_eq_None_iff)
  with Cons x show ?case by (auto split: option.splits)
qed simp

lemma fold_swap: "fold (\<lambda>(v, p). fmupd p v) xs m = fold (\<lambda>(k, v). fmupd k v) (map prod.swap xs) m"
  by (induction xs arbitrary: m) auto

lemma recover_loop_allocated:
  assumes "allocatedPorts sm = fmempty" "distinct (map fst (recovered os fs sm es))"
  shows "fmlookup (allocatedPorts (recover_loop os fs es sm)) v = Some p \<longleftrightarrow> (v, p) \<in> set (recovered os fs sm es)"
proof -
  have "fmlookup (allocatedPorts (recover_loop os fs es sm)) v = map_of (recovered os fs sm es) v"
    using assms by (simp add: recover_loop_eq fold_fmupd_lookup split: option.splits)
  then show ?thesis using assms(2) by simp
qed

lemma recover_loop_maps:
  assumes "allocatedPorts sm = fmempty" "portToVolume sm = fmempty"
    and "distinct (map fst (recovered os fs sm es))" "distinct (map snd (recovered os fs sm es))"
  shows "fmlookup (allocatedPorts (recover_loop os fs es sm)) v = Some p \<longleftrightarrow> (v, p) \<in> set (recovered os fs sm es)"
    and "fmlookup (portToVolume (recover_loop os fs es sm)) p = Some v \<longleftrightarrow> (v, p) \<in> set (recovered os fs sm es)"
proof -
  let ?xs = "recovered os fs sm es"
  have d: "distinct (map fst (map prod.swap ?xs))" using assms(4) by (simp add: comp_def)
  show "fmlookup (allocatedPorts (recover_loop os fs es sm)) v = Some p \<longleftrightarrow> (v, p) \<in> set ?xs"
    using assms(1,3) by (rule recover_loop_allocated)
  have "fmlookup (portToVolume (recover_loop os fs es sm)) p = map_of (map prod.swap ?xs) p"
    using assms(2) d by (simp add: recover_loop_eq fold_swap fold_fmupd_lookup split: option.splits)
  then show "fmlookup (portToVolume (recover_loop os fs es sm)) p = Some v \<longleftrightarrow> (v, p) \<in> set ?xs"
    using d by (force simp: map_of_eq_Some_iff)
qed

text \<open>Recovery establishes the invariant when no two service files claim the same port.\<close>

lemma recover_loop_port_inv:
  assumes "allocatedPorts sm = fmempty" "portToVolume sm = fmempty"
    and "distinct (map fst (recovered os fs sm es))" "distinct (map snd (recovered os fs sm es))"
  shows "port_inv (recover_loop os fs es sm)"
proof (rule port_inv_I)
  fix v p
  show "fmlookup (allocatedPorts (recover_loop os fs es sm)) v = Some p \<longleftrightarrow>
      fmlookup (portToVolume (recover_loop os fs es sm)) p = Some v"
    using recover_loop_maps[OF assms] by blast
next
  fix v p
  assume "fmlookup (allocatedPorts (recover_loop os fs es sm)) v = Some p"
  then have "(v, p) \<in> set (recovered os fs sm es)" using recover_loop_maps[OF assms] by blast
  then obtain e where "recovered_entry os fs sm e = Some (v, p)"
    by (auto simp: recovered_def List.map_filter_def)
  then have "initialPort sm \<le> p \<and> p < initialPort sm + portRange sm"
    by (auto simp: recovered_entry_def split: prod.splits if_splits sum.splits dest: extract_range)
  then show "initialPort (recover_loop os fs es sm) \<le> p \<and>
      p < initialPort (recover_loop os fs es sm) + portRange (recover_loop os fs es sm)"
    by (simp add: recover_loop_eq)
qed

section \<open>The directory\<close>

lemma dir_entries_mem:
  "(n, b) \<in> set (dir_entries fs d) \<longleftrightarrow>
     n \<noteq> [] \<and> CHR ''/'' \<notin> set n \<and> (\<exists>nd. fmlookup fs (d @ CHR ''/'' # n) = Some nd \<and> b = (nd = Dir))"
proof -
  have "(n, b) \<in> set (dir_entries fs d) \<longleftrightarrow>
      (\<exists>p. p |\<in>| fmdom fs \<and> p = d @ CHR ''/'' # n \<and> n \<noteq> [] \<and> CHR ''/'' \<notin> set n \<and> b = (fmlookup fs p = Some Dir))"
    by (auto simp: dir_entries_def HasPrefix_iff image_iff)
  then show ?thesis by (auto simp: fmlookup_dom_iff)
qed

lemma distinct_dir_entries: "distinct (map fst (dir_entries fs d))"
proof -
  let ?P = "\<lambda>p. HasPrefix p (d @ ''/'') \<and> drop (length d + 1) p \<noteq> '''' \<and> CHR ''/'' \<notin> set (drop (length d + 1) p)"
  have "inj_on (drop (length d + 1)) (set (filter ?P (sorted_list_of_fset (fmdom fs))))"
    by (rule inj_onI) (auto simp: HasPrefix_iff)
  moreover have "map fst (dir_entries fs d) =
      map (drop (length d + 1)) (filter ?P (sorted_list_of_fset (fmdom fs)))"
    by (simp add: dir_entries_def)
  ultimately show ?thesis
    by (simp add: distinct_map sorted_list_of_fset.rep_eq)
qed

lemma Ext_conf_iff: "CHR ''/'' \<notin> set n \<Longrightarrow> Ext n = ''.conf'' \<longleftrightarrow> (\<exists>v. n = v @ ''.conf'')"
proof
  assume a: "CHR ''/'' \<notin> set n" "Ext n = ''.conf''"
  then have "Split n (CHR ''/'') = [n]" by (intro Split_no_sep)
  with a(2) obtain i where "drop i n = ''.conf''"
    by (auto simp: Ext_def split: option.splits)
  then have "n = take i n @ ''.conf''" by (metis append_take_drop_id)
  then show "\<exists>v. n = v @ ''.conf''" by blast
next
  assume "CHR ''/'' \<notin> set n" "\<exists>v. n = v @ ''.conf''"
  then show "Ext n = ''.conf''" using Ext_append[of "''conf''"] by auto
qed

section \<open>Files and maps in step\<close>

text \<open>The port the service file of a volume holds, if there is such a file and it parses.\<close>

definition file_port :: "stunnel_manager \<Rightarrow> filesys \<Rightarrow> string \<Rightarrow> int option" where
  "file_port sm fs v =
     (case fmlookup fs (servicesDir sm @ CHR ''/'' # v @ ''.conf'') of
        Some (File c) \<Rightarrow>
          (case scan_accept (initialPort sm) (portRange sm) 0 (scan_lines c) of
             Some (Inr p) \<Rightarrow> Some p
           | _ \<Rightarrow> None)
      | _ \<Rightarrow> None)"

definition disk_inv :: "stunnel_manager \<Rightarrow> filesys \<Rightarrow> bool" where
  "disk_inv sm fs \<longleftrightarrow>
     clean_dir (servicesDir sm) \<and> fmlookup fs (servicesDir sm) = Some Dir \<and>
     (\<forall>v. CHR ''/'' \<notin> set v \<longrightarrow> file_port sm fs v = fmlookup (allocatedPorts sm) v) \<and>
     (\<forall>v p. fmlookup (allocatedPorts sm) v = Some p \<longrightarrow> CHR ''/'' \<notin> set v)"

lemma file_port_same:
  assumes "same_setup sm sm'"
  shows "file_port sm' fs v = file_port sm fs v"
proof -
  have same: "initialPort sm' = initialPort sm" "portRange sm' = portRange sm"
    "servicesDir sm' = servicesDir sm"
    using assms by (simp_all add: same_setup_def)
  show ?thesis unfolding file_port_def same ..
qed

text \<open>On a readable file, \<open>extractPortFromConfigFile\<close> succeeds with the port \<open>file_port\<close> gives.\<close>

lemma extract_file_port:
  assumes "fmlookup fs (servicesDir sm @ CHR ''/'' # v @ ''.conf'') \<noteq> Some Dir"
  shows "extractPortFromConfigFile no_faults fs sm (servicesDir sm @ CHR ''/'' # v @ ''.conf'') = Inr p
    \<longleftrightarrow> file_port sm fs v = Some p"
proof (cases "fmlookup fs (servicesDir sm @ CHR ''/'' # v @ ''.conf'')")
  case None
  then show ?thesis by (simp add: extractPortFromConfigFile_def file_port_def)
next
  case (Some nd)
  then obtain c where "nd = File c" using assms by (cases nd) auto
  then show ?thesis using Some
    by (cases "scan_accept (initialPort sm) (portRange sm) 0 (scan_lines c)")
      (auto simp: extractPortFromConfigFile_def file_port_def no_faults_def split: sum.splits)
qed

lemma recovered_entry_conf:
  assumes "clean_dir (servicesDir sm)" "CHR ''/'' \<notin> set n"
  shows "recovered_entry no_faults fs sm (n, fmlookup fs (servicesDir sm @ CHR ''/'' # n) = Some Dir) = Some (v, p)
    \<longleftrightarrow> n = v @ ''.conf'' \<and> file_port sm fs v = Some p"
proof (cases "Ext n = ''.conf''")
  case True
  then obtain u where u: "n = u @ ''.conf''" using Ext_conf_iff[OF assms(2)] by blast
  then have path: "path_join (servicesDir sm) n = servicesDir sm @ CHR ''/'' # u @ ''.conf''"
    using assms path_join_plain[OF assms(1) plain_name_conf[of u]] by simp
  have trim: "TrimSuffix n ''.conf'' = u" using u by simp
  show ?thesis
  proof (cases "fmlookup fs (servicesDir sm @ CHR ''/'' # u @ ''.conf'') = Some Dir")
    case dir: True
    then show ?thesis using u by (auto simp: recovered_entry_def file_port_def)
  next
    case False
    have "recovered_entry no_faults fs sm (n, False) = Some (v, p) \<longleftrightarrow>
        v = u \<and> extractPortFromConfigFile no_faults fs sm (servicesDir sm @ CHR ''/'' # u @ ''.conf'') = Inr p"
      using True path trim by (auto simp: recovered_entry_def split: sum.splits)
    then show ?thesis using False u extract_file_port[OF False] by auto
  qed
next
  case False
  then show ?thesis using assms(2) Ext_conf_iff by (auto simp: recovered_entry_def)
qed

lemma recovered_mem:
  assumes "clean_dir (servicesDir sm)"
  shows "(v, p) \<in> set (recovered no_faults fs sm (dir_entries fs (servicesDir sm))) \<longleftrightarrow>
    CHR ''/'' \<notin> set v \<and> file_port sm fs v = Some p"
proof -
  let ?d = "servicesDir sm" and ?re = "recovered_entry no_faults fs sm"
  have "(v, p) \<in> set (recovered no_faults fs sm (dir_entries fs ?d)) \<longleftrightarrow>
      (\<exists>n b. (n, b) \<in> set (dir_entries fs ?d) \<and> ?re (n, b) = Some (v, p))"
    by (force simp: recovered_def List.map_filter_def)
  also have "\<dots> \<longleftrightarrow> (\<exists>n nd. n \<noteq> [] \<and> CHR ''/'' \<notin> set n \<and> fmlookup fs (?d @ CHR ''/'' # n) = Some nd \<and>
      ?re (n, fmlookup fs (?d @ CHR ''/'' # n) = Some Dir) = Some (v, p))"
    unfolding dir_entries_mem by auto
  also have "\<dots> \<longleftrightarrow> (\<exists>n nd. n \<noteq> [] \<and> CHR ''/'' \<notin> set n \<and> fmlookup fs (?d @ CHR ''/'' # n) = Some nd \<and>
      n = v @ ''.conf'' \<and> file_port sm fs v = Some p)"
    using recovered_entry_conf[OF assms] by blast
  also have "\<dots> \<longleftrightarrow> CHR ''/'' \<notin> set v \<and> file_port sm fs v = Some p"
    by (auto simp: file_port_def split: option.splits)
  finally show ?thesis .
qed

lemma distinct_recovered_fst:
  assumes "clean_dir (servicesDir sm)"
  shows "distinct (map fst (recovered no_faults fs sm (dir_entries fs (servicesDir sm))))"
proof -
  let ?re = "recovered_entry no_faults fs sm"
  have name: "fst e = fst y @ ''.conf''" if "?re e = Some y" "CHR ''/'' \<notin> set (fst e)" for e y
    using that Ext_conf_iff[of "fst e"]
    by (auto simp: recovered_entry_def split: prod.splits if_splits sum.splits)
  have gen: "distinct (map fst (List.map_filter ?re es))"
    if "distinct (map fst es)" "\<forall>e\<in>set es. CHR ''/'' \<notin> set (fst e)" for es
    using that
  proof (induction es)
    case (Cons e es)
    then have IH: "distinct (map fst (List.map_filter ?re es))" by simp
    show ?case
    proof (cases "?re e")
      case (Some y)
      have "fst y \<notin> fst ` set (List.map_filter ?re es)"
      proof
        assume "fst y \<in> fst ` set (List.map_filter ?re es)"
        then obtain e' y' where e': "e' \<in> set es" "?re e' = Some y'" "fst y = fst y'"
          by (auto simp: List.map_filter_def)
        then have "fst e' = fst e" using name Some Cons.prems(2) by (metis list.set_intros)
        then show False using Cons.prems(1) e'(1) by (metis distinct.simps(2) image_eqI list.set_map list.simps(9))
      qed
      then show ?thesis using IH Some by (simp add: List.map_filter_simps)
    qed (use IH in \<open>simp add: List.map_filter_simps\<close>)
  qed (simp add: List.map_filter_simps)
  show ?thesis unfolding recovered_def
    by (rule gen) (use distinct_dir_entries dir_entries_mem in \<open>auto\<close>)
qed

lemma distinct_map_snd:
  "distinct (map fst xs) \<Longrightarrow> (\<And>a b c. (a, c) \<in> set xs \<Longrightarrow> (b, c) \<in> set xs \<Longrightarrow> a = b) \<Longrightarrow>
    distinct (map snd xs)"
proof (induction xs)
  case (Cons x xs)
  have "snd x \<notin> snd ` set xs"
  proof
    assume "snd x \<in> snd ` set xs"
    then obtain y where y: "y \<in> set xs" "snd y = snd x" by auto
    then have "fst x = fst y" using Cons.prems(2)[of "fst x" "snd x" "fst y"] by (metis list.set_intros prod.collapse)
    then show False using Cons.prems(1) y(1) by force
  qed
  then show ?case using Cons by auto
qed simp

text \<open>Recovery on an empty manager with the same set-up restores the maps.\<close>

lemma recover_restores:
  assumes "port_inv sm" "disk_inv sm fs" "same_setup sm sm0"
    "allocatedPorts sm0 = fmempty" "portToVolume sm0 = fmempty"
  shows "\<exists>sm'. recoverExistingTunnels no_faults False fs sm0 = (Inr (), sm') \<and>
    same_maps sm sm' \<and> same_setup sm sm'"
proof -
  let ?d = "servicesDir sm0" and ?xs = "recovered no_faults fs sm0 (dir_entries fs (servicesDir sm0))"
  have d: "?d = servicesDir sm" "clean_dir ?d" "fmlookup fs ?d = Some Dir"
    using assms(2,3) by (simp_all add: disk_inv_def same_setup_def)
  have mem: "(v, p) \<in> set ?xs \<longleftrightarrow> fmlookup (allocatedPorts sm) v = Some p" for v p
    using assms(2) recovered_mem[OF d(2)] file_port_same[OF assms(3)]
    by (auto simp: disk_inv_def)
  have fst: "distinct (map fst ?xs)" using d(2) by (rule distinct_recovered_fst)
  then have snd: "distinct (map snd ?xs)"
    by (rule distinct_map_snd) (metis mem port_inv_iff[OF assms(1)] option.inject)
  let ?sm' = "recover_loop no_faults fs (dir_entries fs ?d) sm0"
  note maps = recover_loop_maps[OF assms(4,5) fst snd]
  have "allocatedPorts ?sm' = allocatedPorts sm"
    by (rule fmlookup_eqI) (metis maps(1) mem not_None_eq)
  moreover have "portToVolume ?sm' = portToVolume sm"
    by (rule fmlookup_eqI) (metis maps(2) mem port_inv_iff[OF assms(1)] not_None_eq)
  moreover have "same_setup sm ?sm'"
    using assms(3) by (simp add: same_setup_def recover_loop_eq)
  ultimately show ?thesis
    using d(3) by (simp add: recoverExistingTunnels_def same_maps_def)
qed

section \<open>Every operation keeps files and maps in step\<close>

lemma disk_inv_transfer:
  "disk_inv sm fs \<Longrightarrow> same_setup sm sm' \<Longrightarrow> same_maps sm sm' \<Longrightarrow> disk_inv sm' fs"
  by (simp add: disk_inv_def file_port_same) (simp add: same_setup_def same_maps_def)

lemma file_port_other:
  "fmlookup fs' (servicesDir sm @ CHR ''/'' # v @ ''.conf'') = fmlookup fs (servicesDir sm @ CHR ''/'' # v @ ''.conf'')
    \<Longrightarrow> file_port sm fs' v = file_port sm fs v"
  by (simp add: file_port_def)

text \<open>Port numbers the printer and the parser agree on.\<close>

definition sane_range :: "stunnel_manager \<Rightarrow> bool" where
  "sane_range sm \<longleftrightarrow> 0 \<le> initialPort sm \<and> initialPort sm + portRange sm \<le> 2 ^ 63"

lemma file_port_written:
  assumes "good_volume_id v" "sane_range sm" "initialPort sm \<le> p" "p < initialPort sm + portRange sm"
    "clean_dir (servicesDir sm)"
  shows "file_port sm (fmupd (config_path sm v) (File (buildTunnelConfig sm v srv p)) fs) v = Some p"
proof -
  have "scan_accept (initialPort sm) (portRange sm) 0 (scan_lines (buildTunnelConfig sm v srv p)) = Some (Inr p)"
    using assms by (intro config_scan_roundtrip) (auto simp: good_volume_id_def sane_range_def)
  then show ?thesis using assms by (simp add: file_port_def config_path_plain good_volume_id_def)
qed

lemma disk_inv_write:
  assumes "disk_inv sm fs" "good_volume_id v" "sane_range sm"
    "initialPort sm \<le> p" "p < initialPort sm + portRange sm"
  shows "disk_inv (restore_port v p sm) (fmupd (config_path sm v) (File (buildTunnelConfig sm v srv p)) fs)"
proof -
  let ?sm = "restore_port v p sm"
  let ?fs = "fmupd (config_path sm v) (File (buildTunnelConfig sm v srv p)) fs"
  have cd: "clean_dir (servicesDir sm)" and dir: "fmlookup fs (servicesDir sm) = Some Dir"
    and nos: "CHR ''/'' \<notin> set v"
    using assms(1,2) by (auto simp: disk_inv_def good_volume_id_def)
  note path = config_path_plain[OF cd nos]
  have "file_port ?sm ?fs u = fmlookup (allocatedPorts ?sm) u" if u: "CHR ''/'' \<notin> set u" for u
  proof (cases "u = v")
    case True
    then have "file_port ?sm ?fs u = Some p"
      using file_port_written[OF assms(2,3,4,5) cd] by (simp add: file_port_same[of sm ?sm])
    then show ?thesis using True by (simp add: restore_port_def)
  next
    case False
    then have "file_port sm ?fs u = file_port sm fs u"
      by (intro file_port_other) (simp add: path)
    with False u assms(1) show ?thesis
      by (simp add: file_port_same[of sm ?sm]) (simp add: disk_inv_def restore_port_def)
  qed
  moreover have "fmlookup ?fs (servicesDir sm) = Some Dir"
    using dir by (simp add: path)
  ultimately show ?thesis using assms(1) nos by (auto simp: disk_inv_def restore_port_def split: if_splits)
qed

lemma disk_inv_delete:
  assumes "disk_inv sm fs" "CHR ''/'' \<notin> set v" "fmlookup fs' (config_path sm v) = None"
    "\<And>q. q \<noteq> config_path sm v \<Longrightarrow> fmlookup fs' q = fmlookup fs q"
  shows "disk_inv (forget_port v p sm) fs'"
proof -
  let ?sm = "forget_port v p sm"
  have cd: "clean_dir (servicesDir sm)" using assms(1) by (simp add: disk_inv_def)
  note path = config_path_plain[OF cd assms(2)]
  have "file_port ?sm fs' u = fmlookup (allocatedPorts ?sm) u" if u: "CHR ''/'' \<notin> set u" for u
  proof (cases "u = v")
    case True
    then have "file_port ?sm fs' u = None"
      using assms(3) by (simp add: file_port_same[of sm ?sm]) (simp add: file_port_def path)
    then show ?thesis using True by (simp add: forget_port_def)
  next
    case False
    then have "file_port sm fs' u = file_port sm fs u"
      using assms(4) by (intro file_port_other) (simp add: path)
    with False u assms(1) show ?thesis
      by (simp add: file_port_same[of sm ?sm]) (simp add: disk_inv_def forget_port_def)
  qed
  moreover have "fmlookup fs' (servicesDir sm) = fmlookup fs (servicesDir sm)"
    by (rule assms(4)) (simp add: path)
  ultimately show ?thesis using assms(1) by (auto simp: disk_inv_def forget_port_def split: if_splits)
qed

lemma EnsureTunnel_fail_files:
  assumes "EnsureTunnel os v srv r (sm, w) = (Inl e, sm', w')"
    and "\<And>c. writeResult os \<noteq> WriteError (Some c)" "rollbackRemoveOk os"
  shows "files w' = files w \<or>
    fmlookup (allocatedPorts sm) v = None \<and> files w' = fmdrop (config_path sm v) (files w)"
proof -
  have drop: "fmdrop k (fmupd k x m) = fmdrop k m" for k x and m :: filesys
    by (rule fmlookup_eqI) simp
  show ?thesis
    using assms
    by (auto simp: EnsureTunnel_def ensure_locked_def writeTunnelConfig_def remove_path_def Let_def drop
        split: if_splits option.splits sum.splits write_result.splits)
qed

lemma forget_unallocated:
  assumes "port_inv sm" "fmlookup (allocatedPorts sm) v = None"
  shows "\<exists>p. same_maps (forget_port v p sm) sm"
proof -
  have "\<exists>p. fmlookup (portToVolume sm) p = None"
  proof (rule ccontr)
    assume "\<not> ?thesis"
    then have "fmdom' (portToVolume sm) = UNIV" by (auto simp: fmlookup_dom'_iff)
    then have "finite (UNIV :: int set)" using finite_fmdom'[of "portToVolume sm"] by simp
    then show False using infinite_UNIV_int by simp
  qed
  then obtain p where "fmlookup (portToVolume sm) p = None" by blast
  with assms(2) have "same_maps (forget_port v p sm) sm"
    by (simp add: same_maps_def forget_port_def) (metis fmdrop_fmupd_same fmdrop_upd_new)
  then show ?thesis by blast
qed

lemma EnsureTunnel_disk_inv:
  assumes "port_inv sm" "disk_inv sm (files w)" "EnsureTunnel os v srv r (sm, w) = (res, sm', w')"
    and "good_volume_id v" "sane_range sm"
    and "\<And>c. writeResult os \<noteq> WriteError (Some c)" "rollbackRemoveOk os"
  shows "disk_inv sm' (files w')"
  using assms(3)
proof (cases rule: EnsureTunnel_cases)
  case hit
  then show ?thesis using assms(2) by simp
next
  case (alloc p)
  then have "disk_inv (restore_port v p sm) (files w')"
    using disk_inv_write[OF assms(2,4,5)] by (simp add: findAvailablePort_Inr)
  moreover have "same_setup (restore_port v p sm) sm'"
    using alloc(7) by (simp add: same_setup_def restore_port_def)
  ultimately show ?thesis using alloc(6) disk_inv_transfer by blast
next
  case (fail e)
  have "disk_inv sm (files w')"
  proof (cases "files w' = files w")
    case False
    then have un: "fmlookup (allocatedPorts sm) v = None" "files w' = fmdrop (config_path sm v) (files w)"
      using EnsureTunnel_fail_files[OF assms(3)[unfolded fail(1)] assms(6,7)] by auto
    then obtain p where p: "same_maps (forget_port v p sm) sm" using forget_unallocated assms(1) by blast
    have "disk_inv (forget_port v p sm) (files w')"
      using assms(4) un(2) by (intro disk_inv_delete[OF assms(2)]) (auto simp: good_volume_id_def)
    then show ?thesis
      using p by (rule_tac disk_inv_transfer) (auto simp: same_setup_def forget_port_def)
  qed (use assms(2) in simp)
  then show ?thesis using fail disk_inv_transfer by blast
qed

lemma RemoveTunnel_disk_inv:
  assumes "port_inv sm" "disk_inv sm (files w)" "RemoveTunnel os v r (sm, w) = (res, sm', w')"
  shows "disk_inv sm' (files w')"
proof (rule RemoveTunnel_cases[OF assms(3) assms(1)])
  fix p
  assume gone: "fmlookup (allocatedPorts sm) v = Some p" "same_maps (forget_port v p sm) sm'" "same_setup sm sm'"
    "fmlookup (files w') (config_path sm v) = None"
    "\<And>q. q \<noteq> config_path sm v \<Longrightarrow> fmlookup (files w') q = fmlookup (files w) q"
  have "CHR ''/'' \<notin> set v" using assms(2) gone(1) by (auto simp: disk_inv_def)
  then have "disk_inv (forget_port v p sm) (files w')"
    using gone(4,5) by (intro disk_inv_delete[OF assms(2)]) auto
  moreover have "same_setup (forget_port v p sm) sm'"
    using gone(3) by (simp add: same_setup_def forget_port_def)
  ultimately show ?thesis using gone(2) disk_inv_transfer by blast
qed (use assms(2) disk_inv_transfer in auto)

section \<open>Runs\<close>

text \<open>An operation whose file system calls are clean: no write stops half way, roll-back unlinks succeed.\<close>

definition clean_op :: "(ensure_os \<times> string \<times> string, remove_os \<times> string, string) alloc_op \<Rightarrow> bool" where
  "clean_op x \<longleftrightarrow>
     (case x of
        Ensure e v \<Rightarrow> good_volume_id v \<and> rollbackRemoveOk (fst e) \<and>
          (case writeResult (fst e) of WriteError (Some c) \<Rightarrow> False | _ \<Rightarrow> True)
      | Remove r v \<Rightarrow> True)"

definition disk_ok :: "stunnel_manager \<times> world \<Rightarrow> bool" where
  "disk_ok st \<longleftrightarrow> port_inv (fst st) \<and> disk_inv (fst st) (files (snd st)) \<and> sane_range (fst st)"

lemma EnsureTunnel_setup: "EnsureTunnel os v srv r (sm, w) = (res, sm', w') \<Longrightarrow> same_setup sm sm'"
  by (cases rule: EnsureTunnel_cases) auto

lemma RemoveTunnel_setup:
  assumes "port_inv sm" "RemoveTunnel os v r (sm, w) = (res, sm', w')"
  shows "same_setup sm sm'"
  by (rule RemoveTunnel_cases[OF assms(2) assms(1)]) auto

lemma sane_range_same: "same_setup sm sm' \<Longrightarrow> sane_range sm \<Longrightarrow> sane_range sm'"
  by (simp add: same_setup_def sane_range_def)

lemma alloc_step_disk_ok:
  assumes "disk_ok st" "clean_op x"
  shows "disk_ok (alloc_step tunnel_ensure tunnel_remove x st) \<and>
    same_setup (fst st) (fst (alloc_step tunnel_ensure tunnel_remove x st))"
proof (cases x)
  case (Ensure e v)
  obtain res sm' w' where ens: "EnsureTunnel (fst e) v (fst (snd e)) (snd (snd e)) (fst st, snd st) = (res, sm', w')"
    by (metis prod.exhaust)
  have c: "good_volume_id v" "rollbackRemoveOk (fst e)" "\<And>c. writeResult (fst e) \<noteq> WriteError (Some c)"
    using assms(2) Ensure by (auto simp: clean_op_def split: write_result.splits option.splits)
  have "disk_ok (sm', w')"
    using assms(1) c ens EnsureTunnel_port_inv[OF _ ens] EnsureTunnel_disk_inv[OF _ _ ens c(1) _ c(3,2)]
      EnsureTunnel_setup[OF ens] by (auto simp: disk_ok_def intro: sane_range_same)
  then show ?thesis using Ensure ens EnsureTunnel_setup[OF ens] by (simp add: tunnel_ensure_def)
next
  case (Remove r v)
  obtain res sm' w' where rem: "RemoveTunnel (fst r) v (snd r) (fst st, snd st) = (res, sm', w')"
    by (metis prod.exhaust)
  have inv: "port_inv (fst st)" using assms(1) by (simp add: disk_ok_def)
  have "disk_ok (sm', w')"
    using assms(1) RemoveTunnel_port_inv[OF inv rem] RemoveTunnel_disk_inv[OF inv _ rem]
      RemoveTunnel_setup[OF inv rem] by (auto simp: disk_ok_def intro: sane_range_same)
  then show ?thesis using Remove rem RemoveTunnel_setup[OF inv rem] by (simp add: tunnel_remove_def)
qed

lemma alloc_run_disk_ok:
  "disk_ok st \<Longrightarrow> \<forall>x\<in>set ops. clean_op x \<Longrightarrow>
    disk_ok (alloc_run tunnel_ensure tunnel_remove ops st) \<and>
    same_setup (fst st) (fst (alloc_run tunnel_ensure tunnel_remove ops st))"
proof (induction ops arbitrary: st)
  case (Cons x ops)
  then show ?case using alloc_step_disk_ok[of st x] Cons.IH[of "alloc_step tunnel_ensure tunnel_remove x st"]
    by (auto simp: same_setup_def)
qed simp

lemma good_id_intro: "newline \<notin> set v \<Longrightarrow> CHR ''/'' \<notin> set v \<Longrightarrow> length v \<le> 100 \<Longrightarrow> good_volume_id v"
  by (simp add: good_volume_id_def max_line_def)

lemma demo_disk_ok: "disk_ok (demo_sm, demo_world)"
proof -
  have "file_port demo_sm (files demo_world) v = None" for v
    by (simp add: file_port_def demo_world_def DefaultServicesDir_def)
  then show ?thesis
    using demo_inv clean_dir_default by (simp add: disk_ok_def disk_inv_def sane_range_def demo_world_def)
qed

section \<open>Properties\<close>

text \<open>C5: restart safety. After any sequence of EnsureTunnel and RemoveTunnel calls on well-formed volume ids in which
  no write stops half way and no unlink of a roll-back fails, a manager constructed anew on the same services
  directory, whose files can be read, recovers exactly the port maps of the manager that was lost.\<close>

theorem restart_restores_ports:
  assumes "disk_ok (sm, w)" "\<forall>x\<in>set ops. clean_op x"
    "alloc_run tunnel_ensure tunnel_remove ops (sm, w) = (sm1, w1)"
    "same_setup sm sm0" "allocatedPorts sm0 = fmempty" "portToVolume sm0 = fmempty"
  shows "\<exists>sm2. recoverExistingTunnels no_faults False (files w1) sm0 = (Inr (), sm2) \<and>
    allocatedPorts sm2 = allocatedPorts sm1 \<and> portToVolume sm2 = portToVolume sm1"
proof -
  have ok: "disk_ok (sm1, w1)" "same_setup sm sm1"
    using alloc_run_disk_ok[OF assms(1,2)] assms(3) by simp_all
  have "same_setup sm1 sm0" using ok(2) assms(4) by (simp add: same_setup_def)
  then show ?thesis
    using recover_restores[OF _ _ _ assms(5,6), of sm1 "files w1"] ok(1) by (auto simp: disk_ok_def same_maps_def)
qed

theorem restart_restores_ports_witness:
  "\<exists>sm1 w1 sm2. alloc_run tunnel_ensure tunnel_remove [Ensure (demo_os, ''10.0.0.1'', ''r'') ''v1''] (demo_sm, demo_world) = (sm1, w1) \<and>
     fmlookup (allocatedPorts sm1) ''v1'' = Some 11300 \<and>
     recoverExistingTunnels no_faults False (files w1) demo_sm = (Inr (), sm2) \<and>
     fmlookup (allocatedPorts sm2) ''v1'' = Some 11300"
proof -
  let ?ops = "[Ensure (demo_os, ''10.0.0.1'', ''r'') ''v1'']"
  obtain sm1 w1 where e: "EnsureTunnel demo_os ''v1'' ''10.0.0.1'' ''r'' (demo_sm, demo_world) = (Inr 11300, sm1, w1)"
    using demo_ensure by blast
  then have r: "alloc_run tunnel_ensure tunnel_remove ?ops (demo_sm, demo_world) = (sm1, w1)"
    by (simp add: tunnel_ensure_def)
  have p: "fmlookup (allocatedPorts sm1) ''v1'' = Some 11300"
    using e by (cases rule: EnsureTunnel_cases) (auto simp: same_maps_def restore_port_def)
  have empty: "allocatedPorts demo_sm = fmempty" "portToVolume demo_sm = fmempty"
    by (simp_all add: demo_sm_def fresh_manager_def)
  have "\<forall>x\<in>set ?ops. clean_op x"
    by (simp add: clean_op_def good_id_intro newline_def)
  then obtain sm2 where "recoverExistingTunnels no_faults False (files w1) demo_sm = (Inr (), sm2)"
      "allocatedPorts sm2 = allocatedPorts sm1"
    using restart_restores_ports[OF demo_disk_ok _ r, of demo_sm] empty by (auto simp: same_setup_def)
  then show ?thesis using r p by auto
qed

text \<open>What recovery finds, volume by volume.\<close>

lemma recover_lookup:
  assumes "clean_dir (servicesDir sm)" "fmlookup fs (servicesDir sm) = Some Dir" "allocatedPorts sm = fmempty"
    "recoverExistingTunnels no_faults False fs sm = (r, sm')"
  shows "fmlookup (allocatedPorts sm') v = Some p \<longleftrightarrow> CHR ''/'' \<notin> set v \<and> file_port sm fs v = Some p"
proof -
  have "sm' = recover_loop no_faults fs (dir_entries fs (servicesDir sm)) sm"
    using assms(2,4) by (simp add: recoverExistingTunnels_def)
  then show ?thesis
    using recover_loop_allocated[OF assms(3) distinct_recovered_fst[OF assms(1)]] recovered_mem[OF assms(1)] by simp
qed

text \<open>Recovery is complete and sound for a manager on any disk: a volume is given a port after a restart exactly
  when a service file with its name parses to that port; unreadable, foreign and out-of-range files are skipped.\<close>

lemma recovery_reads_files:
  assumes "clean_dir (servicesDir sm)" "fmlookup fs (servicesDir sm) = Some Dir" "allocatedPorts sm = fmempty"
  shows "\<exists>sm'. recoverExistingTunnels no_faults False fs sm = (Inr (), sm') \<and>
    (\<forall>v p. GetTunnelPort sm' v = (p, True) \<longleftrightarrow>
       v \<noteq> '''' \<and> CHR ''/'' \<notin> set v \<and> extractPortFromConfigFile no_faults fs sm (config_path sm v) = Inr p)"
proof -
  obtain sm' where r: "recoverExistingTunnels no_faults False fs sm = (Inr (), sm')"
    using assms(2) by (simp add: recoverExistingTunnels_def)
  have "GetTunnelPort sm' v = (p, True) \<longleftrightarrow> v \<noteq> '''' \<and> fmlookup (allocatedPorts sm') v = Some p" for v p
    by (auto simp: GetTunnelPort_def split: option.splits)
  moreover have "file_port sm fs v = Some p \<longleftrightarrow> extractPortFromConfigFile no_faults fs sm (config_path sm v) = Inr p"
    if "CHR ''/'' \<notin> set v" for v p
  proof (cases "fmlookup fs (servicesDir sm @ CHR ''/'' # v @ ''.conf'') = Some Dir")
    case True
    then show ?thesis using config_path_plain[OF assms(1) that]
      by (simp add: file_port_def extractPortFromConfigFile_def no_faults_def scan_lines_def)
  next
    case False
    then show ?thesis using extract_file_port[OF False] config_path_plain[OF assms(1) that] by simp
  qed
  ultimately show ?thesis using r recover_lookup[OF assms r] by auto
qed

lemma recovery_reads_files_example:
  "\<exists>sm'. recoverExistingTunnels no_faults False (files demo_world) demo_sm = (Inr (), sm') \<and>
    GetTunnelPort sm' ''v1'' \<noteq> (11300, True)"
proof -
  have d: "clean_dir (servicesDir demo_sm)" "fmlookup (files demo_world) (servicesDir demo_sm) = Some Dir"
    using clean_dir_default by (simp_all add: demo_world_def)
  obtain sm' where "recoverExistingTunnels no_faults False (files demo_world) demo_sm = (Inr (), sm')"
    "GetTunnelPort sm' ''v1'' = (11300, True) \<longrightarrow>
       extractPortFromConfigFile no_faults (files demo_world) demo_sm (config_path demo_sm ''v1'') = Inr 11300"
    using recovery_reads_files[OF d] by auto
  moreover have "config_path demo_sm ''v1'' = DefaultServicesDir @ ''/v1.conf''"
    using config_path_plain[OF d(1), of "''v1''"] by simp
  then have "extractPortFromConfigFile no_faults (files demo_world) demo_sm (config_path demo_sm ''v1'') = Inl FailedToOpen"
    by (simp add: extractPortFromConfigFile_def demo_world_def DefaultServicesDir_def)
  ultimately show ?thesis by auto
qed

text \<open>C26: a write that is reported as failed is not undone. When the content had reached the disk (the error came from
  closing the file), the port is handed to the next volume, and after a restart both volumes hold it.\<close>

theorem failed_write_shares_port_after_restart:
  "\<exists>sm1 w1 sm2 w2 sm3.
     EnsureTunnel (demo_os\<lparr>writeResult := WriteError (Some (buildTunnelConfig demo_sm ''v1'' ''10.0.0.1'' 11300))\<rparr>)
       ''v1'' ''10.0.0.1'' ''a'' (demo_sm, demo_world) = (Inl WriteConfigFailed, sm1, w1) \<and>
     EnsureTunnel demo_os ''v2'' ''10.0.0.2'' ''b'' (sm1, w1) = (Inr 11300, sm2, w2) \<and>
     recoverExistingTunnels no_faults False (files w2) demo_sm = (Inr (), sm3) \<and>
     GetTunnelPort sm3 ''v1'' = (11300, True) \<and> GetTunnelPort sm3 ''v2'' = (11300, True)"
proof -
  let ?c1 = "buildTunnelConfig demo_sm ''v1'' ''10.0.0.1'' 11300"
  let ?os = "demo_os\<lparr>writeResult := WriteError (Some ?c1)\<rparr>"
  let ?w1 = "demo_world\<lparr>files := fmupd (config_path demo_sm ''v1'') (File ?c1) (files demo_world)\<rparr>"
  let ?fs = "fmupd (config_path demo_sm ''v2'') (File (buildTunnelConfig demo_sm ''v2'' ''10.0.0.2'' 11300)) (files ?w1)"
  have e1: "EnsureTunnel ?os ''v1'' ''10.0.0.1'' ''a'' (demo_sm, demo_world) = (Inl WriteConfigFailed, demo_sm, ?w1)"
    using demo_find by (simp add: EnsureTunnel_def ensure_locked_def writeTunnelConfig_def Let_def)
  obtain sm2 where e2: "EnsureTunnel demo_os ''v2'' ''10.0.0.2'' ''b'' (demo_sm, ?w1) = (Inr 11300, sm2, ?w1\<lparr>files := ?fs\<rparr>)"
    using ensure_locked_new[OF _ demo_find, of "''v2''" "''10.0.0.2''" "''b''" ?w1] by (simp add: EnsureTunnel_def)
  have cd: "clean_dir (servicesDir demo_sm)" using clean_dir_default by simp
  then have paths: "config_path demo_sm ''v1'' = DefaultServicesDir @ ''/v1.conf''"
      "config_path demo_sm ''v2'' = DefaultServicesDir @ ''/v2.conf''"
    using config_path_plain[OF cd, of "''v1''"] config_path_plain[OF cd, of "''v2''"] by simp_all
  then have dir: "fmlookup ?fs (servicesDir demo_sm) = Some Dir" by (simp add: demo_world_def)
  obtain sm3 where r: "recoverExistingTunnels no_faults False ?fs demo_sm = (Inr (), sm3)"
    using dir by (simp add: recoverExistingTunnels_def)
  have scan: "scan_accept (initialPort demo_sm) (portRange demo_sm) 0 (scan_lines (buildTunnelConfig demo_sm v srv 11300)) = Some (Inr 11300)"
    if "v \<in> {''v1'', ''v2''}" for v srv
    using that by (intro config_scan_roundtrip) (auto simp: newline_def max_line_def)
  have "file_port demo_sm ?fs ''v1'' = Some 11300" "file_port demo_sm ?fs ''v2'' = Some 11300"
    using scan paths by (simp_all add: file_port_def)
  then have "fmlookup (allocatedPorts sm3) ''v1'' = Some 11300" "fmlookup (allocatedPorts sm3) ''v2'' = Some 11300"
    using recover_lookup[OF cd dir _ r] by simp_all
  then show ?thesis using e1 e2 r by (auto simp: GetTunnelPort_def)
qed

section \<open>Construction\<close>

lemma recover_loop_same_setup: "same_setup sm (recover_loop os fs es sm)"
  by (simp add: same_setup_def recover_loop_eq)

text \<open>Construction fails closed. A manager exists exactly when a logger is given, \<open>OS_TYPE\<close> is one of the three
  supported values and the CA bundle for it exists; it then verifies servers against that bundle and against the
  staging host only when \<open>CLUSTER_ENV\<close> is \<open>stage\<close>, the production host otherwise, whatever recovery found.\<close>

lemma NewStunnelManager_fail_closed:
  "case NewStunnelManager loggerNil env statOk os readDirFails fs of
     Inr sm \<Rightarrow> \<not> loggerNil \<and> statOk (caFile sm) \<and>
       (Getenv env ''OS_TYPE'' = ''Ubuntu'' \<and> caFile sm = UbuntuCAPath \<or>
        Getenv env ''OS_TYPE'' \<in> {''RHCOS'', ''RHEL''} \<and> caFile sm = RHELCAPath) \<and>
       checkHost sm = (if Getenv env ''CLUSTER_ENV'' = ''stage'' then StagingCheckHost else ProductionCheckHost) \<and>
       servicesDir sm = DefaultServicesDir \<and> initialPort sm = 11300 \<and> portRange sm = 300
   | Inl e \<Rightarrow> \<not> (\<not> loggerNil \<and>
       (Getenv env ''OS_TYPE'' = ''Ubuntu'' \<and> statOk UbuntuCAPath \<or>
        Getenv env ''OS_TYPE'' \<in> {''RHCOS'', ''RHEL''} \<and> statOk RHELCAPath))"
proof -
  have host: "getClusterEnv env = Inr (if Getenv env ''CLUSTER_ENV'' = ''stage'' then StagingCheckHost else ProductionCheckHost)"
    by (auto simp: getClusterEnv_def Let_def)
  have ne: "UbuntuCAPath \<noteq> ''''" "RHELCAPath \<noteq> ''''" "StagingCheckHost \<noteq> ''''" "ProductionCheckHost \<noteq> ''''"
    by (simp_all add: UbuntuCAPath_def RHELCAPath_def StagingCheckHost_def ProductionCheckHost_def)
  have same: "same_setup sm (snd (recoverExistingTunnels os readDirFails fs sm))" for sm
    by (auto simp: recoverExistingTunnels_def recover_loop_same_setup split: option.splits node.splits)
  have keeps: "caFile (snd (recoverExistingTunnels os readDirFails fs (fresh_manager ca h))) = ca"
      "checkHost (snd (recoverExistingTunnels os readDirFails fs (fresh_manager ca h))) = h"
      "servicesDir (snd (recoverExistingTunnels os readDirFails fs (fresh_manager ca h))) = DefaultServicesDir"
      "initialPort (snd (recoverExistingTunnels os readDirFails fs (fresh_manager ca h))) = 11300"
      "portRange (snd (recoverExistingTunnels os readDirFails fs (fresh_manager ca h))) = 300" for ca h
    using same[of "fresh_manager ca h"] by (simp_all add: same_setup_def fresh_manager_def InitialPort_def PortRange_def)
  show ?thesis
    using ne by (auto simp: NewStunnelManager_def host detectCABundle_def keeps Let_def)
qed

end
