(* ===== verification/Stunnel_Reload.thy ===== *)
theory Stunnel_Reload
  imports Stunnel_Recovery
begin

text \<open>
  Whether stunnel knows the tunnels that the manager hands out. A service file has an effect only once stunnel has read
  it: on SIGHUP, or when it starts. The state of the manager is extended by what stunnel read last, \<open>loaded\<close>; each
  operation is followed by what its signals make stunnel read. While the signals get through, every allocated tunnel is
  loaded or a reload is on its way. When the cleanup of the last tunnel fails, the reload that was on its way is lost.
\<close>

section \<open>What stunnel has read\<close>

type_synonym stunnel_state = "(stunnel_manager \<times> world) \<times> filesys"

text \<open>The debounce timer will send a SIGHUP when its window passes.\<close>

definition reload_owed :: "stunnel_manager \<Rightarrow> bool" where
  "reload_owed sm \<longleftrightarrow> pendingSIGHUP sm \<and> (\<exists>t. debounceTimer sm = Some t \<and> armed t)"

text \<open>A reload that reaches the one stunnel process.\<close>

definition reload_works :: "pgrep_result \<Rightarrow> (int \<Rightarrow> kill_result) \<Rightarrow> bool" where
  "reload_works pg kl \<longleftrightarrow>
     (case pg of
        PgrepOutput output \<Rightarrow> \<not> Contains (TrimSpace output) [newline] \<and>
          (case Atoi (TrimSpace output) of Some pid \<Rightarrow> kl pid = KillOk | None \<Rightarrow> False)
      | _ \<Rightarrow> False)"

text \<open>EnsureTunnel found stunnel not running and saw it start, with the new file in place.\<close>

definition saw_start :: "ensure_os \<Rightarrow> string \<Rightarrow> stunnel_manager \<Rightarrow> bool" where
  "saw_start os v sm \<longleftrightarrow>
     fmlookup (allocatedPorts sm) v = None \<and> \<not> stunnelStarted sm \<and> \<not> runningBefore os \<and> runningAfterWait os"

text \<open>
  Operations whose file system calls are clean and whose signals get through, the passing of the debounce window, and a
  restart of stunnel. The cleanup of the last tunnel signals before it removes the file.
\<close>

inductive reload_step :: "stunnel_state \<Rightarrow> stunnel_state \<Rightarrow> bool" where
  ensure: "clean_op (Ensure (os, srv, r) v) \<Longrightarrow> EnsureTunnel os v srv r (sm, w) = (res, sm', w') \<Longrightarrow>
    reload_step ((sm, w), loaded) ((sm', w'), if saw_start os v sm \<and> (\<exists>p. res = Inr p) then files w' else loaded)"
| remove: "reload_works (pgrep os) (kill os) \<Longrightarrow> RemoveTunnel os v r (sm, w) = (res, sm', w') \<Longrightarrow>
    reload_step ((sm, w), loaded) ((sm', w'), if sighups w' \<noteq> sighups w then files w else loaded)"
| expire: "reload_works pg kl \<Longrightarrow> debounce_expire pg kl (sm, w) = (sm', w') \<Longrightarrow>
    reload_step ((sm, w), loaded) ((sm', w'), if sighups w' \<noteq> sighups w then files w else loaded)"
| restart: "reload_step ((sm, w), loaded) ((sm, w), files w)"

section \<open>The operations and the timer\<close>

lemma reload_works_signals:
  assumes "reload_works pg kl"
  shows "\<exists>pid. reloadStunnel pg kl w = (Inr (), w\<lparr>sighups := sighups w @ [pid]\<rparr>)"
  using assms reload_one[of _ _ kl w] by (auto simp: reload_works_def split: pgrep_result.splits option.splits)

lemma reload_owed_schedule [simp]: "reload_owed (scheduleDebouncedSIGHUP r sm)"
  by (simp add: reload_owed_def scheduleDebouncedSIGHUP_def)

lemma reload_owed_maps [simp]:
  "reload_owed (restore_port v p sm) = reload_owed sm" "reload_owed (forget_port v p sm) = reload_owed sm"
  by (simp_all add: reload_owed_def restore_port_def forget_port_def)

lemma EnsureTunnel_owes:
  assumes "EnsureTunnel os v srv r (sm, w) = (res, sm', w')"
  shows "case res of Inl e \<Rightarrow> reload_owed sm' = reload_owed sm
    | Inr p \<Rightarrow> sm' = sm \<and> w' = w \<or> reload_owed sm' \<or> saw_start os v sm"
  using assms
  by (auto simp: EnsureTunnel_def ensure_locked_def writeTunnelConfig_def Let_def saw_start_def reload_owed_def
      scheduleDebouncedSIGHUP_def split: if_splits option.splits sum.splits write_result.splits)

lemma single_key_drop:
  assumes "fcard (fmdom m) = 1" "fmlookup m v = Some p"
  shows "fmdrop v m = fmempty"
proof -
  have "card (fmdom' m) = 1" using assms(1) by (simp add: fcard.rep_eq fmdom'_alt_def)
  then obtain x where "fmdom' m = {x}" by (rule card_1_singletonE)
  moreover have "v \<in> fmdom' m" using assms(2) by (simp add: fmlookup_dom'_iff)
  ultimately have "fmlookup m u = None" if "u \<noteq> v" for u
    using that by (metis fmlookup_dom'_iff not_Some_eq singletonD)
  then show ?thesis by (intro fmlookup_eqI) simp
qed

text \<open>How a removal ends for the timer and the signals: nothing happened; another tunnel is left and a reload is owed, or
  the removal failed and the timer is as before; the last tunnel is gone; or its file could not be removed after the
  signal.\<close>

lemma RemoveTunnel_owes:
  assumes "RemoveTunnel os v r (sm, w) = (res, sm', w')" "reload_works (pgrep os) (kill os)"
  shows "sm' = sm \<and> w' = w \<or> reload_owed sm' \<or> reload_owed sm' = reload_owed sm \<and> sighups w' = sighups w \<and> (\<exists>e. res = Inl e) \<or>
    allocatedPorts sm' = fmempty \<or> sighups w' \<noteq> sighups w \<and> files w' = files w"
proof (cases "fmlookup (allocatedPorts sm) v")
  case None
  then show ?thesis using assms(1) by (auto simp: RemoveTunnel_def split: if_splits)
next
  case (Some p)
  obtain pid where rl: "reloadStunnel (pgrep os) (kill os) w = (Inr (), w\<lparr>sighups := sighups w @ [pid]\<rparr>)"
    using reload_works_signals[OF assms(2)] by blast
  show ?thesis
  proof (cases "v = '''' \<or> isTunnelPortInUse (procMounts os) p")
    case True
    then show ?thesis using assms(1) Some by (auto simp: RemoveTunnel_def split: if_splits)
  next
    case use: False
    show ?thesis
    proof (cases "fcard (fmdom (allocatedPorts sm)) = 1")
      case True
      note empty = single_key_drop[OF True Some]
      let ?sm = "((stop_timer (forget_port v p sm))\<lparr>pendingSIGHUP := False\<rparr>)\<lparr>stunnelStarted := False\<rparr>"
      have "remove_config os True v p r (?sm, w\<lparr>sighups := sighups w @ [pid]\<rparr>) = (res, sm', w')"
        using assms(1) Some use True by (simp add: RemoveTunnel_def handleLastTunnelCleanup_def rl Let_def)
      moreover have "allocatedPorts ?sm = fmempty" using empty by (simp add: stop_timer_def forget_port_def)
      ultimately show ?thesis by (auto simp: remove_config_def remove_path_def Let_def split: if_splits)
    next
      case False
      then have "remove_config os False v p r (forget_port v p sm, w) = (res, sm', w')"
        using assms(1) Some use by (simp add: RemoveTunnel_def)
      then show ?thesis by (auto simp: remove_config_def remove_path_def Let_def split: if_splits)
    qed
  qed
qed

lemma debounce_expire_owes:
  assumes "debounce_expire pg kl (sm, w) = (sm', w')" "reload_works pg kl"
  shows "files w' = files w \<and> same_maps sm sm' \<and> same_setup sm sm' \<and> (reload_owed sm \<longrightarrow> sighups w' \<noteq> sighups w) \<and>
    (\<not> reload_owed sm \<longrightarrow> w' = w) \<and> \<not> reload_owed sm'"
proof -
  obtain pid where "reloadStunnel pg kl w = (Inr (), w\<lparr>sighups := sighups w @ [pid]\<rparr>)"
    using reload_works_signals[OF assms(2)] by blast
  then show ?thesis
    using assms(1) by (auto simp: debounce_expire_def debounce_callback_def reload_owed_def same_maps_def same_setup_def
        split: option.splits if_splits)
qed

section \<open>Every allocated tunnel is loaded or about to be\<close>

definition all_loaded :: "stunnel_manager \<Rightarrow> filesys \<Rightarrow> bool" where
  "all_loaded sm loaded \<longleftrightarrow> (\<forall>v p. fmlookup (allocatedPorts sm) v = Some p \<longrightarrow> file_port sm loaded v = Some p)"

definition reload_inv :: "stunnel_state \<Rightarrow> bool" where
  "reload_inv st \<longleftrightarrow> (case st of ((sm, w), loaded) \<Rightarrow> disk_ok (sm, w) \<and> (reload_owed sm \<or> all_loaded sm loaded))"

text \<open>Stunnel that has read the present files knows every allocated tunnel.\<close>

lemma all_loaded_files: "disk_ok (sm, w) \<Longrightarrow> all_loaded sm (files w)"
  by (auto simp: disk_ok_def disk_inv_def all_loaded_def)

lemma all_loaded_same: "same_maps sm sm' \<Longrightarrow> same_setup sm sm' \<Longrightarrow> all_loaded sm loaded \<Longrightarrow> all_loaded sm' loaded"
  by (simp add: all_loaded_def file_port_same same_maps_def)

lemma disk_ok_same: "disk_ok (sm, w) \<Longrightarrow> same_maps sm sm' \<Longrightarrow> same_setup sm sm' \<Longrightarrow> files w' = files w \<Longrightarrow> disk_ok (sm', w')"
  using disk_inv_transfer port_inv_transfer sane_range_same by (auto simp: disk_ok_def)

lemma ensure_reload_inv:
  assumes "reload_inv ((sm, w), loaded)" "clean_op (Ensure (os, srv, r) v)" "EnsureTunnel os v srv r (sm, w) = (res, sm', w')"
  shows "reload_inv ((sm', w'), if saw_start os v sm \<and> (\<exists>p. res = Inr p) then files w' else loaded)"
proof -
  have "disk_ok (sm, w)" using assms(1) by (simp add: reload_inv_def)
  from alloc_step_disk_ok[OF this assms(2)] have ok: "disk_ok (sm', w')" and su: "same_setup sm sm'"
    using assms(3) by (simp_all add: tunnel_ensure_def)
  show ?thesis
  proof (cases res)
    case (Inl e)
    then have "same_maps sm sm'" using assms(3) EnsureTunnel_error by (metis same_maps_def)
    then show ?thesis
      using Inl EnsureTunnel_owes[OF assms(3)] assms(1) ok all_loaded_same[OF _ su] by (auto simp: reload_inv_def)
  next
    case (Inr p)
    then show ?thesis
      using EnsureTunnel_owes[OF assms(3)] assms(1) ok all_loaded_files[OF ok] by (auto simp: reload_inv_def)
  qed
qed

lemma remove_reload_inv:
  assumes "reload_inv ((sm, w), loaded)" "reload_works (pgrep os) (kill os)" "RemoveTunnel os v r (sm, w) = (res, sm', w')"
  shows "reload_inv ((sm', w'), if sighups w' \<noteq> sighups w then files w else loaded)"
proof -
  have "disk_ok (sm, w)" using assms(1) by (simp add: reload_inv_def)
  have "clean_op (Remove (os, r) v)" by (simp add: clean_op_def)
  from alloc_step_disk_ok[OF \<open>disk_ok (sm, w)\<close> this] have ok: "disk_ok (sm', w')" and su: "same_setup sm sm'"
    using assms(3) by (simp_all add: tunnel_remove_def)
  have inv: "port_inv sm" using \<open>disk_ok (sm, w)\<close> by (simp add: disk_ok_def)
  have failed: "same_maps sm sm'" if "res = Inl e" for e
    by (rule RemoveTunnel_cases[OF assms(3) inv]) (use that in auto)
  from RemoveTunnel_owes[OF assms(3,2)] show ?thesis
  proof (elim disjE conjE exE)
    fix e
    assume "res = Inl e" "reload_owed sm' = reload_owed sm" "sighups w' = sighups w"
    then show ?thesis using failed assms(1) ok all_loaded_same[OF _ su] by (auto simp: reload_inv_def)
  qed (use assms(1) ok all_loaded_files[OF ok] in \<open>auto simp: reload_inv_def all_loaded_def\<close>)
qed

lemma reload_step_inv:
  assumes "reload_step st st'" "reload_inv st"
  shows "reload_inv st'"
  using assms
proof (induction rule: reload_step.induct)
  case (expire pg kl sm w sm' w' loaded)
  note owes = debounce_expire_owes[OF expire(2,1)]
  have ok: "disk_ok (sm', w')" using owes expire(3) disk_ok_same by (auto simp: reload_inv_def)
  then show ?case
    using owes expire(3) all_loaded_files[OF ok] all_loaded_same[of sm sm' loaded] by (auto simp: reload_inv_def)
next
  case (restart sm w loaded)
  then show ?case using all_loaded_files by (simp add: reload_inv_def)
qed (rule ensure_reload_inv remove_reload_inv; assumption)+

interpretation reload: step_system reload_step reload_inv
  by unfold_locales (rule reload_step_inv)

text \<open>C9: every tunnel becomes known to stunnel. Take any sequence of EnsureTunnel and RemoveTunnel calls, passing debounce
  windows and restarts of stunnel, in which no write stops half way and the signals get through. Then every volume that
  holds a port has a service with that port among what stunnel has read, or a reload is owed; and when the debounce
  window passes, stunnel has read the services of all of them.\<close>

theorem tunnels_become_loaded:
  assumes "disk_ok (sm, w)" "allocatedPorts sm = fmempty \<or> loaded = files w" "reload_step\<^sup>*\<^sup>* ((sm, w), loaded) ((sm', w'), loaded')"
    "reload_works pg kl" "debounce_expire pg kl (sm', w') = (sm2, w2)" "fmlookup (allocatedPorts sm') v = Some p"
  shows "(reload_owed sm' \<or> file_port sm' loaded' v = Some p) \<and>
    file_port sm2 (if sighups w2 \<noteq> sighups w' then files w' else loaded') v = Some p \<and> fmlookup (allocatedPorts sm2) v = Some p"
proof -
  have "reload_inv ((sm, w), loaded)"
    using assms(1,2) all_loaded_files by (auto simp: reload_inv_def all_loaded_def)
  with assms(3) have inv: "reload_inv ((sm', w'), loaded')" by (rule reload.run_keeps)
  have step: "reload_step ((sm', w'), loaded') ((sm2, w2), if sighups w2 \<noteq> sighups w' then files w' else loaded')"
    using assms(4,5) by (rule reload_step.expire)
  note owes = debounce_expire_owes[OF assms(5,4)]
  from reload_step_inv[OF step inv] owes
  have "all_loaded sm2 (if sighups w2 \<noteq> sighups w' then files w' else loaded')" by (auto simp: reload_inv_def)
  moreover have "fmlookup (allocatedPorts sm2) v = Some p" using owes assms(6) by (simp add: same_maps_def)
  ultimately show ?thesis using inv assms(6) by (auto simp: reload_inv_def all_loaded_def)
qed

section \<open>A reload that is lost\<close>

text \<open>C38: a failed cleanup loses the reload. When the only tunnel is to be removed and stunnel cannot be signalled,
  RemoveTunnel reports an error and keeps the tunnel, but the timer is stopped: no reload is owed any more, the passing
  of the debounce window does nothing, and asking for the tunnel again returns its port without scheduling one. If
  stunnel had not read the service before, it does not read it now.\<close>

theorem failed_cleanup_loses_reload:
  assumes "v \<noteq> ''''" "srv \<noteq> ''''" "fmlookup (allocatedPorts sm) v = Some p" "fmlookup (portToVolume sm) p = Some v"
    "fcard (fmdom (allocatedPorts sm)) = 1" "\<not> isTunnelPortInUse (procMounts os) p"
    "reloadStunnel (pgrep os) (kill os) w = (Inl e, w)"
  shows "\<exists>sm'. RemoveTunnel os v r (sm, w) = (Inl (LastTunnelSIGHUPFailed e), sm', w) \<and>
    same_maps sm sm' \<and> \<not> reload_owed sm' \<and> EnsureTunnel os' v srv r' (sm', w) = (Inr p, sm', w) \<and>
    snd (debounce_expire pg kl (sm', w)) = w"
proof -
  let ?sm = "restore_port v p ((stop_timer (forget_port v p sm))\<lparr>pendingSIGHUP := False\<rparr>)"
  have r: "RemoveTunnel os v r (sm, w) = (Inl (LastTunnelSIGHUPFailed e), ?sm, w)"
    using assms by (simp add: RemoveTunnel_def handleLastTunnelCleanup_def Let_def)
  have m: "same_maps sm ?sm"
    using restore_forget[OF assms(3,4)] by (simp add: same_maps_def restore_port_def stop_timer_def)
  have o: "\<not> reload_owed ?sm" by (simp add: reload_owed_def restore_port_def)
  have "EnsureTunnel os' v srv r' (?sm, w) = (Inr p, ?sm, w)"
    using assms(1,2) by (simp add: EnsureTunnel_def restore_port_def)
  moreover have "snd (debounce_expire pg kl (?sm, w)) = w"
    by (auto simp: debounce_expire_def debounce_callback_def restore_port_def stop_timer_def split: option.splits)
  ultimately show ?thesis using r m o by blast
qed

text \<open>So does a restart of the node server while stunnel goes on: the new manager finds the tunnel of a service file that
  stunnel has not read yet, owes no reload, and returns the port when the tunnel is asked for.\<close>

lemma restart_loses_reload:
  assumes "NewStunnelManager False env statOk faults dirErr fs = Inr sm" "fmlookup (allocatedPorts sm) v = Some p" "v \<noteq> ''''" "srv \<noteq> ''''"
  shows "\<not> reload_owed sm \<and> EnsureTunnel os v srv r (sm, w) = (Inr p, sm, w) \<and> debounce_expire pg kl (sm, w) = (sm, w)"
proof -
  obtain ca host where "sm = snd (recoverExistingTunnels faults dirErr fs (fresh_manager ca host))"
    using assms(1) by (auto simp: NewStunnelManager_def split: sum.splits if_splits)
  then have "pendingSIGHUP sm = False" "debounceTimer sm = None"
    by (auto simp: recoverExistingTunnels_def recover_loop_eq fresh_manager_def split: option.splits node.splits)
  then show ?thesis using assms(2-4) by (simp add: reload_owed_def EnsureTunnel_def debounce_expire_def)
qed

section \<open>Concrete runs\<close>

text \<open>The first tunnel on a node where stunnel runs.\<close>

definition first_sm :: stunnel_manager where
  "first_sm = scheduleDebouncedSIGHUP ''r'' ((restore_port ''v1'' 11300 demo_sm)\<lparr>stunnelStarted := True\<rparr>)"

definition first_world :: world where
  "first_world = demo_world\<lparr>files := fmupd (config_path demo_sm ''v1'') (File (buildTunnelConfig demo_sm ''v1'' ''10.0.0.1'' 11300)) (files demo_world)\<rparr>"

lemma first_ensure: "EnsureTunnel demo_os ''v1'' ''10.0.0.1'' ''r'' (demo_sm, demo_world) = (Inr 11300, first_sm, first_world)"
  using ensure_locked_new[OF _ demo_find, of "''v1''" "''10.0.0.1''" "''r''" demo_world]
  by (simp add: EnsureTunnel_def first_sm_def first_world_def)

lemma first_sels [simp]:
  "fmlookup (allocatedPorts first_sm) ''v1'' = Some 11300" "fmlookup (portToVolume first_sm) 11300 = Some ''v1''"
  "fcard (fmdom (allocatedPorts first_sm)) = 1" "reload_owed first_sm"
  by (simp_all add: first_sm_def schedule_sels reload_owed_def fcard.rep_eq)

theorem tunnels_become_loaded_witness:
  "\<exists>sm2 w2. debounce_expire (PgrepOutput ''42'') (\<lambda>_. KillOk) (first_sm, first_world) = (sm2, w2) \<and>
     file_port sm2 (if sighups w2 \<noteq> sighups first_world then files first_world else files demo_world) ''v1'' = Some 11300"
proof -
  obtain sm2 w2 where e: "debounce_expire (PgrepOutput ''42'') (\<lambda>_. KillOk) (first_sm, first_world) = (sm2, w2)" by (metis prod.exhaust)
  have "TrimSpace ''42'' = ''42''" "Atoi ''42'' = Some 42" by code_simp+
  then have works: "reload_works (PgrepOutput ''42'') (\<lambda>_. KillOk)" by (simp add: reload_works_def newline_def)
  have "good_volume_id ''v1''" by (rule good_id_intro) (simp_all add: newline_def)
  then have "clean_op (Ensure (demo_os, ''10.0.0.1'', ''r'') ''v1'')" by (simp add: clean_op_def)
  from reload_step.ensure[OF this first_ensure, of "files demo_world"]
  have "reload_step\<^sup>*\<^sup>* ((demo_sm, demo_world), files demo_world) ((first_sm, first_world), files demo_world)"
    by (simp add: saw_start_def)
  from tunnels_become_loaded[OF demo_disk_ok _ this works e first_sels(1)] e show ?thesis by simp
qed

theorem failed_cleanup_loses_reload_witness:
  "\<exists>sm'. RemoveTunnel \<lparr>procMounts = Some [], pgrep = PgrepTimeout, kill = (\<lambda>_. KillOk), removeOk = True\<rparr> ''v1'' ''r'' (first_sm, first_world) =
       (Inl (LastTunnelSIGHUPFailed PgrepTimedOut), sm', first_world) \<and> reload_owed first_sm \<and> \<not> reload_owed sm' \<and>
     EnsureTunnel demo_os ''v1'' ''10.0.0.1'' ''r2'' (sm', first_world) = (Inr 11300, sm', first_world)"
proof -
  let ?os = "\<lparr>procMounts = Some [], pgrep = PgrepTimeout, kill = (\<lambda>_. KillOk), removeOk = True\<rparr>"
  have "reloadStunnel (pgrep ?os) (kill ?os) first_world = (Inl PgrepTimedOut, first_world)" by (simp add: reloadStunnel_def)
  from failed_cleanup_loses_reload[OF _ _ first_sels(1-3) _ this, of "''10.0.0.1''" "''r''" demo_os "''r2''" PgrepTimeout "\<lambda>_. KillOk"]
  show ?thesis using not_in_use_empty by auto
qed

end
