(* ===== verification/Constants.thy ===== *)
theory Constants
  imports Go_Text
begin

text \<open>
  The constants of \<open>pkg/ibmcsidriver/constants.go\<close> and \<open>config/driver-config.go\<close>: the names of the storage class
  parameters and of the labels of a volume, the length limits and the values the driver compares with.
  The collection \<open>key_defs\<close> holds the definitions of the strings that appear as map keys.
\<close>

named_theorems key_defs "names of parameters and labels"

section \<open>constants.go\<close>

definition Profile :: string where
  "Profile = ''profile''"

definition IopsPerGB :: string where
  "IopsPerGB = ''iopsPerGB''"

definition SizeIopsRange :: string where
  "SizeIopsRange = ''sizeIOPSRange''"

definition IOPS :: string where
  "IOPS = ''iops''"

definition Throughput :: string where
  "Throughput = ''throughput''"

definition SizeRangeSupported :: string where
  "SizeRangeSupported = ''sizeRange''"

definition BillingType :: string where
  "BillingType = ''billingType''"

definition Encrypted :: string where
  "Encrypted = ''encrypted''"

definition EncryptionKey :: string where
  "EncryptionKey = ''encryptionKey''"

definition ResourceGroup :: string where
  "ResourceGroup = ''resourceGroup''"

definition Zone :: string where
  "Zone = ''zone''"

definition Region :: string where
  "Region = ''region''"

definition Tag :: string where
  "Tag = ''tags''"

definition DP2Profile :: string where
  "DP2Profile = ''dp2''"

definition RFSProfile :: string where
  "RFSProfile = ''rfs''"

definition ClassVersion :: string where
  "ClassVersion = ''classVersion''"

definition TrueStr :: string where
  "TrueStr = ''true''"

definition FalseStr :: string where
  "FalseStr = ''false''"

definition EncryptionKeyMaxLen :: nat where
  "EncryptionKeyMaxLen = 256"

definition ProfileNameMaxLen :: nat where
  "ProfileNameMaxLen = 63"

definition ResourceGroupIDMaxLen :: nat where
  "ResourceGroupIDMaxLen = 32"

definition TagMaxLen :: nat where
  "TagMaxLen = 128"

definition ZoneNameMaxLen :: nat where
  "ZoneNameMaxLen = 63"

definition RegionMaxLen :: nat where
  "RegionMaxLen = ZoneNameMaxLen"

definition VolumeIDLabel :: string where
  "VolumeIDLabel = ''volumeId''"

definition FileShareIDLabel :: string where
  "FileShareIDLabel = ''fileShareId''"

definition FileShareTargetIDLabel :: string where
  "FileShareTargetIDLabel = ''fileShareTargetId''"

definition ENISubnetID :: string where
  "ENISubnetID = ''ENISubnetId''"

definition ProfileLabel :: string where
  "ProfileLabel = ''profile''"

definition ENISecurityGroupIDs :: string where
  "ENISecurityGroupIDs = ''ENISecurityGroupIds''"

definition VolumeIDSeperator :: string where
  "VolumeIDSeperator = ''#''"

definition DeprecatedVolumeIDSeperator :: string where
  "DeprecatedVolumeIDSeperator = '':''"

definition VolumeCRNLabel :: string where
  "VolumeCRNLabel = ''volumeCRN''"

definition VolumeHrefLabel :: string where
  "VolumeHrefLabel = ''volumeHref''"

definition ClusterIDLabel :: string where
  "ClusterIDLabel = ''clusterID''"

definition NFSServerPath :: string where
  "NFSServerPath = ''nfsServerPath''"

definition AccessPointID :: string where
  "AccessPointID = ''accessPointID''"

definition IOPSLabel :: string where
  "IOPSLabel = ''iops''"

definition ThroughputLabel :: string where
  "ThroughputLabel = ''throughput''"

definition ZoneLabel :: string where
  "ZoneLabel = ''zone''"

definition Generation :: string where
  "Generation = ''generation''"

definition UID :: string where
  "UID = ''uid''"

definition GID :: string where
  "GID = ''gid''"

definition SecurityGroup :: string where
  "SecurityGroup = ''security_group''"

definition EncryptionTransitMode :: string where
  "EncryptionTransitMode = ''user_managed''"

definition IPSEC :: string where
  "IPSEC = ''ipsec''"

definition STUNNEL :: string where
  "STUNNEL = ''stunnel''"

definition NONE :: string where
  "NONE = ''none''"

definition VPC :: string where
  "VPC = ''vpc''"

definition IsENIEnabled :: string where
  "IsENIEnabled = ''isENIEnabled''"

definition IsEITEnabled :: string where
  "IsEITEnabled = ''isEITEnabled''"

definition SecurityGroupIDs :: string where
  "SecurityGroupIDs = ''securityGroupIDs''"

definition PrimaryIPID :: string where
  "PrimaryIPID = ''primaryIPID''"

definition PrimaryIPAddress :: string where
  "PrimaryIPAddress = ''primaryIPAddress''"

definition SubnetID :: string where
  "SubnetID = ''subnetID''"

definition VMState :: string where
  "VMState = ''vmState''"

definition ConfigmapName :: string where
  "ConfigmapName = ''ibm-cloud-provider-data''"

definition ConfigmapNamespace :: string where
  "ConfigmapNamespace = ''kube-system''"

definition ConfigmapDataKey :: string where
  "ConfigmapDataKey = ''vpc_subnet_ids''"

definition SupportedFS :: "string list" where
  "SupportedFS = [''nfs'']"

definition SupportedProfile :: "string list" where
  "SupportedProfile = [''dp2'', ''rfs'']"

section \<open>driver-config.go\<close>

definition CSIDriverName :: string where
  "CSIDriverName = ''vpc.file.csi.ibm.io''"

definition CSISocketName :: string where
  "CSISocketName = ''unix:/tmp/csi-vpc-file.sock''"

definition CSIDriverLogName :: string where
  "CSIDriverLogName = ''IBM VPC file driver''"

definition CSIDriverGithubName :: string where
  "CSIDriverGithubName = ''ibm-vpc-file-csi-driver''"

definition CSIProviderName :: string where
  "CSIProviderName = ''VPC''"

definition CSIProviderVolumeType :: string where
  "CSIProviderVolumeType = ''file''"

section \<open>Collections\<close>

lemmas [key_defs] =
  Profile_def IopsPerGB_def SizeIopsRange_def IOPS_def Throughput_def SizeRangeSupported_def BillingType_def
  Encrypted_def EncryptionKey_def ResourceGroup_def Zone_def Region_def Tag_def DP2Profile_def RFSProfile_def
  ClassVersion_def TrueStr_def FalseStr_def VolumeIDLabel_def FileShareIDLabel_def FileShareTargetIDLabel_def
  ENISubnetID_def ProfileLabel_def ENISecurityGroupIDs_def VolumeIDSeperator_def
  DeprecatedVolumeIDSeperator_def VolumeCRNLabel_def VolumeHrefLabel_def ClusterIDLabel_def NFSServerPath_def
  AccessPointID_def IOPSLabel_def ThroughputLabel_def ZoneLabel_def Generation_def UID_def GID_def
  SecurityGroup_def EncryptionTransitMode_def IPSEC_def STUNNEL_def NONE_def VPC_def IsENIEnabled_def
  IsEITEnabled_def SecurityGroupIDs_def PrimaryIPID_def PrimaryIPAddress_def SubnetID_def VMState_def
  ConfigmapName_def ConfigmapNamespace_def ConfigmapDataKey_def

lemmas limit_defs = EncryptionKeyMaxLen_def ProfileNameMaxLen_def ResourceGroupIDMaxLen_def TagMaxLen_def ZoneNameMaxLen_def RegionMaxLen_def

end
