(* ===== verification/Provider.thy ===== *)
theory Provider
  imports Constants
begin

text \<open>
  The interfaces the driver calls and does not define: the messages of the CSI specification, the volume
  interface of the cloud provider with its session, and the helpers of \<open>ibm-csi-common\<close>. Only the fields and
  operations the driver uses appear. Code that is not part of the repository is a field of the records
  \<open>utils\<close> and \<open>session\<close>, an argument of every definition that calls it; what the driver relies on is a predicate
  over these records. A Go pointer is an option, an embedded struct is flattened into its owner (its fields are
  promoted), and the (value, error) pair of a provider call is kept as a pair, since the driver tests its two
  halves separately. A repeated protobuf message has no nil elements.
\<close>

section \<open>Messages of the CSI specification\<close>

datatype access_mode =
    ModeUnknown
  | SINGLE_NODE_WRITER
  | SINGLE_NODE_READER_ONLY
  | MULTI_NODE_READER_ONLY
  | MULTI_NODE_SINGLE_WRITER
  | MULTI_NODE_MULTI_WRITER
  | SINGLE_NODE_SINGLE_WRITER
  | SINGLE_NODE_MULTI_WRITER

text \<open>The access type of a capability: a mount with its flags, a block device, or unset.\<close>

datatype access_type = MountType "string list" | BlockType | NoAccessType

record volume_capability =
  capMode :: "access_mode option"
  capType :: access_type

definition GetMode :: "volume_capability \<Rightarrow> access_mode" where
  "GetMode c = (case capMode c of None \<Rightarrow> ModeUnknown | Some m \<Rightarrow> m)"

record capacity_range =
  requiredBytes :: int
  limitBytes :: int

datatype content_source = SnapshotSource "string option" | OtherSource

record create_request =
  reqName :: string
  reqCaps :: "volume_capability list"
  reqParams :: "(string \<times> string) list"
  reqSecrets :: "(string \<times> string) list"
  reqRange :: "capacity_range option"
  reqSource :: "content_source option"
  reqPreferred :: "(string, string) fmap option list"

section \<open>The provider's volumes\<close>

record primary_ip =
  ipID :: string
  ipAddress :: string

record initial_owner =
  GroupID :: int
  UserID :: int

record volume =
  volName :: "string option"
  volID :: string
  volAz :: string
  volRegion :: string
  volCapacity :: "int option"
  volIops :: "string option"
  volOwner :: "initial_owner option"
  volCRN :: string
  volHref :: string
  volSnapshotID :: string
  volSnapshotCRN :: string
  volVPCID :: string
  volAccessPoints :: "string list option"
  volProfile :: "string option"
  volTags :: "string list"
  volSecurityGroups :: "string list option"
  volPrimaryIP :: "primary_ip option"
  volSubnetID :: string
  volAccessControlMode :: string
  volTransitEncryption :: string
  volResourceGroup :: "string option"
  volEncryptionKey :: "string option"
  volBandwidth :: int

text \<open>The zero value \<open>provider.Volume{}\<close>.\<close>

definition empty_volume :: volume where
  "empty_volume =
     \<lparr>volName = None, volID = [], volAz = [], volRegion = [], volCapacity = None, volIops = None,
      volOwner = None, volCRN = [], volHref = [], volSnapshotID = [], volSnapshotCRN = [], volVPCID = [],
      volAccessPoints = None, volProfile = None, volTags = [], volSecurityGroups = None, volPrimaryIP = None,
      volSubnetID = [], volAccessControlMode = [], volTransitEncryption = [], volResourceGroup = None,
      volEncryptionKey = None, volBandwidth = 0\<rparr>"

record access_point_request =
  aprVolumeID :: string
  aprAccessPointID :: string
  aprVPCID :: string
  aprMode :: string
  aprSecurityGroups :: "string list option"
  aprResourceGroup :: "string option"
  aprPrimaryIP :: "primary_ip option"
  aprSubnetID :: string

definition access_point_request :: "string \<Rightarrow> string \<Rightarrow> access_point_request" where
  "access_point_request v ap =
     \<lparr>aprVolumeID = v, aprAccessPointID = ap, aprVPCID = [], aprMode = [], aprSecurityGroups = None,
      aprResourceGroup = None, aprPrimaryIP = None, aprSubnetID = []\<rparr>"

record access_point_response =
  apAccessPointID :: string
  apMountPath :: string

record subnet_request =
  snList :: string
  snZone :: string
  snVPCID :: string
  snResourceGroup :: "string option"

record security_group_request =
  sgName :: string
  sgVPCID :: string
  sgResourceGroup :: "string option"

record snapshot =
  snapID :: string
  snapCRN :: string
  snapVolumeID :: string
  snapSize :: int
  snapCreated :: int
  snapReady :: bool

section \<open>Errors\<close>

text \<open>
  A provider error either has the dynamic type \<open>providerError.Message\<close>, with its code, or any other type.
\<close>

datatype provider_error = Message string | OtherError string

datatype error_type = EntityNotFound | RetrivalFailed | OtherErrorType

datatype csi_code =
    MissingVolumeName
  | NoVolumeCapabilities
  | VolumeCapabilitiesNotSupported
  | InvalidParameters
  | ProfileNotAllowlisted
  | InternalError
  | UnsupportedVolumeContentSource
  | VolumeInvalidArguments
  | VolumeAlreadyExists
  | SubnetIDListNotFound
  | ObjectNotFound
  | EmptyVolumeID
  | FailedPrecondition
  | StartVolumeIDNotFound
  | MethodUnsupported
  | MethodUnimplemented
  | MissingSnapshotName
  | MissingSourceVolumeID
  | SnapshotAlreadyExists
  | EmptySnapshotID
  | NoTargetPath
  | NoStagingTargetPath
  | EmptyVolumePath
  | DevicePathNotExists
  | GetFSInfoFailed
  | MountPointValidateError
  | TargetPathCreateFailed
  | UnmountFailed
  | MountingTargetFailed
  | MetadataServiceNotEnabled
  | UnresponsiveMountHelperContainerUtility
  | NodeMetadataInitFailed
  | DriverNotConfigured

datatype csi_error = CSIError csi_code | BackendError "provider_error option"

section \<open>Parameters\<close>

record utils =
  GiB :: int
  GB :: int
  MinimumVolumeSizeInBytes :: int
  RoundUpBytes :: "int \<Rightarrow> int"
  BytesToGiB :: "int \<Rightarrow> int"
  ListContainsSubstr :: "string list \<Rightarrow> string \<Rightarrow> bool"
  NodeRegionLabel :: string
  NodeZoneLabel :: string
  GetErrorType :: "provider_error \<Rightarrow> error_type"

text \<open>
  What the driver relies on: sizes are rounded up to the next multiple of a GiB as long as the sum of the size
  and a GiB fits in 64 bits (nothing is known above); a size of zero stays zero or becomes one GiB; a multiple of a GiB converts to its number of GiB; the least volume size is such a
  multiple.
\<close>

definition max_request :: int where
  "max_request = 2 ^ 63 - 2 ^ 30"

definition utils_ok :: "utils \<Rightarrow> bool" where
  "utils_ok U \<longleftrightarrow>
     GiB U = 2 ^ 30 \<and> MinimumVolumeSizeInBytes U = 10 * GiB U \<and>
     RoundUpBytes U 0 \<in> {0, GiB U} \<and>
     (\<forall>x. 0 < x \<and> x \<le> max_request \<longrightarrow> GiB U dvd RoundUpBytes U x \<and> x \<le> RoundUpBytes U x \<and> RoundUpBytes U x < x + GiB U) \<and>
     (\<forall>n. 0 \<le> n \<and> n * GiB U < 2 ^ 63 \<longrightarrow> BytesToGiB U (n * GiB U) = n)"

text \<open>One session with the provider; \<open>'s\<close> is the state of the cloud account behind it.\<close>

record 's session =
  sGetVolumeByName :: "string \<Rightarrow> 's \<Rightarrow> (volume option \<times> provider_error option) \<times> 's"
  sGetVolume :: "string \<Rightarrow> 's \<Rightarrow> (volume option \<times> provider_error option) \<times> 's"
  sCreateVolume :: "volume \<Rightarrow> 's \<Rightarrow> (volume option \<times> provider_error option) \<times> 's"
  sDeleteVolume :: "volume \<Rightarrow> 's \<Rightarrow> provider_error option \<times> 's"
  sExpandVolume :: "string \<Rightarrow> int \<Rightarrow> 's \<Rightarrow> (int \<times> provider_error option) \<times> 's"
  sListVolumes :: "int \<Rightarrow> string \<Rightarrow> 's \<Rightarrow> ((volume list \<times> string) option \<times> provider_error option) \<times> 's"
  sGetSubnet :: "subnet_request \<Rightarrow> 's \<Rightarrow> (string \<times> provider_error option) \<times> 's"
  sGetSecurityGroup :: "security_group_request \<Rightarrow> 's \<Rightarrow> (string \<times> provider_error option) \<times> 's"
  sCreateAccessPoint :: "access_point_request \<Rightarrow> 's \<Rightarrow> (access_point_response option \<times> provider_error option) \<times> 's"
  sWaitForCreateAccessPoint :: "access_point_request \<Rightarrow> 's \<Rightarrow> (access_point_response option \<times> provider_error option) \<times> 's"
  sDeleteAccessPoint :: "access_point_request \<Rightarrow> 's \<Rightarrow> provider_error option \<times> 's"
  sWaitForDeleteAccessPoint :: "access_point_request \<Rightarrow> 's \<Rightarrow> provider_error option \<times> 's"
  sGetSnapshotByName :: "string \<Rightarrow> string \<Rightarrow> 's \<Rightarrow> (snapshot option \<times> provider_error option) \<times> 's"
  sGetSnapshot :: "string \<Rightarrow> string \<Rightarrow> 's \<Rightarrow> (snapshot option \<times> provider_error option) \<times> 's"
  sCreateSnapshot :: "string \<Rightarrow> string \<Rightarrow> 's \<Rightarrow> (snapshot option \<times> provider_error option) \<times> 's"
  sDeleteSnapshot :: "snapshot \<Rightarrow> 's \<Rightarrow> provider_error option \<times> 's"
  sListSnapshots :: "int \<Rightarrow> string \<Rightarrow> (string \<times> string) list \<Rightarrow> 's \<Rightarrow> ((snapshot list \<times> string) option \<times> provider_error option) \<times> 's"

text \<open>A provider call that reports no error returns an object.\<close>

definition answers :: "('a option \<times> provider_error option) \<times> 's \<Rightarrow> bool" where
  "answers r \<longleftrightarrow> snd (fst r) = None \<longrightarrow> fst (fst r) \<noteq> None"

definition session_ok :: "'s session \<Rightarrow> bool" where
  "session_ok S \<longleftrightarrow>
     (\<forall>v s. answers (sCreateVolume S v s)) \<and> (\<forall>r s. answers (sCreateAccessPoint S r s)) \<and>
     (\<forall>r s. answers (sWaitForCreateAccessPoint S r s)) \<and> (\<forall>v n s. answers (sCreateSnapshot S v n s)) \<and>
     (\<forall>n t s. answers (sListVolumes S n t s)) \<and> (\<forall>n t m s. answers (sListSnapshots S n t m s))"

text \<open>
  The cloud provider: configuration, cluster and sessions (\<open>Inl\<close> when none can be opened). \<open>GetConfig\<close> returns a
  pointer, whose \<open>VPC\<close> part is a pointer again; \<open>None\<close> is nil. \<open>config_group\<close> is the expression
  \<open>config.VPC.G2ResourceGroupID\<close>, with \<open>None\<close> when it dereferences nil.
\<close>

record vpc_config =
  G2ResourceGroupID :: string

record provider_config =
  cfgVPC :: "vpc_config option"

definition config_group :: "provider_config option \<Rightarrow> string option" where
  "config_group config = (case config of None \<Rightarrow> None | Some c \<Rightarrow> map_option G2ResourceGroupID (cfgVPC c))"

record 's provider =
  GetConfig :: "provider_config option"
  GetClusterID :: string
  GetProviderSession :: "provider_error + 's session"

section \<open>A concrete instance\<close>

definition demo_config :: "provider_config option" where
  "demo_config = Some \<lparr>cfgVPC = Some \<lparr>G2ResourceGroupID = ''g''\<rparr>\<rparr>"

definition demo_utils :: utils where
  "demo_utils =
     \<lparr>GiB = 2 ^ 30, GB = 2 ^ 30, MinimumVolumeSizeInBytes = 10 * 2 ^ 30,
      RoundUpBytes = (\<lambda>x. if x = 0 then 2 ^ 30 else i64 ((x + 2 ^ 30 - 1) div 2 ^ 30 * 2 ^ 30)), BytesToGiB = (\<lambda>x. x div 2 ^ 30),
      ListContainsSubstr = (\<lambda>xs s. s \<in> set xs), NodeRegionLabel = ''topology.kubernetes.io/region'',
      NodeZoneLabel = ''topology.kubernetes.io/zone'',
      GetErrorType = (\<lambda>e. if e = Message ''not_found'' then RetrivalFailed else OtherErrorType)\<rparr>"

lemma demo_utils_ok: "utils_ok demo_utils"
proof -
  let ?up = "\<lambda>x :: int. (x + 1073741823) div 1073741824 * 1073741824"
  have up: "x \<le> ?up x \<and> ?up x < x + 1073741824" for x :: int
    using div_mult_mod_eq[of "x + 1073741823" 1073741824] pos_mod_bound[of 1073741824 "x + 1073741823"]
      pos_mod_sign[of 1073741824 "x + 1073741823"] by linarith
  have "i64 (?up x) = ?up x" if "0 < x" "x \<le> max_request" for x
    using up[of x] that by (intro i64_id) (auto simp: max_request_def)
  then show ?thesis using up unfolding utils_ok_def demo_utils_def by (simp add: algebra_simps)
qed

end
