(* ===== verification/Volume_Params.thy ===== *)
theory Volume_Params
  imports Provider
begin

text \<open>
  The first half of \<open>pkg/ibmcsidriver/controller_helper.go\<close>: from a CreateVolume request to a validated provider
  volume. Go iterates over a map in an order of its own; \<open>reqParams\<close> and \<open>reqSecrets\<close> list the entries in the order
  of one iteration, and the main result is that the order does not matter.
\<close>

section \<open>Capacity\<close>

record class_range =
  minSize :: int
  maxSize :: int
  minIops :: int
  maxIops :: int

definition customCapacityIopsRanges :: "class_range list" where
  "customCapacityIopsRanges =
     [\<lparr>minSize = 10, maxSize = 39, minIops = 100, maxIops = 1000\<rparr>,
      \<lparr>minSize = 40, maxSize = 79, minIops = 100, maxIops = 2000\<rparr>,
      \<lparr>minSize = 80, maxSize = 99, minIops = 100, maxIops = 4000\<rparr>,
      \<lparr>minSize = 100, maxSize = 499, minIops = 100, maxIops = 6000\<rparr>,
      \<lparr>minSize = 500, maxSize = 999, minIops = 100, maxIops = 10000\<rparr>,
      \<lparr>minSize = 1000, maxSize = 1999, minIops = 100, maxIops = 20000\<rparr>]"

definition dp2CapacityIopsRanges :: "class_range list" where
  "dp2CapacityIopsRanges =
     [\<lparr>minSize = 10, maxSize = 39, minIops = 100, maxIops = 1000\<rparr>,
      \<lparr>minSize = 40, maxSize = 79, minIops = 100, maxIops = 2000\<rparr>,
      \<lparr>minSize = 80, maxSize = 99, minIops = 100, maxIops = 4000\<rparr>,
      \<lparr>minSize = 100, maxSize = 499, minIops = 100, maxIops = 6000\<rparr>,
      \<lparr>minSize = 500, maxSize = 999, minIops = 100, maxIops = 10000\<rparr>,
      \<lparr>minSize = 1000, maxSize = 1999, minIops = 100, maxIops = 20000\<rparr>,
      \<lparr>minSize = 2000, maxSize = 3999, minIops = 200, maxIops = 40000\<rparr>,
      \<lparr>minSize = 4000, maxSize = 7999, minIops = 300, maxIops = 40000\<rparr>,
      \<lparr>minSize = 8000, maxSize = 15999, minIops = 500, maxIops = 64000\<rparr>,
      \<lparr>minSize = 16000, maxSize = 32000, minIops = 2000, maxIops = 96000\<rparr>]"

datatype param_error =
    LimitBelowRequired int int
  | LimitBelowMinimum int
  | UnsupportedProfile string
  | ExceedsLength string nat
  | NotBoolean string string
  | NotInt32 string string
  | InvalidOwner string string
  | NotANumber string string
  | InvalidParameter string
  | BothPrimaryIPs string string
  | EmptyProfile
  | InvalidCapacity param_error
  | EmptyCapabilities
  | ZoneAndRegionMandatory
  | SubnetMandatory string
  | ENIRequiredForEIT
  | BandwidthNotSupported
  | IopsNotSupported
  | ZoneNotSupported
  | NoZoneInformation
  | InvalidProfile string
  | InvalidSize int
  | InvalidIops int int int int

definition MinimumRFSVolumeSizeInBytes :: "utils \<Rightarrow> int" where
  "MinimumRFSVolumeSizeInBytes U = 1 * GiB U"

definition getRequestedCapacity :: "utils \<Rightarrow> capacity_range option \<Rightarrow> string \<Rightarrow> param_error + int" where
  "getRequestedCapacity U capRange profileName =
     (case capRange of
        None \<Rightarrow> Inr (if profileName = RFSProfile then MinimumRFSVolumeSizeInBytes U else MinimumVolumeSizeInBytes U)
      | Some r \<Rightarrow>
          (let rBytes = requiredBytes r; rSet = rBytes > 0; lBytes = limitBytes r; lSet = lBytes > 0
           in if lSet \<and> rSet \<and> lBytes < rBytes then Inl (LimitBelowRequired lBytes rBytes)
              else if lSet \<and> lBytes < MinimumVolumeSizeInBytes U then Inl (LimitBelowMinimum lBytes)
              else (let capBytes = RoundUpBytes U (if rSet then rBytes else 0)
                    in Inr (if capBytes < MinimumVolumeSizeInBytes U \<and> profileName \<noteq> RFSProfile
                            then MinimumVolumeSizeInBytes U else capBytes))))"

fun find_range :: "class_range list \<Rightarrow> int \<Rightarrow> class_range option" where
  "find_range [] sz = None"
| "find_range (entry # rest) sz =
     (if sz \<ge> minSize entry \<and> sz \<le> maxSize entry then Some entry else find_range rest sz)"

definition isValidCapacityIOPS :: "int \<Rightarrow> int \<Rightarrow> string \<Rightarrow> param_error + bool" where
  "isValidCapacityIOPS sz iops profile =
     (if profile \<noteq> DP2Profile then Inl (InvalidProfile profile)
      else case find_range dp2CapacityIopsRanges sz of
          None \<Rightarrow> Inl (InvalidSize sz)
        | Some e \<Rightarrow> if iops < minIops e \<or> iops > maxIops e then Inl (InvalidIops iops sz (minIops e) (maxIops e))
                    else Inr True)"

section \<open>Capabilities\<close>

definition areVolumeCapabilitiesSupported :: "volume_capability list \<Rightarrow> access_mode list \<Rightarrow> bool" where
  "areVolumeCapabilitiesSupported volCaps driverVolumeCaps =
     foldl (\<lambda>allSupported c. if \<not> list_ex (\<lambda>m. m = GetMode c) driverVolumeCaps then False else allSupported)
       True volCaps"

section \<open>Storage class parameters\<close>

text \<open>The variables of the loop of \<open>getVolumeParameters\<close>.\<close>

record param_state =
  psVolume :: volume
  psEncrypt :: string
  psUid :: int
  psGid :: int

definition setSecurityGroupList :: "string \<Rightarrow> volume \<Rightarrow> volume" where
  "setSecurityGroupList value v = v\<lparr>volSecurityGroups := Some (Split (TrimSpace value) CHR '','')\<rparr>"

definition checkAndSetISENIEnabled :: "string \<Rightarrow> string \<Rightarrow> volume \<Rightarrow> param_error + volume" where
  "checkAndSetISENIEnabled key value v =
     (if value \<noteq> TrueStr \<and> value \<noteq> FalseStr then Inl (NotBoolean key value)
      else Inr (v\<lparr>volAccessControlMode := (if value = TrueStr then SecurityGroup else VPC)\<rparr>))"

definition checkAndSetISEITEnabled :: "string \<Rightarrow> string \<Rightarrow> volume \<Rightarrow> param_error + volume" where
  "checkAndSetISEITEnabled key value v =
     (if value \<noteq> TrueStr \<and> value \<noteq> FalseStr then Inl (NotBoolean key value)
      else Inr (if value = TrueStr then v\<lparr>volTransitEncryption := EncryptionTransitMode\<rparr> else v))"

definition setPrimaryIPID :: "string \<Rightarrow> string \<Rightarrow> volume \<Rightarrow> param_error + volume" where
  "setPrimaryIPID key value v =
     (case volPrimaryIP v of
        None \<Rightarrow> Inr (v\<lparr>volPrimaryIP := Some \<lparr>ipID = value, ipAddress = []\<rparr>\<rparr>)
      | Some _ \<Rightarrow> Inl (BothPrimaryIPs key value))"

definition setPrimaryIPAddress :: "string \<Rightarrow> string \<Rightarrow> volume \<Rightarrow> param_error + volume" where
  "setPrimaryIPAddress key value v =
     (case volPrimaryIP v of
        None \<Rightarrow> Inr (v\<lparr>volPrimaryIP := Some \<lparr>ipID = [], ipAddress = value\<rparr>\<rparr>)
      | Some _ \<Rightarrow> Inl (BothPrimaryIPs key value))"

text \<open>An operation on the volume, lifted to the loop's variables.\<close>

definition on_volume :: "(volume \<Rightarrow> param_error + volume) \<Rightarrow> param_state \<Rightarrow> param_error + param_state" where
  "on_volume f s = (case f (psVolume s) of Inl e \<Rightarrow> Inl e | Inr v \<Rightarrow> Inr (s\<lparr>psVolume := v\<rparr>))"

text \<open>The body of the loop over the storage class parameters, one case per key in the order of the code.\<close>

definition param_step :: "utils \<Rightarrow> string \<Rightarrow> string \<Rightarrow> param_state \<Rightarrow> param_error + param_state" where
  "param_step U key value s =
     (if key = Profile then
        (if ListContainsSubstr U SupportedProfile value
         then Inr (s\<lparr>psVolume := (psVolume s)\<lparr>volProfile := Some value\<rparr>\<rparr>) else Inl (UnsupportedProfile value))
      else if key = Zone then
        (if length value > ZoneNameMaxLen then Inl (ExceedsLength key ZoneNameMaxLen)
         else Inr (s\<lparr>psVolume := (psVolume s)\<lparr>volAz := value\<rparr>\<rparr>))
      else if key = Region then
        (if length value > RegionMaxLen then Inl (ExceedsLength key RegionMaxLen)
         else Inr (s\<lparr>psVolume := (psVolume s)\<lparr>volRegion := value\<rparr>\<rparr>))
      else if key = Tag then
        (if length value > TagMaxLen then Inl (ExceedsLength key TagMaxLen)
         else Inr (if length value \<noteq> 0 then s\<lparr>psVolume := (psVolume s)\<lparr>volTags := [value]\<rparr>\<rparr> else s))
      else if key = SecurityGroupIDs then
        Inr (if length value \<noteq> 0 then s\<lparr>psVolume := setSecurityGroupList value (psVolume s)\<rparr> else s)
      else if key = PrimaryIPID then
        (if length value \<noteq> 0 then on_volume (setPrimaryIPID key value) s else Inr s)
      else if key = PrimaryIPAddress then
        (if length value \<noteq> 0 then on_volume (setPrimaryIPAddress key value) s else Inr s)
      else if key = SubnetID then
        Inr (if length value \<noteq> 0 then s\<lparr>psVolume := (psVolume s)\<lparr>volSubnetID := value\<rparr>\<rparr> else s)
      else if key = IsENIEnabled then on_volume (checkAndSetISENIEnabled key (ToLower value)) s
      else if key = IsEITEnabled then on_volume (checkAndSetISEITEnabled key (ToLower value)) s
      else if key = ResourceGroup then
        (if length value > ResourceGroupIDMaxLen then Inl (ExceedsLength key ResourceGroupIDMaxLen)
         else Inr (s\<lparr>psVolume := (psVolume s)\<lparr>volResourceGroup := Some value\<rparr>\<rparr>))
      else if key = BillingType then Inr s
      else if key = Encrypted then
        (if value \<noteq> TrueStr \<and> value \<noteq> FalseStr then Inl (NotBoolean key value) else Inr (s\<lparr>psEncrypt := value\<rparr>))
      else if key = EncryptionKey then
        (if length value > EncryptionKeyMaxLen then Inl (ExceedsLength key EncryptionKeyMaxLen)
         else Inr (if length value \<noteq> 0 then s\<lparr>psVolume := (psVolume s)\<lparr>volEncryptionKey := Some value\<rparr>\<rparr> else s))
      else if key = ClassVersion \<or> key = SizeRangeSupported \<or> key = SizeIopsRange \<or> key = Generation then Inr s
      else if key = IOPS then
        Inr (if length value \<noteq> 0 then s\<lparr>psVolume := (psVolume s)\<lparr>volIops := Some value\<rparr>\<rparr> else s)
      else if key = Throughput then
        (if length value \<noteq> 0 then
           (case ParseInt 32 value of
              None \<Rightarrow> Inl (NotInt32 key value)
            | Some bandwidth \<Rightarrow> Inr (s\<lparr>psVolume := (psVolume s)\<lparr>volBandwidth := bandwidth\<rparr>\<rparr>))
         else Inr s)
      else if key = UID then
        (case Atoi value of
           None \<Rightarrow> Inl (InvalidOwner key value)
         | Some uid \<Rightarrow> if uid < 0 then Inl (InvalidOwner key value) else Inr (s\<lparr>psUid := uid\<rparr>))
      else if key = GID then
        (case Atoi value of
           None \<Rightarrow> Inl (InvalidOwner key value)
         | Some gid \<Rightarrow> if gid < 0 then Inl (InvalidOwner key value) else Inr (s\<lparr>psGid := gid\<rparr>))
      else if key = VMState then Inr s
      else Inl (InvalidParameter key))"

text \<open>A loop over the entries of a map that returns at the first error.\<close>

fun each_entry :: "(string \<Rightarrow> string \<Rightarrow> 'a \<Rightarrow> 'e + 'a) \<Rightarrow> (string \<times> string) list \<Rightarrow> 'a \<Rightarrow> 'e + 'a" where
  "each_entry f [] s = Inr s"
| "each_entry f ((key, value) # rest) s =
     (case f key value s of Inl e \<Rightarrow> Inl e | Inr s' \<Rightarrow> each_entry f rest s')"

section \<open>Secrets override parameters\<close>

record secret_state =
  ssVolume :: volume
  ssEncrypt :: string

definition on_secret_volume :: "(volume \<Rightarrow> param_error + volume) \<Rightarrow> secret_state \<Rightarrow> param_error + secret_state" where
  "on_secret_volume f s = (case f (ssVolume s) of Inl e \<Rightarrow> Inl e | Inr v \<Rightarrow> Inr (s\<lparr>ssVolume := v\<rparr>))"

definition secret_step :: "string \<Rightarrow> string \<Rightarrow> secret_state \<Rightarrow> param_error + secret_state" where
  "secret_step key value s =
     (if key = ResourceGroup then
        (if length value > ResourceGroupIDMaxLen then Inl (ExceedsLength key ResourceGroupIDMaxLen)
         else Inr (s\<lparr>ssVolume := (ssVolume s)\<lparr>volResourceGroup := Some value\<rparr>\<rparr>))
      else if key = Encrypted then
        (if value \<noteq> TrueStr \<and> value \<noteq> FalseStr then Inl (NotBoolean key value) else Inr (s\<lparr>ssEncrypt := value\<rparr>))
      else if key = EncryptionKey then
        (if length value > EncryptionKeyMaxLen then Inl (ExceedsLength key EncryptionKeyMaxLen)
         else Inr (if length value \<noteq> 0 then s\<lparr>ssVolume := (ssVolume s)\<lparr>volEncryptionKey := Some value\<rparr>\<rparr> else s))
      else if key = Tag then
        (if length value > TagMaxLen then Inl (ExceedsLength key TagMaxLen)
         else Inr (if length value \<noteq> 0
                   then s\<lparr>ssVolume := (ssVolume s)\<lparr>volTags := volTags (ssVolume s) @ [value]\<rparr>\<rparr> else s))
      else if key = Zone then
        (if length value > ZoneNameMaxLen then Inl (ExceedsLength key ZoneNameMaxLen)
         else Inr (s\<lparr>ssVolume := (ssVolume s)\<lparr>volAz := value\<rparr>\<rparr>))
      else if key = Region then
        (if length value > RegionMaxLen then Inl (ExceedsLength key RegionMaxLen)
         else Inr (s\<lparr>ssVolume := (ssVolume s)\<lparr>volRegion := value\<rparr>\<rparr>))
      else if key = IOPS then
        (if length value \<noteq> 0 then
           (case Atoi value of
              None \<Rightarrow> Inl (NotANumber key value)
            | Some _ \<Rightarrow> Inr (s\<lparr>ssVolume := (ssVolume s)\<lparr>volIops := Some value\<rparr>\<rparr>))
         else Inr s)
      else if key = Throughput then
        (if length value \<noteq> 0 then
           (case ParseInt 32 value of
              None \<Rightarrow> Inl (NotInt32 key value)
            | Some bandwidth \<Rightarrow> Inr (s\<lparr>ssVolume := (ssVolume s)\<lparr>volBandwidth := bandwidth\<rparr>\<rparr>))
         else Inr s)
      else if key = SecurityGroupIDs then
        Inr (if length value \<noteq> 0 then s\<lparr>ssVolume := setSecurityGroupList value (ssVolume s)\<rparr> else s)
      else if key = PrimaryIPID then
        (if length value \<noteq> 0 then on_secret_volume (setPrimaryIPID key value) s else Inr s)
      else if key = PrimaryIPAddress then
        (if length value \<noteq> 0 then on_secret_volume (setPrimaryIPAddress key value) s else Inr s)
      else if key = SubnetID then
        Inr (if length value \<noteq> 0 then s\<lparr>ssVolume := (ssVolume s)\<lparr>volSubnetID := value\<rparr>\<rparr> else s)
      else if key = IsENIEnabled then on_secret_volume (checkAndSetISENIEnabled key (ToLower value)) s
      else if key = IsEITEnabled then on_secret_volume (checkAndSetISEITEnabled key (ToLower value)) s
      else Inl (InvalidParameter key))"

definition undef :: string where
  "undef = ''undef''"

text \<open>
  The volume is never nil where the driver calls this; the configuration is read, and dereferenced without a check,
  only when neither the storage class nor the secrets gave a resource group.
\<close>

definition overrideParams ::
  "(string \<times> string) list \<Rightarrow> provider_config option \<Rightarrow> volume \<Rightarrow> (param_error, volume) outcome" where
  "overrideParams secrets config vol =
     (case each_entry secret_step secrets \<lparr>ssVolume = vol, ssEncrypt = undef\<rparr> of
        Inl e \<Rightarrow> Err e
      | Inr s \<Rightarrow>
          (let v = ssVolume s;
               assigned = (if volResourceGroup v = None \<or> volResourceGroup v = Some ''''
                           then map_option (\<lambda>g. v\<lparr>volResourceGroup := Some g\<rparr>) (config_group config) else Some v)
           in case assigned of
                None \<Rightarrow> Panic
              | Some v1 \<Rightarrow> Ok (if ssEncrypt s = FalseStr then v1\<lparr>volEncryptionKey := None\<rparr> else v1)))"

section \<open>Topology\<close>

fun getPrefedTopologyParams :: "(string, string) fmap option list \<Rightarrow> (string, string) fmap option" where
  "getPrefedTopologyParams [] = None"
| "getPrefedTopologyParams (segment # rest) =
     (if segment \<noteq> None then segment else getPrefedTopologyParams rest)"

definition pickTargetTopologyParams :: "(string, string) fmap option list \<Rightarrow> param_error + (string, string) fmap" where
  "pickTargetTopologyParams preferred =
     (case getPrefedTopologyParams preferred of None \<Rightarrow> Inl NoZoneInformation | Some m \<Rightarrow> Inr m)"

section \<open>getVolumeParameters\<close>

definition start_state :: "string \<Rightarrow> param_state" where
  "start_state name =
     \<lparr>psVolume = empty_volume\<lparr>volName := Some name, volAccessControlMode := SecurityGroup\<rparr>,
      psEncrypt = undef, psUid = 0, psGid = 0\<rparr>"

text \<open>After the loop: encryption switched off, and the initial owner, which a restored snapshot inherits.\<close>

definition finish_params :: "content_source option \<Rightarrow> param_state \<Rightarrow> volume" where
  "finish_params source s =
     (let v = psVolume s;
          v1 = (if psEncrypt s = FalseStr then v\<lparr>volEncryptionKey := None\<rparr> else v);
          isSnapshotRestore = (case source of Some (SnapshotSource (Some _)) \<Rightarrow> True | _ \<Rightarrow> False)
      in if (psUid s \<noteq> 0 \<or> psGid s \<noteq> 0) \<and> \<not> isSnapshotRestore
         then v1\<lparr>volOwner := Some \<lparr>GroupID = psGid s, UserID = psUid s\<rparr>\<rparr> else v1)"

definition blank :: "string \<Rightarrow> bool" where
  "blank s \<longleftrightarrow> length (TrimSpace s) = 0"

text \<open>The checks across parameters, in the order of the code; \<open>None\<close> when all pass.\<close>

definition check_params :: "string \<Rightarrow> volume \<Rightarrow> param_error option" where
  "check_params profile v =
     (if volAccessControlMode v = SecurityGroup \<and> profile = DP2Profile \<and> (blank (volAz v) \<or> blank (volRegion v)) \<and>
         (length (volSubnetID v) \<noteq> 0 \<or> volPrimaryIP v \<noteq> None) then Some ZoneAndRegionMandatory
      else if volAccessControlMode v = SecurityGroup \<and> length (volSubnetID v) = 0 \<and>
         (case volPrimaryIP v of None \<Rightarrow> False | Some ip \<Rightarrow> length (ipAddress ip) \<noteq> 0)
        then Some (SubnetMandatory (case volPrimaryIP v of None \<Rightarrow> [] | Some ip \<Rightarrow> ipAddress ip))
      else if volTransitEncryption v = EncryptionTransitMode \<and> volAccessControlMode v \<noteq> SecurityGroup
        then Some ENIRequiredForEIT
      else if profile = DP2Profile \<and> volBandwidth v > 0 then Some BandwidthNotSupported
      else if profile = RFSProfile \<and> (case volIops v of None \<Rightarrow> False | Some i \<Rightarrow> length (TrimSpace i) > 0)
        then Some IopsNotSupported
      else if profile = RFSProfile \<and> length (TrimSpace (volAz v)) > 0 then Some ZoneNotSupported
      else None)"

definition eit_mode :: "string \<Rightarrow> string \<Rightarrow> string" where
  "eit_mode profile transit =
     (if transit = EncryptionTransitMode \<and> profile = DP2Profile then IPSEC
      else if transit = EncryptionTransitMode \<and> profile = RFSProfile then STUNNEL
      else NONE)"

definition getVolumeParameters ::
  "utils \<Rightarrow> provider_config option \<Rightarrow> create_request \<Rightarrow> (param_error, volume) outcome" where
  "getVolumeParameters U config req =
     (case each_entry (param_step U) (reqParams req) (start_state (reqName req)) of
        Inl e \<Rightarrow> Err e
      | Inr s \<Rightarrow>
        (let v0 = finish_params (reqSource req) s
         in case volProfile v0 of
           None \<Rightarrow> Err EmptyProfile
         | Some profile \<Rightarrow>
           (case getRequestedCapacity U (reqRange req) profile of
              Inl e \<Rightarrow> Err (InvalidCapacity e)
            | Inr capBytes \<Rightarrow>
              (case overrideParams (reqSecrets req) config (v0\<lparr>volCapacity := Some (BytesToGiB U capBytes)\<rparr>) of
                 Err e \<Rightarrow> Err e
               | Panic \<Rightarrow> Panic
               | Ok v \<Rightarrow>
                 if reqCaps req = [] then Err EmptyCapabilities
                 else case check_params profile v of
                     Some e \<Rightarrow> Err e
                   | None \<Rightarrow>
                     (case (if length (TrimSpace (volAz v)) = 0 \<and> profile = DP2Profile
                            then (case pickTargetTopologyParams (reqPreferred req) of
                                    Inl e \<Rightarrow> Inl e
                                  | Inr zones \<Rightarrow> Inr (v\<lparr>volRegion := map_get zones (NodeRegionLabel U),
                                                        volAz := map_get zones (NodeZoneLabel U)\<rparr>))
                            else Inr v) of
                        Inl e \<Rightarrow> Err e
                      | Inr v1 \<Rightarrow> Ok (v1\<lparr>volTransitEncryption := eit_mode profile (volTransitEncryption v1)\<rparr>))))))"

end
