(* ===== verification/Controller.thy ===== *)
theory Controller
  imports Volume_Params
begin

text \<open>
  The controller service of \<open>pkg/ibmcsidriver/controller.go\<close> with the rest of \<open>controller_helper.go\<close>: one definition
  per RPC over an arbitrary provider session, whose state is threaded through the calls in the order of the code.
  A nil dereference or a failed type assertion is the outcome \<open>Panic\<close>.
\<close>

section \<open>Helpers\<close>

text \<open>The part of the driver the controller reads.\<close>

record driver =
  drvVcap :: "access_mode list"
  drvRfsEnabled :: bool
  drvRegion :: string

text \<open>Only the two halves of the pair matter here: a volume or nil, and an error or nil.\<close>

definition checkIfVolumeExists ::
  "utils \<Rightarrow> 's session \<Rightarrow> volume \<Rightarrow> 's \<Rightarrow> (volume option \<times> provider_error option) \<times> 's" where
  "checkIfVolumeExists U S vol s =
     (if volName vol \<noteq> None \<and> volName vol \<noteq> Some '''' \<or> volID vol \<noteq> '''' then
        (let ((existingVol, err), s1) =
           (if volName vol \<noteq> None \<and> volName vol \<noteq> Some '''' then sGetVolumeByName S (the (volName vol)) s
            else sGetVolume S (volID vol) s)
         in case err of
              Some e \<Rightarrow>
                (case GetErrorType U e of
                   EntityNotFound \<Rightarrow> ((None, None), s1)
                 | RetrivalFailed \<Rightarrow> ((None, None), s1)
                 | OtherErrorType \<Rightarrow> ((None, Some e), s1))
            | None \<Rightarrow> ((map_option (\<lambda>v. v\<lparr>volRegion := volRegion vol\<rparr>) existingVol, None), s1))
      else ((None, Some (OtherError ''both volume name and ID are nil'')), s))"

record csi_volume =
  cvCapacityBytes :: int
  cvVolumeId :: string
  cvContext :: "(string, string) fmap"
  cvTopology :: "(string, string) fmap list"
  cvContentSource :: "string option"

text \<open>A label that is written under a condition, and the labels of a volume in the order of the code (innermost first).\<close>

definition label_if :: "bool \<Rightarrow> string \<Rightarrow> string \<Rightarrow> (string, string) fmap \<Rightarrow> (string, string) fmap" where
  "label_if b k v m = (if b then fmupd k v m else m)"

definition base_labels :: "volume \<Rightarrow> access_point_response \<Rightarrow> string \<Rightarrow> (string, string) fmap" where
  "base_labels vol ap clusterID =
     fmupd FileShareTargetIDLabel (apAccessPointID ap) (
     fmupd FileShareIDLabel (volID vol) (
     label_if (volBandwidth vol > 0) ThroughputLabel (Itoa (volBandwidth vol) @ '' '' @ ''mbps'') (
     label_if (volIops vol \<noteq> None \<and> length (the (volIops vol)) > 0) IOPSLabel (the (volIops vol)) (
     fmupd Tag (Join (volTags vol) '','') (
     fmupd ClusterIDLabel clusterID (
     fmupd VolumeCRNLabel (volCRN vol) (
     label_if (volHref vol \<noteq> '''') VolumeHrefLabel (volHref vol) (
     label_if (volProfile vol \<noteq> None \<and> volProfile vol \<noteq> Some '''') ProfileLabel (the (volProfile vol)) (
     fmupd ClusterIDLabel clusterID (
     fmupd VolumeIDLabel (volID vol @ VolumeIDSeperator @ apAccessPointID ap) fmempty))))))))))"

definition volume_labels ::
  "utils \<Rightarrow> volume \<Rightarrow> access_point_response \<Rightarrow> string \<Rightarrow> string \<Rightarrow> (string, string) fmap" where
  "volume_labels U vol ap clusterID region =
     label_if (volTransitEncryption vol = IPSEC \<or> volTransitEncryption vol = STUNNEL) IsEITEnabled TrueStr (
     fmupd NFSServerPath (apMountPath ap) (
     label_if (volAccessControlMode vol \<noteq> VPC \<and> volSecurityGroups vol \<noteq> None) ENISecurityGroupIDs
       (Join (the (volSecurityGroups vol)) '','') (
     label_if (volAccessControlMode vol \<noteq> VPC) ENISubnetID (volSubnetID vol) (
     label_if (volAccessControlMode vol = VPC) (NodeZoneLabel U) (volAz vol) (
     fmupd IsENIEnabled (if volAccessControlMode vol = VPC then FalseStr else TrueStr) (
     fmupd (NodeRegionLabel U) (if volRegion vol \<noteq> '''' then volRegion vol else region) (
     base_labels vol ap clusterID)))))))"

definition createCSIVolumeResponse ::
  "utils \<Rightarrow> volume \<Rightarrow> access_point_response \<Rightarrow> int \<Rightarrow> string \<Rightarrow> string \<Rightarrow> csi_volume" where
  "createCSIVolumeResponse U vol ap capBytes clusterID region =
     (let labels = volume_labels U vol ap clusterID region;
          regionSeg = fmupd (NodeRegionLabel U) (if volRegion vol \<noteq> '''' then volRegion vol else region) fmempty
      in \<lparr>cvCapacityBytes = capBytes,
          cvVolumeId = volID vol @ VolumeIDSeperator @ apAccessPointID ap,
          cvContext = labels,
          cvTopology = [if volAccessControlMode vol = VPC then fmupd (NodeZoneLabel U) (volAz vol) regionSeg else regionSeg],
          cvContentSource = (if volSnapshotID vol \<noteq> '''' then Some (volSnapshotID vol) else None)\<rparr>)"

definition getTokens :: "string \<Rightarrow> string list" where
  "getTokens volumeID =
     (if Contains volumeID VolumeIDSeperator then Split volumeID CHR ''#'' else Split volumeID CHR '':'')"

definition getAccountID :: "string \<Rightarrow> string" where
  "getAccountID input =
     (if Contains input ''a/'' then
        (let tokens = Split input CHR ''/'' in if length tokens > 1 then tokens ! 1 else '''')
      else '''')"

definition getSourceVolumeAndSnapshotID :: "string \<Rightarrow> string \<times> string" where
  "getSourceVolumeAndSnapshotID input =
     (let tokens = Split input CHR ''/'' in if length tokens > 1 then (tokens ! 0, tokens ! 1) else ('''', ''''))"

definition getVolumeSnapshotAndAccountIDsFromCRN :: "string \<Rightarrow> string \<times> string \<times> string" where
  "getVolumeSnapshotAndAccountIDsFromCRN crn =
     (let crnTokens = Split crn CHR '':''
      in if length crnTokens > 9 then
           (let (sourceVolumeID, snapshotID) = getSourceVolumeAndSnapshotID (crnTokens ! (length crnTokens - 1))
            in (sourceVolumeID, snapshotID, getAccountID (crnTokens ! (length crnTokens - 4))))
         else ('''', crn, ''''))"

record csi_snapshot =
  csSnapshotId :: string
  csSourceVolumeId :: string
  csSizeBytes :: int
  csCreationTime :: int
  csReadyToUse :: bool

definition createCSISnapshotResponse :: "snapshot \<Rightarrow> csi_snapshot" where
  "createCSISnapshotResponse sn =
     \<lparr>csSnapshotId = snapCRN sn, csSourceVolumeId = snapVolumeID sn, csSizeBytes = snapSize sn,
      csCreationTime = snapCreated sn, csReadyToUse = snapReady sn\<rparr>"

section \<open>CreateVolume\<close>

definition attach_snapshot :: "content_source option \<Rightarrow> volume \<Rightarrow> (csi_error, volume) outcome" where
  "attach_snapshot source v =
     (case source of
        None \<Rightarrow> Ok v
      | Some OtherSource \<Rightarrow> Err (CSIError UnsupportedVolumeContentSource)
      | Some (SnapshotSource None) \<Rightarrow> Err (CSIError VolumeInvalidArguments)
      | Some (SnapshotSource (Some snapshotIdentifier)) \<Rightarrow>
          Ok (if Index (RemoveBlanks snapshotIdentifier) ''crn:'' = 0
              then v\<lparr>volSnapshotCRN := snapshotIdentifier\<rparr> else v\<lparr>volSnapshotID := snapshotIdentifier\<rparr>))"

text \<open>Whether the volume exists already with the requested size; another size is an error.\<close>

definition find_existing :: "utils \<Rightarrow> 's session \<Rightarrow> volume \<Rightarrow> 's \<Rightarrow> (csi_error, volume option) outcome \<times> 's" where
  "find_existing U S requested s =
     (case checkIfVolumeExists U S requested s of
        ((Some volumeObj, None), s1) \<Rightarrow>
          (if volCapacity volumeObj \<noteq> None \<and> volCapacity requested \<noteq> None \<and>
              volCapacity volumeObj = volCapacity requested
           then Ok (Some volumeObj)
           else if volCapacity requested = None then Panic
           else Err (CSIError VolumeAlreadyExists), s1)
      | (_, s1) \<Rightarrow> (Ok None, s1))"

definition pick_subnet :: "'s session \<Rightarrow> environ \<Rightarrow> volume \<Rightarrow> 's \<Rightarrow> (csi_error, volume) outcome \<times> 's" where
  "pick_subnet S env v s =
     (if length (volSubnetID v) = 0 \<and>
         (case volPrimaryIP v of None \<Rightarrow> True | Some ip \<Rightarrow> length (ipID ip) = 0) then
        (let subnetIDList = Getenv env ''VPC_SUBNET_IDS''
         in if length subnetIDList = 0 then (Err (CSIError SubnetIDListNotFound), s)
            else (case sGetSubnet S \<lparr>snList = subnetIDList, snZone = volAz v, snVPCID = Getenv env ''VPC_ID'',
                                     snResourceGroup = volResourceGroup v\<rparr> s of
                    ((subnetID, err), s1) \<Rightarrow>
                      (if err \<noteq> None \<or> length subnetID = 0 then Err (BackendError err)
                       else Ok (v\<lparr>volSubnetID := subnetID\<rparr>), s1)))
      else (Ok v, s))"

definition pick_security_group :: "'s session \<Rightarrow> environ \<Rightarrow> string \<Rightarrow> volume \<Rightarrow> 's \<Rightarrow> (csi_error, volume) outcome \<times> 's" where
  "pick_security_group S env clusterID v s =
     (if volSecurityGroups v = None then
        (case sGetSecurityGroup S \<lparr>sgName = ''kube-'' @ clusterID, sgVPCID = Getenv env ''VPC_ID'',
                                   sgResourceGroup = volResourceGroup v\<rparr> s of
           ((securityGroupID, err), s1) \<Rightarrow>
             (Ok (if err \<noteq> None \<or> length securityGroupID = 0 then v
                  else v\<lparr>volSecurityGroups := Some [securityGroupID]\<rparr>), s1))
      else (Ok v, s))"

definition pick_network :: "'s session \<Rightarrow> environ \<Rightarrow> string \<Rightarrow> volume \<Rightarrow> 's \<Rightarrow> (csi_error, volume) outcome \<times> 's" where
  "pick_network S env clusterID v =
     (if volAccessControlMode v = SecurityGroup
      then andThen (pick_subnet S env v) (pick_security_group S env clusterID)
      else (\<lambda>s. (Ok (v\<lparr>volVPCID := Getenv env ''VPC_ID''\<rparr>), s)))"

definition create_if_missing ::
  "utils \<Rightarrow> 's session \<Rightarrow> volume option \<Rightarrow> volume \<Rightarrow> 's \<Rightarrow> (csi_error, volume) outcome \<times> 's" where
  "create_if_missing U S existing requested s =
     (case existing of
        Some volumeObj \<Rightarrow> (Ok volumeObj, s)
      | None \<Rightarrow>
          (case sCreateVolume S requested s of
             ((_, Some e), s1) \<Rightarrow>
               (Err (if GetErrorType U e = RetrivalFailed then CSIError ObjectNotFound else BackendError (Some e)), s1)
           | ((Some volumeObj, None), s1) \<Rightarrow> (Ok volumeObj, s1)
           | ((None, None), s1) \<Rightarrow> (Panic, s1)))"

text \<open>The request for the access point: the first one of the volume, or a new one.\<close>

definition ensure_access_point ::
  "'s session \<Rightarrow> environ \<Rightarrow> volume \<Rightarrow> volume \<Rightarrow> 's \<Rightarrow> (csi_error, access_point_request) outcome \<times> 's" where
  "ensure_access_point S env requested volumeObj s =
     (case volAccessPoints volumeObj of
        Some (ap # _) \<Rightarrow> (Ok (access_point_request (volID volumeObj) ap), s)
      | _ \<Rightarrow>
          (let req = (access_point_request (volID volumeObj) '''')
                 \<lparr>aprVPCID := Getenv env ''VPC_ID'', aprMode := volAccessControlMode requested,
                  aprSecurityGroups := volSecurityGroups requested, aprResourceGroup := volResourceGroup requested,
                  aprPrimaryIP := volPrimaryIP requested, aprSubnetID := volSubnetID requested\<rparr>
           in case sCreateAccessPoint S req s of
                ((_, Some e), s1) \<Rightarrow> (Err (BackendError (Some e)), s1)
              | ((Some r, None), s1) \<Rightarrow> (Ok (req\<lparr>aprAccessPointID := apAccessPointID r\<rparr>), s1)
              | ((None, None), s1) \<Rightarrow> (Panic, s1)))"

definition wait_access_point ::
  "'s session \<Rightarrow> access_point_request \<Rightarrow> 's \<Rightarrow> (csi_error, access_point_response) outcome \<times> 's" where
  "wait_access_point S req s =
     (case sWaitForCreateAccessPoint S req s of
        ((_, Some e), s1) \<Rightarrow> (Err (BackendError (Some e)), s1)
      | ((Some r, None), s1) \<Rightarrow> (Ok r, s1)
      | ((None, None), s1) \<Rightarrow> (Panic, s1))"

definition volume_response ::
  "utils \<Rightarrow> driver \<Rightarrow> string \<Rightarrow> volume \<Rightarrow> volume \<Rightarrow> access_point_response \<Rightarrow> (csi_error, csi_volume) outcome" where
  "volume_response U D clusterID requested volumeObj ap =
     (case volCapacity requested of
        None \<Rightarrow> Panic
      | Some cap \<Rightarrow>
          (let vol = volumeObj\<lparr>volAccessControlMode := volAccessControlMode requested,
                               volTransitEncryption := volTransitEncryption requested,
                               volSecurityGroups := volSecurityGroups requested,
                               volSubnetID := volSubnetID requested\<rparr>
           in Ok (createCSIVolumeResponse U vol ap (i64 (cap * GB U)) clusterID (drvRegion D))))"

definition CreateVolume ::
  "utils \<Rightarrow> driver \<Rightarrow> 's provider \<Rightarrow> environ \<Rightarrow> create_request \<Rightarrow> 's \<Rightarrow> (csi_error, csi_volume) outcome \<times> 's" where
  "CreateVolume U D P env req s =
     (if length (reqName req) = 0 then (Err (CSIError MissingVolumeName), s)
      else if length (reqCaps req) = 0 then (Err (CSIError NoVolumeCapabilities), s)
      else if \<not> areVolumeCapabilitiesSupported (reqCaps req) (drvVcap D)
        then (Err (CSIError VolumeCapabilitiesNotSupported), s)
      else case getVolumeParameters U (GetConfig P) req of
          Err e \<Rightarrow> (Err (CSIError InvalidParameters), s)
        | Panic \<Rightarrow> (Panic, s)
        | Ok v0 \<Rightarrow>
            if volProfile v0 = Some RFSProfile \<and> \<not> drvRfsEnabled D then (Err (CSIError ProfileNotAllowlisted), s)
            else (case GetProviderSession P of
                Inl e \<Rightarrow> (Err (CSIError InternalError), s)
              | Inr S \<Rightarrow>
                  andThen (\<lambda>s. (attach_snapshot (reqSource req) v0, s)) (\<lambda>v1.
                  andThen (find_existing U S v1) (\<lambda>existing.
                  andThen (pick_network S env (GetClusterID P) v1) (\<lambda>requested.
                  andThen (create_if_missing U S existing requested) (\<lambda>volumeObj.
                  andThen (ensure_access_point S env requested volumeObj) (\<lambda>apReq.
                  andThen (wait_access_point S apReq) (\<lambda>ap s.
                    (volume_response U D (GetClusterID P) requested volumeObj ap, s))))))) s))"

section \<open>DeleteVolume and expansion\<close>

definition DeleteVolume :: "utils \<Rightarrow> 's provider \<Rightarrow> string \<Rightarrow> 's \<Rightarrow> (csi_error, unit) outcome \<times> 's" where
  "DeleteVolume U P volumeID s =
     (if length volumeID = 0 then (Err (CSIError EmptyVolumeID), s)
      else case GetProviderSession P of
          Inl e \<Rightarrow> (Err (CSIError FailedPrecondition), s)
        | Inr S \<Rightarrow>
            (let tokens = getTokens volumeID
             in if length tokens \<noteq> 2 then (Err (CSIError InternalError), s)
                else (let volume = empty_volume\<lparr>volID := tokens ! 0\<rparr>;
                          apReq = access_point_request (tokens ! 0) (tokens ! 1)
                      in case checkIfVolumeExists U S volume s of
                           ((None, None), s1) \<Rightarrow> (Ok (), s1)
                         | (_, s1) \<Rightarrow>
                             (case sDeleteAccessPoint S apReq s1 of
                                (Some e, s2) \<Rightarrow> (Err (BackendError (Some e)), s2)
                              | (None, s2) \<Rightarrow>
                                  (case sWaitForDeleteAccessPoint S apReq s2 of
                                     (Some e, s3) \<Rightarrow> (Err (BackendError (Some e)), s3)
                                   | (None, s3) \<Rightarrow>
                                       (case sDeleteVolume S volume s3 of
                                          (Some e, s4) \<Rightarrow> (Err (BackendError (Some e)), s4)
                                        | (None, s4) \<Rightarrow> (Ok (), s4)))))))"

definition ValidateVolumeCapabilities ::
  "utils \<Rightarrow> driver \<Rightarrow> 's provider \<Rightarrow> string \<Rightarrow> volume_capability list \<Rightarrow> 's
    \<Rightarrow> (csi_error, volume_capability list option) outcome \<times> 's" where
  "ValidateVolumeCapabilities U D P volumeID caps s =
     (if length caps = 0 then (Err (CSIError NoVolumeCapabilities), s)
      else if length volumeID = 0 then (Err (CSIError EmptyVolumeID), s)
      else (let tokens = getTokens volumeID
            in if length tokens \<noteq> 2 then (Err (CSIError InternalError), s)
               else case GetProviderSession P of
                   Inl e \<Rightarrow> (Err (CSIError InternalError), s)
                 | Inr S \<Rightarrow>
                     (case sGetVolume S (tokens ! 0) s of
                        ((_, Some e), s1) \<Rightarrow>
                          (Err (if GetErrorType U e = RetrivalFailed then CSIError ObjectNotFound
                                else BackendError (Some e)), s1)
                      | ((_, None), s1) \<Rightarrow>
                          (Ok (if areVolumeCapabilitiesSupported caps (drvVcap D) then Some caps else None), s1))))"

definition ListVolumes ::
  "utils \<Rightarrow> 's provider \<Rightarrow> int \<Rightarrow> string \<Rightarrow> 's \<Rightarrow> (csi_error, (string \<times> int) list \<times> string) outcome \<times> 's" where
  "ListVolumes U P maxEntries startingToken s =
     (case GetProviderSession P of
        Inl e \<Rightarrow> (Err (CSIError InternalError), s)
      | Inr S \<Rightarrow>
          (case sListVolumes S maxEntries startingToken s of
             ((_, Some (OtherError _)), s1) \<Rightarrow> (Panic, s1)
           | ((_, Some (Message code)), s1) \<Rightarrow>
               (Err (if Contains code ''InvalidListVolumesLimit'' then CSIError InvalidParameters
                     else if Contains code ''StartVolumeIDNotFound'' then CSIError StartVolumeIDNotFound
                     else BackendError (Some (Message code))), s1)
           | ((None, None), s1) \<Rightarrow> (Panic, s1)
           | ((Some (vols, next), None), s1) \<Rightarrow>
               (Ok (map (\<lambda>v. (volID v, i64 (the (volCapacity v) * GiB U))) (filter (\<lambda>v. volCapacity v \<noteq> None) vols),
                    next), s1)))"

definition ControllerExpandVolume ::
  "utils \<Rightarrow> 's provider \<Rightarrow> string \<Rightarrow> capacity_range option \<Rightarrow> 's \<Rightarrow> (csi_error, int \<times> bool) outcome \<times> 's" where
  "ControllerExpandVolume U P volumeID capRange s =
     (let capacity = (case capRange of None \<Rightarrow> 0 | Some r \<Rightarrow> requiredBytes r)
      in if length volumeID = 0 then (Err (CSIError EmptyVolumeID), s)
         else case GetProviderSession P of
             Inl e \<Rightarrow> (Err (CSIError FailedPrecondition), s)
           | Inr S \<Rightarrow>
               (let tokens = getTokens volumeID
                in if length tokens \<noteq> 2 then (Err (CSIError InternalError), s)
                   else (case checkIfVolumeExists U S (empty_volume\<lparr>volID := tokens ! 0\<rparr>) s of
                           ((None, None), s1) \<Rightarrow> (Err (CSIError ObjectNotFound), s1)
                         | ((_, Some e), s1) \<Rightarrow> (Err (CSIError InternalError), s1)
                         | ((Some _, None), s1) \<Rightarrow>
                             (case sExpandVolume S (tokens ! 0) capacity s1 of
                                ((_, Some e), s2) \<Rightarrow> (Err (BackendError (Some e)), s2)
                              | ((_, None), s2) \<Rightarrow> (Ok (capacity, False), s2)))))"

section \<open>Snapshots\<close>

definition CreateSnapshot ::
  "'s provider \<Rightarrow> environ \<Rightarrow> string \<Rightarrow> string \<Rightarrow> 's \<Rightarrow> (csi_error, csi_snapshot) outcome \<times> 's" where
  "CreateSnapshot P env snapshotName sourceVolumeID s =
     (if ToLower (Getenv env ''IS_SNAPSHOT_ENABLED'') = ''false'' then (Err (CSIError MethodUnimplemented), s)
      else if length snapshotName = 0 then (Err (CSIError MissingSnapshotName), s)
      else if length sourceVolumeID = 0 then (Err (CSIError MissingSourceVolumeID), s)
      else (let volumeID = getTokens sourceVolumeID
            in if length volumeID \<noteq> 2 then (Err (CSIError InvalidParameters), s)
               else case GetProviderSession P of
                   Inl e \<Rightarrow> (Err (CSIError InternalError), s)
                 | Inr S \<Rightarrow>
                     (case sGetSnapshotByName S snapshotName (volumeID ! 0) s of
                        ((Some sn, _), s1) \<Rightarrow>
                          (if snapVolumeID sn \<noteq> volumeID ! 0 then Err (CSIError SnapshotAlreadyExists)
                           else Ok (createCSISnapshotResponse sn), s1)
                      | ((None, _), s1) \<Rightarrow>
                          (case sCreateSnapshot S (volumeID ! 0) snapshotName s1 of
                             ((_, Some e), s2) \<Rightarrow> (Err (BackendError (Some e)), s2)
                           | ((Some sn, None), s2) \<Rightarrow> (Ok (createCSISnapshotResponse sn), s2)
                           | ((None, None), s2) \<Rightarrow> (Panic, s2)))))"

definition empty_snapshot :: snapshot where
  "empty_snapshot = \<lparr>snapID = [], snapCRN = [], snapVolumeID = [], snapSize = 0, snapCreated = 0, snapReady = False\<rparr>"

definition DeleteSnapshot :: "'s provider \<Rightarrow> string \<Rightarrow> 's \<Rightarrow> (csi_error, unit) outcome \<times> 's" where
  "DeleteSnapshot P snapshotID s =
     (if length snapshotID = 0 then (Err (CSIError EmptySnapshotID), s)
      else case GetProviderSession P of
          Inl e \<Rightarrow> (Err (CSIError InternalError), s)
        | Inr S \<Rightarrow>
            (case getVolumeSnapshotAndAccountIDsFromCRN snapshotID of
               (volumeID, sid, _) \<Rightarrow>
                 if volumeID = '''' then (Ok (), s)
                 else (case sDeleteSnapshot S (empty_snapshot\<lparr>snapID := sid, snapVolumeID := volumeID\<rparr>) s of
                         (Some e, s1) \<Rightarrow> (Err (BackendError (Some e)), s1)
                       | (None, s1) \<Rightarrow> (Ok (), s1))))"

definition ListSnapshots ::
  "'s provider \<Rightarrow> string \<Rightarrow> string \<Rightarrow> int \<Rightarrow> string \<Rightarrow> 's \<Rightarrow> (csi_error, csi_snapshot list \<times> string) outcome \<times> 's" where
  "ListSnapshots P snapshotID sourceVolumeID maxEntries startingToken s =
     (case GetProviderSession P of
        Inl e \<Rightarrow> (Err (CSIError InternalError), s)
      | Inr S \<Rightarrow>
          (let (volumeID, sid, _) = getVolumeSnapshotAndAccountIDsFromCRN snapshotID
           in if length snapshotID \<noteq> 0 \<and> volumeID = '''' then (Ok ([], ''''), s)
              else if length snapshotID \<noteq> 0 \<and> length sid \<noteq> 0 then
                (case sGetSnapshot S sid volumeID s of
                   ((None, _), s1) \<Rightarrow> (Ok ([], ''''), s1)
                 | ((Some sn, _), s1) \<Rightarrow> (Ok ([createCSISnapshotResponse sn], ''''), s1))
              else
                (let tags = (if length sourceVolumeID \<noteq> 0 then [(''source_volume.id'', sourceVolumeID)] else [])
                 in case sListSnapshots S maxEntries startingToken tags s of
                      ((_, Some e), s1) \<Rightarrow> (Err (BackendError (Some e)), s1)
                    | ((None, None), s1) \<Rightarrow> (Panic, s1)
                    | ((Some (sns, next), None), s1) \<Rightarrow> (Ok (map createCSISnapshotResponse sns, next), s1))))"

section \<open>Methods that are refused\<close>

definition ControllerPublishVolume :: "(csi_error, unit) outcome" where
  "ControllerPublishVolume = Err (CSIError MethodUnsupported)"

definition ControllerUnpublishVolume :: "(csi_error, unit) outcome" where
  "ControllerUnpublishVolume = Err (CSIError MethodUnsupported)"

definition GetCapacity :: "(csi_error, unit) outcome" where
  "GetCapacity = Err (CSIError MethodUnimplemented)"

definition ControllerGetVolume :: "(csi_error, unit) outcome" where
  "ControllerGetVolume = Err (CSIError MethodUnimplemented)"

definition ControllerModifyVolume :: "(csi_error, unit) outcome" where
  "ControllerModifyVolume = Err (CSIError MethodUnimplemented)"

end
