(* ===== verification/Param_Order.thy ===== *)
theory Param_Order
  imports Volume_Params
begin

text \<open>
  Go iterates over a map in an unspecified order. The locale \<open>commuting_entries\<close> states what a loop body has to satisfy
  so that the order is irrelevant, its interpretations show that the bodies of the two loops of
  \<open>controller_helper.go\<close> satisfy it, and the result for \<open>getVolumeParameters\<close> follows.
\<close>

section \<open>Loops over maps\<close>

fun success :: "'e + 'a \<Rightarrow> 'a option" where
  "success (Inl e) = None"
| "success (Inr a) = Some a"

lemma success_iff: "success r = Some a \<longleftrightarrow> r = Inr a"
  by (cases r) auto

locale commuting_entries =
  fixes body :: "string \<Rightarrow> string \<Rightarrow> 'a \<Rightarrow> 'e + 'a"
  assumes commute: "k1 \<noteq> k2 \<Longrightarrow>
    success (each_entry body [(k1, v1), (k2, v2)] s) = success (each_entry body [(k2, v2), (k1, v1)] s)"
begin

lemma swap_two:
  assumes "k1 \<noteq> k2"
  shows "success (each_entry body ((k1, v1) # (k2, v2) # xs) s) = success (each_entry body ((k2, v2) # (k1, v1) # xs) s)"
proof -
  have split: "success (each_entry body ((j, u) # (k, v) # xs) s) =
      Option.bind (success (each_entry body [(j, u), (k, v)] s)) (\<lambda>t. success (each_entry body xs t))" for j u k v
    by (simp split: sum.splits)
  show ?thesis unfolding split using commute[OF assms] by simp
qed

lemma cons_cong:
  "(\<And>s. success (each_entry body xs s) = success (each_entry body ys s)) \<Longrightarrow>
    success (each_entry body ((k, v) # xs) s) = success (each_entry body ((k, v) # ys) s)"
  by (simp split: sum.splits)

lemma move_to_front:
  "k \<notin> fst ` set xs \<Longrightarrow>
    success (each_entry body (xs @ (k, v) # ys) s) = success (each_entry body ((k, v) # xs @ ys) s)"
proof (induction xs arbitrary: s)
  case (Cons x xs)
  obtain j u where x: "x = (j, u)" by (cases x)
  have "success (each_entry body ((j, u) # xs @ (k, v) # ys) s) = success (each_entry body ((j, u) # (k, v) # xs @ ys) s)"
    using Cons by (intro cons_cong) simp
  also have "\<dots> = success (each_entry body ((k, v) # (j, u) # xs @ ys) s)"
    using Cons.prems x by (intro swap_two) auto
  finally show ?case by (simp add: x del: each_entry.simps)
qed (simp del: each_entry.simps)

theorem iteration_order:
  "mset xs = mset ys \<Longrightarrow> distinct (map fst xs) \<Longrightarrow>
    success (each_entry body xs s) = success (each_entry body ys s)"
proof (induction xs arbitrary: ys s)
  case (Cons x xs)
  obtain k v where x: "x = (k, v)" by (cases x)
  have "x \<in> set ys" using Cons.prems(1) by (metis list.set_intros(1) mset_eq_setD)
  then obtain as bs where ys: "ys = as @ (k, v) # bs" using x by (meson split_list)
  then have m: "mset xs = mset (as @ bs)" using Cons.prems(1) x by simp
  then have "set (as @ bs) = set xs" by (metis mset_eq_setD)
  then have k: "k \<notin> fst ` set as" using Cons.prems(2) x by auto
  have "success (each_entry body ((k, v) # xs) s) = success (each_entry body ((k, v) # as @ bs) s)"
    using Cons.IH[OF m] Cons.prems(2) by (intro cons_cong) simp
  then show ?case using move_to_front[OF k] by (simp add: x ys del: each_entry.simps)
qed (simp del: each_entry.simps)

end

section \<open>Keys that write one field\<close>

text \<open>
  A key is simple when its step is decided by the value alone and writes what no other key reads or writes: the
  steps of the other keys are natural in the update. A simple key commutes with every other key.
\<close>

definition natural :: "(string \<Rightarrow> string \<Rightarrow> 'a \<Rightarrow> 'e + 'a) \<Rightarrow> string \<Rightarrow> ('a \<Rightarrow> 'a) \<Rightarrow> bool" where
  "natural body key u \<longleftrightarrow> (\<forall>k v s. k \<noteq> key \<longrightarrow> success (body k v (u s)) = map_option u (success (body k v s)))"

definition simple_key :: "(string \<Rightarrow> string \<Rightarrow> 'a \<Rightarrow> 'e + 'a) \<Rightarrow> string \<Rightarrow> bool" where
  "simple_key body key \<longleftrightarrow> (\<exists>c u. (\<forall>v s. success (body key v s) = (if c v then Some (u v s) else None)) \<and>
     (\<forall>v. natural body key (u v)))"

lemma simple_keyI:
  "(\<And>v s. success (body key v s) = (if c v then Some (u v s) else None)) \<Longrightarrow> (\<And>v. natural body key (u v)) \<Longrightarrow>
    simple_key body key"
  unfolding simple_key_def by blast

lemma each_entry_two:
  "success (each_entry body [(k1, v1), (k2, v2)] s) = Option.bind (success (body k1 v1 s)) (\<lambda>t. success (body k2 v2 t))"
  by (simp split: sum.splits)

lemma simple_key_commutes:
  assumes "simple_key body k1" "k1 \<noteq> k2"
  shows "success (each_entry body [(k1, v1), (k2, v2)] s) = success (each_entry body [(k2, v2), (k1, v1)] s)"
proof -
  obtain c u where step: "\<And>v s. success (body k1 v s) = (if c v then Some (u v s) else None)"
      and nat: "\<And>v. natural body k1 (u v)"
    using assms(1) unfolding simple_key_def by blast
  have "success (body k2 v2 (u v1 s)) = map_option (u v1) (success (body k2 v2 s))"
    using nat[of v1] assms(2) by (simp add: natural_def)
  then show ?thesis
    unfolding each_entry_two step by (cases "success (body k2 v2 s)") auto
qed

text \<open>A key that is always refused, and a key that is always ignored, commute as well.\<close>

lemma refused_key_commutes:
  assumes "\<And>v s. success (body k1 v s) = None"
  shows "success (each_entry body [(k1, v1), (k2, v2)] s) = success (each_entry body [(k2, v2), (k1, v1)] s)"
  unfolding each_entry_two assms by (cases "success (body k2 v2 s)") auto

lemma ignored_key_simple: "(\<And>v s. success (body key v s) = Some s) \<Longrightarrow> simple_key body key"
  by (rule simple_keyI[where c = "\<lambda>_. True" and u = "\<lambda>_ s. s"]) (simp_all add: natural_def option.map_id[unfolded id_def])

section \<open>The loop over the secrets\<close>

lemmas volume_ops = setSecurityGroupList_def checkAndSetISENIEnabled_def
  checkAndSetISEITEnabled_def setPrimaryIPID_def setPrimaryIPAddress_def

lemma success_if [simp]: "success (if b then x else y) = (if b then success x else success y)"
  by simp

lemma Some_if: "Some (if b then x else y) = (if b then Some x else Some y)"
  by simp

lemma success_case_option [simp]:
  "success (case z of None \<Rightarrow> x | Some a \<Rightarrow> f a) = (case z of None \<Rightarrow> success x | Some a \<Rightarrow> success (f a))"
  by (simp split: option.splits)

lemma success_on_volume [simp]:
  "success (on_volume f s) = map_option (\<lambda>v. s\<lparr>psVolume := v\<rparr>) (success (f (psVolume s)))"
  "success (on_secret_volume f t) = map_option (\<lambda>v. t\<lparr>ssVolume := v\<rparr>) (success (f (ssVolume t)))"
  by (simp_all add: on_volume_def on_secret_volume_def split: sum.splits)

lemma map_option_if [simp]: "map_option u (if b then x else y) = (if b then map_option u x else map_option u y)"
  by simp

lemma map_option_case_option [simp]:
  "map_option u (case z of None \<Rightarrow> x | Some a \<Rightarrow> f a) = (case z of None \<Rightarrow> map_option u x | Some a \<Rightarrow> map_option u (f a))"
  by (simp split: option.splits)

lemma if_eqI: "(b \<Longrightarrow> x = x') \<Longrightarrow> (\<not> b \<Longrightarrow> y = y') \<Longrightarrow> (if b then x else y) = (if b then x' else y')"
  by simp

lemma case_option_eqI:
  "(z = None \<Longrightarrow> x = x') \<Longrightarrow> (\<And>a. z = Some a \<Longrightarrow> f a = f' a) \<Longrightarrow>
    (case z of None \<Rightarrow> x | Some a \<Rightarrow> f a) = (case z of None \<Rightarrow> x' | Some a \<Rightarrow> f' a)"
  by (simp split: option.splits)

lemma natural_unless: "natural body key u \<Longrightarrow> natural body key (\<lambda>s. if b then s else u s)"
  by (cases b) (simp_all add: natural_def option.map_id[unfolded id_def])

lemma secret_natural:
  "natural secret_step ResourceGroup (\<lambda>s. s\<lparr>ssVolume := (ssVolume s)\<lparr>volResourceGroup := Some c\<rparr>\<rparr>)"
  "natural secret_step Encrypted (\<lambda>s. s\<lparr>ssEncrypt := c\<rparr>)"
  "natural secret_step EncryptionKey (\<lambda>s. s\<lparr>ssVolume := (ssVolume s)\<lparr>volEncryptionKey := Some c\<rparr>\<rparr>)"
  "natural secret_step Tag (\<lambda>s. s\<lparr>ssVolume := (ssVolume s)\<lparr>volTags := volTags (ssVolume s) @ [c]\<rparr>\<rparr>)"
  "natural secret_step Zone (\<lambda>s. s\<lparr>ssVolume := (ssVolume s)\<lparr>volAz := c\<rparr>\<rparr>)"
  "natural secret_step Region (\<lambda>s. s\<lparr>ssVolume := (ssVolume s)\<lparr>volRegion := c\<rparr>\<rparr>)"
  "natural secret_step IOPS (\<lambda>s. s\<lparr>ssVolume := (ssVolume s)\<lparr>volIops := Some c\<rparr>\<rparr>)"
  "natural secret_step Throughput (\<lambda>s. s\<lparr>ssVolume := (ssVolume s)\<lparr>volBandwidth := n\<rparr>\<rparr>)"
  "natural secret_step SecurityGroupIDs (\<lambda>s. s\<lparr>ssVolume := (ssVolume s)\<lparr>volSecurityGroups := gs\<rparr>\<rparr>)"
  "natural secret_step SubnetID (\<lambda>s. s\<lparr>ssVolume := (ssVolume s)\<lparr>volSubnetID := c\<rparr>\<rparr>)"
  "natural secret_step IsENIEnabled (\<lambda>s. s\<lparr>ssVolume := (ssVolume s)\<lparr>volAccessControlMode := c\<rparr>\<rparr>)"
  "natural secret_step IsEITEnabled (\<lambda>s. s\<lparr>ssVolume := (ssVolume s)\<lparr>volTransitEncryption := c\<rparr>\<rparr>)"
  unfolding natural_def secret_step_def volume_ops
  by (intro allI impI; simp add: Some_if cong: if_cong option.case_cong split del: if_split;
      intro if_eqI case_option_eqI; simp)+

lemma secret_ResourceGroup: "simple_key secret_step ResourceGroup"
  by (rule simple_keyI[where c = "\<lambda>v. length v \<le> ResourceGroupIDMaxLen"
        and u = "\<lambda>v s. s\<lparr>ssVolume := (ssVolume s)\<lparr>volResourceGroup := Some v\<rparr>\<rparr>", OF _ secret_natural(1)])
    (auto simp: secret_step_def volume_ops key_defs split: option.splits)

lemma secret_Encrypted: "simple_key secret_step Encrypted"
  by (rule simple_keyI[where c = "\<lambda>v. v = TrueStr \<or> v = FalseStr"
        and u = "\<lambda>v s. s\<lparr>ssEncrypt := v\<rparr>", OF _ secret_natural(2)])
    (auto simp: secret_step_def volume_ops key_defs split: option.splits)

lemma secret_EncryptionKey: "simple_key secret_step EncryptionKey"
  by (rule simple_keyI[where c = "\<lambda>v. length v \<le> EncryptionKeyMaxLen"
        and u = "\<lambda>v s. if v = '''' then s else s\<lparr>ssVolume := (ssVolume s)\<lparr>volEncryptionKey := Some v\<rparr>\<rparr>", OF _ natural_unless[OF secret_natural(3)]])
    (auto simp: secret_step_def volume_ops key_defs split: option.splits)

lemma secret_Tag: "simple_key secret_step Tag"
  by (rule simple_keyI[where c = "\<lambda>v. length v \<le> TagMaxLen"
        and u = "\<lambda>v s. if v = '''' then s else s\<lparr>ssVolume := (ssVolume s)\<lparr>volTags := volTags (ssVolume s) @ [v]\<rparr>\<rparr>", OF _ natural_unless[OF secret_natural(4)]])
    (auto simp: secret_step_def volume_ops key_defs split: option.splits)

lemma secret_Zone: "simple_key secret_step Zone"
  by (rule simple_keyI[where c = "\<lambda>v. length v \<le> ZoneNameMaxLen"
        and u = "\<lambda>v s. s\<lparr>ssVolume := (ssVolume s)\<lparr>volAz := v\<rparr>\<rparr>", OF _ secret_natural(5)])
    (auto simp: secret_step_def volume_ops key_defs split: option.splits)

lemma secret_Region: "simple_key secret_step Region"
  by (rule simple_keyI[where c = "\<lambda>v. length v \<le> RegionMaxLen"
        and u = "\<lambda>v s. s\<lparr>ssVolume := (ssVolume s)\<lparr>volRegion := v\<rparr>\<rparr>", OF _ secret_natural(6)])
    (auto simp: secret_step_def volume_ops key_defs split: option.splits)

lemma secret_IOPS: "simple_key secret_step IOPS"
  by (rule simple_keyI[where c = "\<lambda>v. v = '''' \<or> Atoi v \<noteq> None"
        and u = "\<lambda>v s. if v = '''' then s else s\<lparr>ssVolume := (ssVolume s)\<lparr>volIops := Some v\<rparr>\<rparr>", OF _ natural_unless[OF secret_natural(7)]])
    (auto simp: secret_step_def volume_ops key_defs split: option.splits)

lemma secret_Throughput: "simple_key secret_step Throughput"
  by (rule simple_keyI[where c = "\<lambda>v. v = '''' \<or> ParseInt 32 v \<noteq> None"
        and u = "\<lambda>v s. if v = '''' then s else s\<lparr>ssVolume := (ssVolume s)\<lparr>volBandwidth := the (ParseInt 32 v)\<rparr>\<rparr>", OF _ natural_unless[OF secret_natural(8)]])
    (auto simp: secret_step_def volume_ops key_defs split: option.splits)

lemma secret_SecurityGroupIDs: "simple_key secret_step SecurityGroupIDs"
  by (rule simple_keyI[where c = "\<lambda>v. True"
        and u = "\<lambda>v s. if v = '''' then s else s\<lparr>ssVolume := (ssVolume s)\<lparr>volSecurityGroups := Some (Split (TrimSpace v) CHR '','')\<rparr>\<rparr>", OF _ natural_unless[OF secret_natural(9)]])
    (auto simp: secret_step_def volume_ops key_defs split: option.splits)

lemma secret_SubnetID: "simple_key secret_step SubnetID"
  by (rule simple_keyI[where c = "\<lambda>v. True"
        and u = "\<lambda>v s. if v = '''' then s else s\<lparr>ssVolume := (ssVolume s)\<lparr>volSubnetID := v\<rparr>\<rparr>", OF _ natural_unless[OF secret_natural(10)]])
    (auto simp: secret_step_def volume_ops key_defs split: option.splits)

lemma secret_IsENIEnabled: "simple_key secret_step IsENIEnabled"
  by (rule simple_keyI[where c = "\<lambda>v. ToLower v = TrueStr \<or> ToLower v = FalseStr"
        and u = "\<lambda>v s. s\<lparr>ssVolume := (ssVolume s)\<lparr>volAccessControlMode := (if ToLower v = TrueStr then SecurityGroup else VPC)\<rparr>\<rparr>", OF _ secret_natural(11)])
    (auto simp: secret_step_def volume_ops key_defs split: option.splits)

lemma secret_IsEITEnabled: "simple_key secret_step IsEITEnabled"
  by (rule simple_keyI[where c = "\<lambda>v. ToLower v = TrueStr \<or> ToLower v = FalseStr"
        and u = "\<lambda>v s. if ToLower v \<noteq> TrueStr then s else s\<lparr>ssVolume := (ssVolume s)\<lparr>volTransitEncryption := EncryptionTransitMode\<rparr>\<rparr>",
        OF _ natural_unless[OF secret_natural(12)]])
    (simp add: secret_step_def volume_ops key_defs)

lemma secret_step_other:
  "k \<notin> {ResourceGroup, Encrypted, EncryptionKey, Tag, Zone, Region, IOPS, Throughput, SecurityGroupIDs, SubnetID,
     IsENIEnabled, IsEITEnabled, PrimaryIPID, PrimaryIPAddress} \<Longrightarrow> success (secret_step k v s) = None"
  by (simp add: secret_step_def)

lemma primary_ip_commute:
  assumes "\<And>v s. success (body PrimaryIPID v s) = (if v = '''' then Some s else
      if volPrimaryIP (get s) = None then Some (put (\<lambda>w. w\<lparr>volPrimaryIP := Some \<lparr>ipID = v, ipAddress = []\<rparr>\<rparr>) s) else None)"
    and "\<And>v s. success (body PrimaryIPAddress v s) = (if v = '''' then Some s else
      if volPrimaryIP (get s) = None then Some (put (\<lambda>w. w\<lparr>volPrimaryIP := Some \<lparr>ipID = [], ipAddress = v\<rparr>\<rparr>) s) else None)"
    and "\<And>f s. get (put f s) = f (get s)"
  shows "success (each_entry body [(PrimaryIPID, v1), (PrimaryIPAddress, v2)] s) =
    success (each_entry body [(PrimaryIPAddress, v2), (PrimaryIPID, v1)] s)"
  unfolding each_entry_two assms(1,2) using assms(3) by simp

lemma secret_primary_ip:
  "success (each_entry secret_step [(PrimaryIPID, v1), (PrimaryIPAddress, v2)] s) =
    success (each_entry secret_step [(PrimaryIPAddress, v2), (PrimaryIPID, v1)] s)"
  by (rule primary_ip_commute[where get = ssVolume and put = "\<lambda>f s. s\<lparr>ssVolume := f (ssVolume s)\<rparr>"])
    (simp_all add: secret_step_def volume_ops key_defs split: option.splits)

lemmas secret_simple = secret_ResourceGroup secret_Encrypted secret_EncryptionKey secret_Tag secret_Zone
  secret_Region secret_IOPS secret_Throughput secret_SecurityGroupIDs secret_SubnetID secret_IsENIEnabled
  secret_IsEITEnabled

text \<open>Two different keys: one of them is simple or refused, or they are the two ways to give a primary IP.\<close>

lemma entries_commute:
  assumes "\<And>k. k \<notin> {PrimaryIPID, PrimaryIPAddress} \<Longrightarrow> simple_key body k \<or> (\<forall>v s. success (body k v s) = None)"
    and "\<And>v1 v2 s. success (each_entry body [(PrimaryIPID, v1), (PrimaryIPAddress, v2)] s) =
      success (each_entry body [(PrimaryIPAddress, v2), (PrimaryIPID, v1)] s)"
    and "k1 \<noteq> k2"
  shows "success (each_entry body [(k1, v1), (k2, v2)] s) = success (each_entry body [(k2, v2), (k1, v1)] s)"
proof (cases "{k1, k2} \<subseteq> {PrimaryIPID, PrimaryIPAddress}")
  case True
  then show ?thesis using assms(2,3) by fastforce
next
  case False
  then consider "k1 \<notin> {PrimaryIPID, PrimaryIPAddress}" | "k2 \<notin> {PrimaryIPID, PrimaryIPAddress}" by blast
  then show ?thesis
  proof cases
    case 1
    then show ?thesis using assms(1,3) simple_key_commutes refused_key_commutes by metis
  next
    case 2
    then show ?thesis using assms(1,3) simple_key_commutes refused_key_commutes by metis
  qed
qed

interpretation secrets: commuting_entries secret_step
proof unfold_locales
  show "success (each_entry secret_step [(k1, v1), (k2, v2)] s) = success (each_entry secret_step [(k2, v2), (k1, v1)] s)"
    if "k1 \<noteq> k2" for k1 k2 v1 v2 s
  proof (rule entries_commute[OF _ secret_primary_ip that])
    show "simple_key secret_step k \<or> (\<forall>v s. success (secret_step k v s) = None)"
      if "k \<notin> {PrimaryIPID, PrimaryIPAddress}" for k
      using that secret_simple secret_step_other[of k] by blast
  qed
qed

section \<open>The loop over the parameters\<close>

lemma param_natural:
  "natural (param_step U) Profile (\<lambda>s. s\<lparr>psVolume := (psVolume s)\<lparr>volProfile := Some c\<rparr>\<rparr>)"
  "natural (param_step U) ResourceGroup (\<lambda>s. s\<lparr>psVolume := (psVolume s)\<lparr>volResourceGroup := Some c\<rparr>\<rparr>)"
  "natural (param_step U) Encrypted (\<lambda>s. s\<lparr>psEncrypt := c\<rparr>)"
  "natural (param_step U) EncryptionKey (\<lambda>s. s\<lparr>psVolume := (psVolume s)\<lparr>volEncryptionKey := Some c\<rparr>\<rparr>)"
  "natural (param_step U) Tag (\<lambda>s. s\<lparr>psVolume := (psVolume s)\<lparr>volTags := [c]\<rparr>\<rparr>)"
  "natural (param_step U) Zone (\<lambda>s. s\<lparr>psVolume := (psVolume s)\<lparr>volAz := c\<rparr>\<rparr>)"
  "natural (param_step U) Region (\<lambda>s. s\<lparr>psVolume := (psVolume s)\<lparr>volRegion := c\<rparr>\<rparr>)"
  "natural (param_step U) IOPS (\<lambda>s. s\<lparr>psVolume := (psVolume s)\<lparr>volIops := Some c\<rparr>\<rparr>)"
  "natural (param_step U) Throughput (\<lambda>s. s\<lparr>psVolume := (psVolume s)\<lparr>volBandwidth := n\<rparr>\<rparr>)"
  "natural (param_step U) SecurityGroupIDs (\<lambda>s. s\<lparr>psVolume := (psVolume s)\<lparr>volSecurityGroups := gs\<rparr>\<rparr>)"
  "natural (param_step U) SubnetID (\<lambda>s. s\<lparr>psVolume := (psVolume s)\<lparr>volSubnetID := c\<rparr>\<rparr>)"
  "natural (param_step U) IsENIEnabled (\<lambda>s. s\<lparr>psVolume := (psVolume s)\<lparr>volAccessControlMode := c\<rparr>\<rparr>)"
  "natural (param_step U) IsEITEnabled (\<lambda>s. s\<lparr>psVolume := (psVolume s)\<lparr>volTransitEncryption := c\<rparr>\<rparr>)"
  "natural (param_step U) UID (\<lambda>s. s\<lparr>psUid := n\<rparr>)"
  "natural (param_step U) GID (\<lambda>s. s\<lparr>psGid := n\<rparr>)"
  unfolding natural_def param_step_def volume_ops
  by (intro allI impI; simp add: Some_if cong: if_cong option.case_cong split del: if_split;
      intro if_eqI case_option_eqI; simp)+

lemma param_Profile: "simple_key (param_step U) Profile"
  by (rule simple_keyI[where c = "\<lambda>v. ListContainsSubstr U SupportedProfile v"
        and u = "\<lambda>v s. s\<lparr>psVolume := (psVolume s)\<lparr>volProfile := Some v\<rparr>\<rparr>", OF _ param_natural(1)])
    (auto simp: param_step_def volume_ops key_defs split: option.splits)

lemma param_ResourceGroup: "simple_key (param_step U) ResourceGroup"
  by (rule simple_keyI[where c = "\<lambda>v. length v \<le> ResourceGroupIDMaxLen"
        and u = "\<lambda>v s. s\<lparr>psVolume := (psVolume s)\<lparr>volResourceGroup := Some v\<rparr>\<rparr>", OF _ param_natural(2)])
    (auto simp: param_step_def volume_ops key_defs split: option.splits)

lemma param_Encrypted: "simple_key (param_step U) Encrypted"
  by (rule simple_keyI[where c = "\<lambda>v. v = TrueStr \<or> v = FalseStr"
        and u = "\<lambda>v s. s\<lparr>psEncrypt := v\<rparr>", OF _ param_natural(3)])
    (auto simp: param_step_def volume_ops key_defs split: option.splits)

lemma param_EncryptionKey: "simple_key (param_step U) EncryptionKey"
  by (rule simple_keyI[where c = "\<lambda>v. length v \<le> EncryptionKeyMaxLen"
        and u = "\<lambda>v s. if v = '''' then s else s\<lparr>psVolume := (psVolume s)\<lparr>volEncryptionKey := Some v\<rparr>\<rparr>", OF _ natural_unless[OF param_natural(4)]])
    (auto simp: param_step_def volume_ops key_defs split: option.splits)

lemma param_Tag: "simple_key (param_step U) Tag"
  by (rule simple_keyI[where c = "\<lambda>v. length v \<le> TagMaxLen"
        and u = "\<lambda>v s. if v = '''' then s else s\<lparr>psVolume := (psVolume s)\<lparr>volTags := [v]\<rparr>\<rparr>", OF _ natural_unless[OF param_natural(5)]])
    (auto simp: param_step_def volume_ops key_defs split: option.splits)

lemma param_Zone: "simple_key (param_step U) Zone"
  by (rule simple_keyI[where c = "\<lambda>v. length v \<le> ZoneNameMaxLen"
        and u = "\<lambda>v s. s\<lparr>psVolume := (psVolume s)\<lparr>volAz := v\<rparr>\<rparr>", OF _ param_natural(6)])
    (auto simp: param_step_def volume_ops key_defs split: option.splits)

lemma param_Region: "simple_key (param_step U) Region"
  by (rule simple_keyI[where c = "\<lambda>v. length v \<le> RegionMaxLen"
        and u = "\<lambda>v s. s\<lparr>psVolume := (psVolume s)\<lparr>volRegion := v\<rparr>\<rparr>", OF _ param_natural(7)])
    (auto simp: param_step_def volume_ops key_defs split: option.splits)

lemma param_IOPS: "simple_key (param_step U) IOPS"
  by (rule simple_keyI[where c = "\<lambda>v. True"
        and u = "\<lambda>v s. if v = '''' then s else s\<lparr>psVolume := (psVolume s)\<lparr>volIops := Some v\<rparr>\<rparr>", OF _ natural_unless[OF param_natural(8)]])
    (auto simp: param_step_def volume_ops key_defs split: option.splits)

lemma param_Throughput: "simple_key (param_step U) Throughput"
  by (rule simple_keyI[where c = "\<lambda>v. v = '''' \<or> ParseInt 32 v \<noteq> None"
        and u = "\<lambda>v s. if v = '''' then s else s\<lparr>psVolume := (psVolume s)\<lparr>volBandwidth := the (ParseInt 32 v)\<rparr>\<rparr>", OF _ natural_unless[OF param_natural(9)]])
    (auto simp: param_step_def volume_ops key_defs split: option.splits)

lemma param_SecurityGroupIDs: "simple_key (param_step U) SecurityGroupIDs"
  by (rule simple_keyI[where c = "\<lambda>v. True"
        and u = "\<lambda>v s. if v = '''' then s else s\<lparr>psVolume := (psVolume s)\<lparr>volSecurityGroups := Some (Split (TrimSpace v) CHR '','')\<rparr>\<rparr>", OF _ natural_unless[OF param_natural(10)]])
    (auto simp: param_step_def volume_ops key_defs split: option.splits)

lemma param_SubnetID: "simple_key (param_step U) SubnetID"
  by (rule simple_keyI[where c = "\<lambda>v. True"
        and u = "\<lambda>v s. if v = '''' then s else s\<lparr>psVolume := (psVolume s)\<lparr>volSubnetID := v\<rparr>\<rparr>", OF _ natural_unless[OF param_natural(11)]])
    (auto simp: param_step_def volume_ops key_defs split: option.splits)

lemma param_IsENIEnabled: "simple_key (param_step U) IsENIEnabled"
  by (rule simple_keyI[where c = "\<lambda>v. ToLower v = TrueStr \<or> ToLower v = FalseStr"
        and u = "\<lambda>v s. s\<lparr>psVolume := (psVolume s)\<lparr>volAccessControlMode := (if ToLower v = TrueStr then SecurityGroup else VPC)\<rparr>\<rparr>", OF _ param_natural(12)])
    (auto simp: param_step_def volume_ops key_defs split: option.splits)

lemma param_IsEITEnabled: "simple_key (param_step U) IsEITEnabled"
  by (rule simple_keyI[where c = "\<lambda>v. ToLower v = TrueStr \<or> ToLower v = FalseStr"
        and u = "\<lambda>v s. if ToLower v \<noteq> TrueStr then s else s\<lparr>psVolume := (psVolume s)\<lparr>volTransitEncryption := EncryptionTransitMode\<rparr>\<rparr>",
        OF _ natural_unless[OF param_natural(13)]])
    (simp add: param_step_def volume_ops key_defs)

lemma param_UID: "simple_key (param_step U) UID"
  by (rule simple_keyI[where c = "\<lambda>v. (\<exists>i. Atoi v = Some i \<and> 0 \<le> i)"
        and u = "\<lambda>v s. s\<lparr>psUid := the (Atoi v)\<rparr>", OF _ param_natural(14)])
    (auto simp: param_step_def volume_ops key_defs split: option.splits)

lemma param_GID: "simple_key (param_step U) GID"
  by (rule simple_keyI[where c = "\<lambda>v. (\<exists>i. Atoi v = Some i \<and> 0 \<le> i)"
        and u = "\<lambda>v s. s\<lparr>psGid := the (Atoi v)\<rparr>", OF _ param_natural(15)])
    (auto simp: param_step_def volume_ops key_defs split: option.splits)

lemma param_ignored:
  "simple_key (param_step U) BillingType" "simple_key (param_step U) ClassVersion"
  "simple_key (param_step U) SizeRangeSupported" "simple_key (param_step U) SizeIopsRange"
  "simple_key (param_step U) Generation" "simple_key (param_step U) VMState"
  by (rule ignored_key_simple, simp add: param_step_def key_defs)+

lemma param_step_other:
  "k \<notin> {Profile, ResourceGroup, Encrypted, EncryptionKey, Tag, Zone, Region, IOPS, Throughput, SecurityGroupIDs, SubnetID,
     IsENIEnabled, IsEITEnabled, PrimaryIPID, PrimaryIPAddress, UID, GID, BillingType, ClassVersion, SizeRangeSupported,
     SizeIopsRange, Generation, VMState} \<Longrightarrow> success (param_step U k v s) = None"
  by (simp add: param_step_def)

lemma param_primary_ip:
  "success (each_entry (param_step U) [(PrimaryIPID, v1), (PrimaryIPAddress, v2)] s) =
    success (each_entry (param_step U) [(PrimaryIPAddress, v2), (PrimaryIPID, v1)] s)"
  by (rule primary_ip_commute[where get = psVolume and put = "\<lambda>f s. s\<lparr>psVolume := f (psVolume s)\<rparr>"])
    (simp_all add: param_step_def volume_ops key_defs split: option.splits)

lemmas param_simple = param_Profile param_ResourceGroup param_Encrypted param_EncryptionKey param_Tag param_Zone
  param_Region param_IOPS param_Throughput param_SecurityGroupIDs param_SubnetID param_IsENIEnabled
  param_IsEITEnabled param_UID param_GID

interpretation params: commuting_entries "param_step U" for U
proof unfold_locales
  show "success (each_entry (param_step U) [(k1, v1), (k2, v2)] s) = success (each_entry (param_step U) [(k2, v2), (k1, v1)] s)"
    if "k1 \<noteq> k2" for k1 k2 v1 v2 s
  proof (rule entries_commute[OF _ param_primary_ip that])
    show "simple_key (param_step U) k \<or> (\<forall>v s. success (param_step U k v s) = None)"
      if "k \<notin> {PrimaryIPID, PrimaryIPAddress}" for k
    proof (cases "k \<in> {Profile, ResourceGroup, Encrypted, EncryptionKey, Tag, Zone, Region, IOPS, Throughput,
        SecurityGroupIDs, SubnetID, IsENIEnabled, IsEITEnabled, PrimaryIPID, PrimaryIPAddress, UID, GID, BillingType,
        ClassVersion, SizeRangeSupported, SizeIopsRange, Generation, VMState}")
      case True
      then show ?thesis using that by (elim insertE emptyE) (simp_all add: param_simple param_ignored)
    next
      case False
      then show ?thesis using param_step_other by blast
    qed
  qed
qed

section \<open>Property\<close>

text \<open>How a call ended, without saying which error it was.\<close>

fun settled :: "('e, 'a) outcome \<Rightarrow> (unit, 'a) outcome" where
  "settled (Ok a) = Ok a"
| "settled (Err e) = Err ()"
| "settled Panic = Panic"

lemma settled_eq_cases:
  assumes "settled x = settled y"
  obtains a where "x = Ok a" "y = Ok a" | e e' where "x = Err e" "y = Err e'" | "x = Panic" "y = Panic"
  using assms by (cases x; cases y) auto

lemma success_eq_cases:
  assumes "success x = success y"
  obtains a where "x = Inr a" "y = Inr a" | e e' where "x = Inl e" "y = Inl e'"
  using assms by (cases x; cases y) auto

lemma overrideParams_order:
  assumes "mset xs = mset ys" "distinct (map fst xs)"
  shows "settled (overrideParams xs g v) = settled (overrideParams ys g v)"
  using secrets.iteration_order[OF assms, of "\<lparr>ssVolume = v, ssEncrypt = undef\<rparr>"]
  by (rule success_eq_cases) (simp_all add: overrideParams_def)

text \<open>C10: the iteration order of Go maps is irrelevant. For a request whose parameters and secrets come in another
  order, getVolumeParameters succeeds on one exactly when it succeeds on the other, and with the same volume; and it
  returns an error, or dereferences nil, on one exactly when it does on the other.\<close>

theorem getVolumeParameters_order:
  assumes "mset (reqParams req) = mset ps" "distinct (map fst (reqParams req))"
    "mset (reqSecrets req) = mset ss" "distinct (map fst (reqSecrets req))"
  shows "settled (getVolumeParameters U g (req\<lparr>reqParams := ps, reqSecrets := ss\<rparr>)) = settled (getVolumeParameters U g req)"
proof -
  let ?r = "req\<lparr>reqParams := ps, reqSecrets := ss\<rparr>" and ?s0 = "start_state (reqName req)"
  note params = success_eq_cases[OF params.iteration_order[OF assms(1,2), of U ?s0]]
  show ?thesis
  proof (rule params)
    fix s
    assume s: "each_entry (param_step U) (reqParams req) ?s0 = Inr s" "each_entry (param_step U) ps ?s0 = Inr s"
    let ?v0 = "finish_params (reqSource req) s"
    consider "volProfile ?v0 = None"
      | p e where "volProfile ?v0 = Some p" "getRequestedCapacity U (reqRange req) p = Inl e"
      | p cap where "volProfile ?v0 = Some p" "getRequestedCapacity U (reqRange req) p = Inr cap"
      by (metis option.exhaust sum.exhaust)
    then show ?thesis
    proof cases
      case (3 p cap)
      have "settled (overrideParams (reqSecrets req) g (?v0\<lparr>volCapacity := Some (BytesToGiB U cap)\<rparr>)) =
          settled (overrideParams ss g (?v0\<lparr>volCapacity := Some (BytesToGiB U cap)\<rparr>))"
        using overrideParams_order[OF assms(3,4)] .
      then show ?thesis
        by (rule settled_eq_cases) (use s 3 in \<open>simp_all add: getVolumeParameters_def Let_def
            cong: if_cong option.case_cong split del: if_split del: success_if success_case_option\<close>)
    qed (use s in \<open>simp_all add: getVolumeParameters_def Let_def\<close>)
  qed (simp add: getVolumeParameters_def)
qed

end
