(* ===== verification/Param_Props.thy ===== *)
theory Param_Props
  imports Param_Order
begin

text \<open>
  What a volume accepted by \<open>getVolumeParameters\<close> satisfies, whatever the request: the checks of the two loops and of
  the code after them, collected into one statement, and the capacity and IOPS rules.
\<close>

section \<open>Loop invariants\<close>

lemma each_entry_inv:
  assumes "\<And>k v s s'. P s \<Longrightarrow> body k v s = Inr s' \<Longrightarrow> P s'" "P s" "each_entry body xs s = Inr s'"
  shows "P s'"
  using assms(2,3)
proof (induction xs arbitrary: s)
  case (Cons x xs)
  obtain k v where x: "x = (k, v)" by (cases x)
  then obtain t where "body k v s = Inr t" "each_entry body xs t = Inr s'"
    using Cons.prems(2) by (auto split: sum.splits)
  then show ?case using Cons.IH assms(1) Cons.prems(1) by blast
qed simp

lemma if_InrE:
  "(if b then x else y) = Inr s \<Longrightarrow> (b \<Longrightarrow> x = Inr s \<Longrightarrow> P) \<Longrightarrow> (\<not> b \<Longrightarrow> y = Inr s \<Longrightarrow> P) \<Longrightarrow> P"
  by (cases b) simp_all

text \<open>What every parameter and every secret keeps of the volume under construction.\<close>

definition draft_ok :: "utils \<Rightarrow> string \<Rightarrow> volume \<Rightarrow> bool" where
  "draft_ok U name v \<longleftrightarrow>
     volName v = Some name \<and> volAccessControlMode v \<in> {SecurityGroup, VPC} \<and>
     volTransitEncryption v \<in> {'''', EncryptionTransitMode} \<and>
     (\<forall>p. volProfile v = Some p \<longrightarrow> ListContainsSubstr U SupportedProfile p) \<and>
     (\<forall>ip. volPrimaryIP v = Some ip \<longrightarrow> ipID ip = '''' \<or> ipAddress ip = '''')"

lemma draft_ok_simps [simp]:
  "draft_ok U n (v\<lparr>volAz := a\<rparr>) = draft_ok U n v" "draft_ok U n (v\<lparr>volRegion := a\<rparr>) = draft_ok U n v"
  "draft_ok U n (v\<lparr>volTags := t\<rparr>) = draft_ok U n v" "draft_ok U n (v\<lparr>volSubnetID := a\<rparr>) = draft_ok U n v"
  "draft_ok U n (v\<lparr>volSecurityGroups := g\<rparr>) = draft_ok U n v" "draft_ok U n (v\<lparr>volResourceGroup := r\<rparr>) = draft_ok U n v"
  "draft_ok U n (v\<lparr>volEncryptionKey := r\<rparr>) = draft_ok U n v" "draft_ok U n (v\<lparr>volIops := r\<rparr>) = draft_ok U n v"
  "draft_ok U n (v\<lparr>volBandwidth := b\<rparr>) = draft_ok U n v" "draft_ok U n (v\<lparr>volCapacity := c\<rparr>) = draft_ok U n v"
  "draft_ok U n (v\<lparr>volOwner := ow\<rparr>) = draft_ok U n v"
  by (simp_all add: draft_ok_def)

lemma draft_ok_writes:
  "draft_ok U n v \<Longrightarrow> ListContainsSubstr U SupportedProfile p \<Longrightarrow> draft_ok U n (v\<lparr>volProfile := Some p\<rparr>)"
  "draft_ok U n v \<Longrightarrow> draft_ok U n (setSecurityGroupList value v)"
  "draft_ok U n v \<Longrightarrow> checkAndSetISENIEnabled key value v = Inr v' \<Longrightarrow> draft_ok U n v'"
  "draft_ok U n v \<Longrightarrow> checkAndSetISEITEnabled key value v = Inr v' \<Longrightarrow> draft_ok U n v'"
  "draft_ok U n v \<Longrightarrow> setPrimaryIPID key value v = Inr v' \<Longrightarrow> draft_ok U n v'"
  "draft_ok U n v \<Longrightarrow> setPrimaryIPAddress key value v = Inr v' \<Longrightarrow> draft_ok U n v'"
  by (auto simp: draft_ok_def volume_ops split: if_splits option.splits)

lemma param_step_draft:
  assumes "draft_ok U n (psVolume s)" "param_step U key value s = Inr s'"
  shows "draft_ok U n (psVolume s')"
  using assms(2) unfolding param_step_def
  by (elim if_InrE) (use assms(1) in \<open>auto simp: on_volume_def intro: draft_ok_writes split: if_splits option.splits sum.splits\<close>)

text \<open>Secrets change neither the profile nor the capacity.\<close>

lemma secret_step_draft:
  assumes "draft_ok U n (ssVolume s) \<and> volProfile (ssVolume s) = p \<and> volCapacity (ssVolume s) = c"
    "secret_step key value s = Inr s'"
  shows "draft_ok U n (ssVolume s') \<and> volProfile (ssVolume s') = p \<and> volCapacity (ssVolume s') = c"
proof
  show "draft_ok U n (ssVolume s')"
    using assms(2) unfolding secret_step_def
    by (elim if_InrE) (use assms(1) in \<open>auto simp: on_secret_volume_def intro: draft_ok_writes split: if_splits option.splits sum.splits\<close>)
  show "volProfile (ssVolume s') = p \<and> volCapacity (ssVolume s') = c"
    using assms(2) unfolding secret_step_def
    by (elim if_InrE) (use assms(1) in \<open>auto simp: on_secret_volume_def volume_ops split: if_splits option.splits sum.splits\<close>)
qed

lemma params_draft:
  assumes "each_entry (param_step U) xs (start_state n) = Inr s"
  shows "draft_ok U n (finish_params src s)"
proof -
  have "draft_ok U n (psVolume s)"
    by (rule each_entry_inv[where P = "\<lambda>s. draft_ok U n (psVolume s)", OF _ _ assms])
      (rule param_step_draft, assumption+, simp add: start_state_def draft_ok_def empty_volume_def)
  then show ?thesis by (simp add: finish_params_def Let_def)
qed

lemma overrideParams_draft:
  assumes "overrideParams xs g v = Ok v'" "draft_ok U n v"
  shows "draft_ok U n v'" "volProfile v' = volProfile v" "volCapacity v' = volCapacity v" "volResourceGroup v' \<noteq> None"
proof -
  obtain s where s: "each_entry secret_step xs \<lparr>ssVolume = v, ssEncrypt = undef\<rparr> = Inr s"
    using assms(1) by (auto simp: overrideParams_def split: sum.splits)
  have inv: "draft_ok U n (ssVolume s) \<and> volProfile (ssVolume s) = volProfile v \<and> volCapacity (ssVolume s) = volCapacity v"
    by (rule each_entry_inv[where P = "\<lambda>s. draft_ok U n (ssVolume s) \<and> volProfile (ssVolume s) = volProfile v \<and>
          volCapacity (ssVolume s) = volCapacity v", OF _ _ s])
      (rule secret_step_draft, assumption+, simp add: assms(2))
  then show "draft_ok U n v'" "volProfile v' = volProfile v" "volCapacity v' = volCapacity v" "volResourceGroup v' \<noteq> None"
    using assms(1) s by (auto simp: overrideParams_def Let_def split: if_splits option.splits)
qed

section \<open>Accepted volumes\<close>

text \<open>The way a successful run goes through the function.\<close>

lemma getVolumeParameters_OkE:
  assumes "getVolumeParameters U g req = Ok v"
  obtains profile cap w where "draft_ok U (reqName req) w" "volProfile w = Some profile"
    "getRequestedCapacity U (reqRange req) profile = Inr cap" "volCapacity w = Some (BytesToGiB U cap)"
    "volResourceGroup w \<noteq> None" "reqCaps req \<noteq> []" "check_params profile w = None"
    "v = w\<lparr>volTransitEncryption := eit_mode profile (volTransitEncryption w)\<rparr> \<or>
      (\<exists>zones. profile = DP2Profile \<and> pickTargetTopologyParams (reqPreferred req) = Inr zones \<and>
        v = w\<lparr>volRegion := map_get zones (NodeRegionLabel U), volAz := map_get zones (NodeZoneLabel U),
              volTransitEncryption := eit_mode profile (volTransitEncryption w)\<rparr>)"
proof -
  obtain s where s: "each_entry (param_step U) (reqParams req) (start_state (reqName req)) = Inr s"
    using assms by (auto simp: getVolumeParameters_def split: sum.splits)
  let ?v0 = "finish_params (reqSource req) s"
  have d0: "draft_ok U (reqName req) ?v0" using s by (rule params_draft)
  obtain profile cap w where w: "volProfile ?v0 = Some profile" "getRequestedCapacity U (reqRange req) profile = Inr cap"
    "overrideParams (reqSecrets req) g (?v0\<lparr>volCapacity := Some (BytesToGiB U cap)\<rparr>) = Ok w"
    using assms s by (auto simp: getVolumeParameters_def Let_def split: sum.splits option.splits outcome.splits)
  note inv = overrideParams_draft[OF w(3), of U "reqName req"]
  show thesis
  proof (rule that[of w profile cap])
    show "draft_ok U (reqName req) w" "volProfile w = Some profile" "volCapacity w = Some (BytesToGiB U cap)"
      "volResourceGroup w \<noteq> None" using inv d0 w(1) by simp_all
    show "reqCaps req \<noteq> []" "check_params profile w = None"
      using assms s w by (auto simp: getVolumeParameters_def Let_def split: if_splits option.splits outcome.splits)
    then show "v = w\<lparr>volTransitEncryption := eit_mode profile (volTransitEncryption w)\<rparr> \<or>
      (\<exists>zones. profile = DP2Profile \<and> pickTargetTopologyParams (reqPreferred req) = Inr zones \<and>
        v = w\<lparr>volRegion := map_get zones (NodeRegionLabel U), volAz := map_get zones (NodeZoneLabel U),
              volTransitEncryption := eit_mode profile (volTransitEncryption w)\<rparr>)"
      using assms s w by (auto simp: getVolumeParameters_def Let_def split: if_splits sum.splits)
  qed (fact w(2))
qed

lemma eit_mode_range: "eit_mode profile transit \<in> {NONE, IPSEC, STUNNEL}"
  by (simp add: eit_mode_def)

text \<open>What the checks and the encryption mode leave.\<close>

lemma check_params_None:
  assumes "check_params profile w = None"
  shows "volTransitEncryption w = EncryptionTransitMode \<longrightarrow> volAccessControlMode w = SecurityGroup"
    "profile = DP2Profile \<longrightarrow> volBandwidth w \<le> 0" "profile = RFSProfile \<longrightarrow> blank (volAz w) \<and> (\<forall>i. volIops w = Some i \<longrightarrow> blank i)"
    "volPrimaryIP w = Some ip \<Longrightarrow> volAccessControlMode w = SecurityGroup \<Longrightarrow> ipAddress ip \<noteq> '''' \<Longrightarrow> volSubnetID w \<noteq> ''''"
  using assms by (auto simp: check_params_def blank_def split: if_splits)

lemma eit_mode_profile:
  "eit_mode profile transit = IPSEC \<Longrightarrow> profile = DP2Profile \<and> transit = EncryptionTransitMode"
  "eit_mode profile transit = STUNNEL \<Longrightarrow> profile = RFSProfile \<and> transit = EncryptionTransitMode"
  by (auto simp: eit_mode_def key_defs split: if_splits)

lemma getVolumeParameters_basics:
  assumes "getVolumeParameters U g req = Ok v"
  shows "volName v = Some (reqName req)" "volCapacity v \<noteq> None" "volTransitEncryption v \<in> {NONE, IPSEC, STUNNEL}"
  by (rule getVolumeParameters_OkE[OF assms]; use eit_mode_range in \<open>auto simp: draft_ok_def\<close>)+

text \<open>C11: an accepted volume is consistent. It has the request's name, a supported profile, the capacity computed
  from the request and a resource group; encryption in transit is IPsec only for dp2 and stunnel only for rfs, and
  always goes with a security group; rfs has neither a zone nor IOPS, dp2 has no bandwidth, a primary IP address in
  security group mode comes with a subnet, and a primary IP is never given both by id and by address.\<close>

theorem getVolumeParameters_ok:
  assumes "getVolumeParameters U g req = Ok v"
  shows "\<exists>profile cap. volProfile v = Some profile \<and> ListContainsSubstr U SupportedProfile profile \<and>
    volName v = Some (reqName req) \<and> reqCaps req \<noteq> [] \<and> volResourceGroup v \<noteq> None \<and>
    getRequestedCapacity U (reqRange req) profile = Inr cap \<and> volCapacity v = Some (BytesToGiB U cap) \<and>
    volAccessControlMode v \<in> {SecurityGroup, VPC} \<and>
    volTransitEncryption v \<in> {NONE, IPSEC, STUNNEL} \<and>
    (volTransitEncryption v = IPSEC \<longrightarrow> profile = DP2Profile \<and> volAccessControlMode v = SecurityGroup) \<and>
    (volTransitEncryption v = STUNNEL \<longrightarrow> profile = RFSProfile \<and> volAccessControlMode v = SecurityGroup) \<and>
    (profile = RFSProfile \<longrightarrow> blank (volAz v) \<and> (\<forall>i. volIops v = Some i \<longrightarrow> blank i)) \<and>
    (profile = DP2Profile \<longrightarrow> volBandwidth v \<le> 0) \<and>
    (\<forall>ip. volPrimaryIP v = Some ip \<longrightarrow> (ipID ip = '''' \<or> ipAddress ip = '''') \<and>
       (volAccessControlMode v = SecurityGroup \<and> ipAddress ip \<noteq> '''' \<longrightarrow> volSubnetID v \<noteq> ''''))"
proof -
  obtain profile cap w where w: "draft_ok U (reqName req) w" "volProfile w = Some profile"
    "getRequestedCapacity U (reqRange req) profile = Inr cap" "volCapacity w = Some (BytesToGiB U cap)"
    "volResourceGroup w \<noteq> None" "reqCaps req \<noteq> []" "check_params profile w = None"
    and v: "v = w\<lparr>volTransitEncryption := eit_mode profile (volTransitEncryption w)\<rparr> \<or>
      (\<exists>zones. profile = DP2Profile \<and> pickTargetTopologyParams (reqPreferred req) = Inr zones \<and>
        v = w\<lparr>volRegion := map_get zones (NodeRegionLabel U), volAz := map_get zones (NodeZoneLabel U),
              volTransitEncryption := eit_mode profile (volTransitEncryption w)\<rparr>)"
    by (rule getVolumeParameters_OkE[OF assms]) (rule that)
  have keep: "volProfile v = Some profile" "volName v = volName w" "volResourceGroup v = volResourceGroup w"
    "volCapacity v = volCapacity w" "volAccessControlMode v = volAccessControlMode w" "volIops v = volIops w"
    "volBandwidth v = volBandwidth w" "volPrimaryIP v = volPrimaryIP w" "volSubnetID v = volSubnetID w"
    "volTransitEncryption v = eit_mode profile (volTransitEncryption w)" "profile \<noteq> DP2Profile \<Longrightarrow> volAz v = volAz w"
    using v w(2) by auto
  note checks = check_params_None[OF w(7)]
  have "profile = RFSProfile \<longrightarrow> volAz v = volAz w" using keep(11) by (auto simp: key_defs)
  then have "\<forall>ip. volPrimaryIP v = Some ip \<longrightarrow> (ipID ip = [] \<or> ipAddress ip = []) \<and>
       (volAccessControlMode v = SecurityGroup \<and> ipAddress ip \<noteq> [] \<longrightarrow> volSubnetID v \<noteq> [])"
    and "profile = RFSProfile \<longrightarrow> blank (volAz v) \<and> (\<forall>i. volIops v = Some i \<longrightarrow> blank i)"
    using w(1) checks(3,4) keep(5,6,8,9) by (auto simp: draft_ok_def)
  moreover have "volAccessControlMode v \<in> {SecurityGroup, VPC}" "ListContainsSubstr U SupportedProfile profile"
    "volName v = Some (reqName req)"
    using w(1,2) keep(2,5) by (auto simp: draft_ok_def)
  moreover have "volTransitEncryption v = IPSEC \<longrightarrow> profile = DP2Profile \<and> volAccessControlMode v = SecurityGroup"
    "volTransitEncryption v = STUNNEL \<longrightarrow> profile = RFSProfile \<and> volAccessControlMode v = SecurityGroup"
    using eit_mode_profile[of profile "volTransitEncryption w"] checks(1) keep(5,10) by simp_all
  moreover have "volTransitEncryption v \<in> {NONE, IPSEC, STUNNEL}" "profile = DP2Profile \<longrightarrow> volBandwidth v \<le> 0"
    "volResourceGroup v \<noteq> None" "volCapacity v = Some (BytesToGiB U cap)"
    using eit_mode_range[of profile "volTransitEncryption w"] checks(2) w(4,5) keep(3,4,7,10) by simp_all
  ultimately show ?thesis
    using keep(1) w(3,6) by (intro exI[of _ profile] exI[of _ cap] conjI)
qed

section \<open>Capacity\<close>

lemma utils_round:
  assumes "utils_ok U" "0 < y" "y \<le> max_request"
  shows "2 ^ 30 dvd RoundUpBytes U y" "y \<le> RoundUpBytes U y" "RoundUpBytes U y < y + 2 ^ 30"
proof -
  have "GiB U dvd RoundUpBytes U y \<and> y \<le> RoundUpBytes U y \<and> RoundUpBytes U y < y + GiB U" and "GiB U = 2 ^ 30"
    using assms unfolding utils_ok_def by blast+
  then show "2 ^ 30 dvd RoundUpBytes U y" "y \<le> RoundUpBytes U y" "RoundUpBytes U y < y + 2 ^ 30" by simp_all
qed

text \<open>A multiple that is less than one step above a bound is the least one that reaches it.\<close>

lemma least_multiple:
  fixes g :: int
  assumes "0 < g" "g dvd m" "y \<le> m" "m < y + g"
  shows "g dvd m \<and> y \<le> m \<and> (\<forall>n. g dvd n \<and> y \<le> n \<longrightarrow> m \<le> n)"
proof (intro conjI allI impI)
  fix n
  assume n: "g dvd n \<and> y \<le> n"
  then obtain i j where ij: "m = g * i" "n = g * j" using assms(2) by (auto elim!: dvdE)
  then have "g * i < g * (j + 1)" using n assms(4) by (simp add: algebra_simps)
  then show "m \<le> n" using assms(1) ij by simp
qed (use assms in auto)



text \<open>The limit is checked before rounding up. A request for exactly 10 GiB and one byte, limited to the same size,
  is accepted with a capacity of 11 GiB, above the limit.\<close>

lemma getRequestedCapacity_exceeds_limit:
  assumes "utils_ok U"
  shows "getRequestedCapacity U (Some \<lparr>requiredBytes = 10 * 2 ^ 30 + 1, limitBytes = 10 * 2 ^ 30 + 1\<rparr>) profile = Inr (11 * 2 ^ 30)"
proof -
  let ?x = "10 * 2 ^ 30 + 1 :: int" and ?r = "RoundUpBytes U (10 * 2 ^ 30 + 1)"
  have u: "MinimumVolumeSizeInBytes U = 10 * 2 ^ 30"
    using assms by (simp add: utils_ok_def)
  have r: "2 ^ 30 dvd ?r" "?x \<le> ?r" "?r < ?x + 2 ^ 30" using utils_round[OF assms, of ?x] by (simp_all add: max_request_def)
  obtain k where k: "?r = 2 ^ 30 * k" using r(1) by blast
  then have "k = 11" using r(2,3) by simp
  then show ?thesis using u k by (simp add: getRequestedCapacity_def)
qed

lemma getRequestedCapacity_exceeds_limit_example:
  "getRequestedCapacity demo_utils (Some \<lparr>requiredBytes = 10 * 2 ^ 30 + 1, limitBytes = 10 * 2 ^ 30 + 1\<rparr>) DP2Profile = Inr (11 * 2 ^ 30)"
  by (rule getRequestedCapacity_exceeds_limit[OF demo_utils_ok])

text \<open>An rfs share may be as small as 1 GiB, but a limit below the dp2 minimum of 10 GiB is refused for rfs too.\<close>

lemma rfs_small_limit_refused:
  assumes "utils_ok U" "0 < lim" "lim < 10 * 2 ^ 30" "0 < n" "n \<le> lim"
  shows "getRequestedCapacity U None RFSProfile = Inr (2 ^ 30) \<and>
    getRequestedCapacity U (Some \<lparr>requiredBytes = n, limitBytes = lim\<rparr>) RFSProfile = Inl (LimitBelowMinimum lim)"
  using assms by (auto simp: getRequestedCapacity_def utils_ok_def MinimumRFSVolumeSizeInBytes_def Let_def)

lemma rfs_small_limit_refused_example:
  "getRequestedCapacity demo_utils (Some \<lparr>requiredBytes = 2 ^ 30, limitBytes = 2 ^ 31\<rparr>) RFSProfile = Inl (LimitBelowMinimum (2 ^ 31))"
  using rfs_small_limit_refused[OF demo_utils_ok, of "2 ^ 31" "2 ^ 30"] by simp

section \<open>Capacity and IOPS\<close>

lemma find_range_Some:
  "find_range rs sz = Some e \<Longrightarrow> e \<in> set rs \<and> minSize e \<le> sz \<and> sz \<le> maxSize e"
  by (induction rs) (auto split: if_splits)

text \<open>The dp2 table covers every size from 10 to 32000 GiB exactly once, and a size and an IOPS value are accepted
  exactly when they lie in one row of it.\<close>

lemma isValidCapacityIOPS_spec:
  "(isValidCapacityIOPS sz iops profile = Inr True \<longleftrightarrow> profile = DP2Profile \<and>
      (\<exists>e\<in>set dp2CapacityIopsRanges. minSize e \<le> sz \<and> sz \<le> maxSize e \<and> minIops e \<le> iops \<and> iops \<le> maxIops e)) \<and>
   (10 \<le> sz \<and> sz \<le> 32000 \<longleftrightarrow> (\<exists>!e. e \<in> set dp2CapacityIopsRanges \<and> minSize e \<le> sz \<and> sz \<le> maxSize e))"
proof -
  have one: "e = e'" if "e \<in> set dp2CapacityIopsRanges" "e' \<in> set dp2CapacityIopsRanges"
      "minSize e \<le> sz" "sz \<le> maxSize e" "minSize e' \<le> sz" "sz \<le> maxSize e'" for e e' sz
    using that by (auto simp: dp2CapacityIopsRanges_def)
  have cover: "10 \<le> sz \<and> sz \<le> 32000 \<longleftrightarrow> (\<exists>e\<in>set dp2CapacityIopsRanges. minSize e \<le> sz \<and> sz \<le> maxSize e)" for sz
    by (simp add: dp2CapacityIopsRanges_def) presburger
  have none: "find_range dp2CapacityIopsRanges sz = None \<longleftrightarrow> \<not> (\<exists>e\<in>set dp2CapacityIopsRanges. minSize e \<le> sz \<and> sz \<le> maxSize e)"
    by (auto simp: dp2CapacityIopsRanges_def)
  show ?thesis
  proof
    show "isValidCapacityIOPS sz iops profile = Inr True \<longleftrightarrow> profile = DP2Profile \<and>
      (\<exists>e\<in>set dp2CapacityIopsRanges. minSize e \<le> sz \<and> sz \<le> maxSize e \<and> minIops e \<le> iops \<and> iops \<le> maxIops e)"
    proof (cases "find_range dp2CapacityIopsRanges sz")
      case None
      then show ?thesis using none by (auto simp: isValidCapacityIOPS_def)
    next
      case (Some e)
      note e = find_range_Some[OF this]
      have "ea = e" if "ea \<in> set dp2CapacityIopsRanges" "minSize ea \<le> sz" "sz \<le> maxSize ea" for ea
        using one that e by blast
      moreover have "isValidCapacityIOPS sz iops profile = Inr True \<longleftrightarrow>
          profile = DP2Profile \<and> minIops e \<le> iops \<and> iops \<le> maxIops e"
        using Some by (auto simp: isValidCapacityIOPS_def not_less)
      ultimately show ?thesis using e by blast
    qed
  qed (use cover one in blast)
qed

section \<open>A request\<close>

definition demo_req :: create_request where
  "demo_req = \<lparr>reqName = ''pvc-1'', reqCaps = [\<lparr>capMode = Some MULTI_NODE_MULTI_WRITER, capType = MountType []\<rparr>],
     reqParams = [(''profile'', ''rfs''), (''isEITEnabled'', ''True'')], reqSecrets = [(''tags'', ''t'')],
     reqRange = None, reqSource = None, reqPreferred = []\<rparr>"

definition demo_volume :: volume where
  "demo_volume = empty_volume\<lparr>volName := Some ''pvc-1'', volCapacity := Some 1, volProfile := Some ''rfs'',
     volTags := [''t''], volAccessControlMode := ''security_group'', volTransitEncryption := ''stunnel'',
     volResourceGroup := Some ''g''\<rparr>"

lemma demo_params: "getVolumeParameters demo_utils demo_config demo_req = Ok demo_volume"
  by code_simp

theorem getVolumeParameters_ok_witness:
  "getVolumeParameters demo_utils demo_config demo_req = Ok demo_volume \<and> volTransitEncryption demo_volume \<in> {NONE, IPSEC, STUNNEL}"
  using getVolumeParameters_ok[OF demo_params] demo_params by blast

theorem getVolumeParameters_order_witness:
  "settled (getVolumeParameters demo_utils demo_config
     (demo_req\<lparr>reqParams := [(''isEITEnabled'', ''True''), (''profile'', ''rfs'')], reqSecrets := [(''tags'', ''t'')]\<rparr>)) =
   Ok demo_volume"
  using getVolumeParameters_order[of demo_req "[(''isEITEnabled'', ''True''), (''profile'', ''rfs'')]" "[(''tags'', ''t'')]" demo_utils demo_config]
  by (simp add: demo_params) (simp add: demo_req_def add_mset_commute)

end
