(* ===== verification/Controller_Props.thy ===== *)
theory Controller_Props
  imports Controller Param_Props "HOL-Library.Sublist"
begin

text \<open>
  Properties of the controller service. Any provider session can be wrapped so that it records the calls made
  through it (\<open>traced\<close>); the order of calls and what is called at all are then statements about the recorded list.
\<close>

section \<open>Recording the calls\<close>

datatype call =
    CGetVolumeByName string
  | CGetVolume string
  | CCreateVolume volume
  | CDeleteVolume string
  | CExpandVolume string int
  | CListVolumes
  | CGetSubnet subnet_request
  | CGetSecurityGroup security_group_request
  | CCreateAccessPoint access_point_request
  | CWaitForCreateAccessPoint string string
  | CDeleteAccessPoint string string
  | CWaitForDeleteAccessPoint string string
  | CGetSnapshotByName string string
  | CGetSnapshot string string
  | CCreateSnapshot string string
  | CDeleteSnapshot string string
  | CListSnapshots

definition traced :: "'s session \<Rightarrow> (call list \<times> 's) session" where
  "traced S =
     \<lparr>sGetVolumeByName = (\<lambda>n. record_call (CGetVolumeByName n) (sGetVolumeByName S n)),
      sGetVolume = (\<lambda>v. record_call (CGetVolume v) (sGetVolume S v)),
      sCreateVolume = (\<lambda>v. record_call (CCreateVolume v) (sCreateVolume S v)),
      sDeleteVolume = (\<lambda>v. record_call (CDeleteVolume (volID v)) (sDeleteVolume S v)),
      sExpandVolume = (\<lambda>v c. record_call (CExpandVolume v c) (sExpandVolume S v c)),
      sListVolumes = (\<lambda>n t. record_call CListVolumes (sListVolumes S n t)),
      sGetSubnet = (\<lambda>r. record_call (CGetSubnet r) (sGetSubnet S r)),
      sGetSecurityGroup = (\<lambda>r. record_call (CGetSecurityGroup r) (sGetSecurityGroup S r)),
      sCreateAccessPoint = (\<lambda>r. record_call (CCreateAccessPoint r) (sCreateAccessPoint S r)),
      sWaitForCreateAccessPoint = (\<lambda>r. record_call (CWaitForCreateAccessPoint (aprVolumeID r) (aprAccessPointID r))
        (sWaitForCreateAccessPoint S r)),
      sDeleteAccessPoint = (\<lambda>r. record_call (CDeleteAccessPoint (aprVolumeID r) (aprAccessPointID r)) (sDeleteAccessPoint S r)),
      sWaitForDeleteAccessPoint = (\<lambda>r. record_call (CWaitForDeleteAccessPoint (aprVolumeID r) (aprAccessPointID r))
        (sWaitForDeleteAccessPoint S r)),
      sGetSnapshotByName = (\<lambda>n v. record_call (CGetSnapshotByName n v) (sGetSnapshotByName S n v)),
      sGetSnapshot = (\<lambda>i v. record_call (CGetSnapshot i v) (sGetSnapshot S i v)),
      sCreateSnapshot = (\<lambda>v n. record_call (CCreateSnapshot v n) (sCreateSnapshot S v n)),
      sDeleteSnapshot = (\<lambda>sn. record_call (CDeleteSnapshot (snapVolumeID sn) (snapID sn)) (sDeleteSnapshot S sn)),
      sListSnapshots = (\<lambda>n t m. record_call CListSnapshots (sListSnapshots S n t m))\<rparr>"

section \<open>A concrete provider\<close>

text \<open>A provider whose state is the list of its volumes; every other request succeeds.\<close>

definition demo_session :: "volume list session" where
  "demo_session =
     \<lparr>sGetVolumeByName = (\<lambda>n vs. ((find (\<lambda>v. volName v = Some n) vs,
        if find (\<lambda>v. volName v = Some n) vs = None then Some (Message ''not_found'') else None), vs)),
      sGetVolume = (\<lambda>i vs. ((find (\<lambda>v. volID v = i) vs,
        if find (\<lambda>v. volID v = i) vs = None then Some (Message ''not_found'') else None), vs)),
      sCreateVolume = (\<lambda>v vs. ((Some (v\<lparr>volID := ''r006-1''\<rparr>), None), v\<lparr>volID := ''r006-1''\<rparr> # vs)),
      sDeleteVolume = (\<lambda>v vs. (None, filter (\<lambda>w. volID w \<noteq> volID v) vs)),
      sExpandVolume = (\<lambda>i c vs. ((c, None), vs)),
      sListVolumes = (\<lambda>n t vs. ((Some (vs, ''''), None), vs)),
      sGetSubnet = (\<lambda>r vs. ((''0717-sn'', None), vs)),
      sGetSecurityGroup = (\<lambda>r vs. ((''r006-sg'', None), vs)),
      sCreateAccessPoint = (\<lambda>r vs. ((Some \<lparr>apAccessPointID = ''r006-ap'', apMountPath = ''''\<rparr>, None), vs)),
      sWaitForCreateAccessPoint = (\<lambda>r vs. ((Some \<lparr>apAccessPointID = aprAccessPointID r, apMountPath = ''10.240.0.5:/share''\<rparr>, None), vs)),
      sDeleteAccessPoint = (\<lambda>r vs. (None, vs)),
      sWaitForDeleteAccessPoint = (\<lambda>r vs. (None, vs)),
      sGetSnapshotByName = (\<lambda>n v vs. ((None, Some (Message ''not_found'')), vs)),
      sGetSnapshot = (\<lambda>i v vs. ((None, Some (Message ''not_found'')), vs)),
      sCreateSnapshot = (\<lambda>v n vs. ((Some \<lparr>snapID = ''r006-s'', snapCRN = ''crn'', snapVolumeID = v, snapSize = 1, snapCreated = 0, snapReady = True\<rparr>, None), vs)),
      sDeleteSnapshot = (\<lambda>sn vs. (None, vs)),
      sListSnapshots = (\<lambda>n t m vs. ((Some ([], ''''), None), vs))\<rparr>"

definition demo_provider :: "(call list \<times> volume list) provider" where
  "demo_provider = \<lparr>GetConfig = demo_config, GetClusterID = ''c1'', GetProviderSession = Inr (traced demo_session)\<rparr>"

definition demo_driver :: driver where
  "demo_driver = \<lparr>drvVcap = [MULTI_NODE_MULTI_WRITER], drvRfsEnabled = True, drvRegion = ''us-south''\<rparr>"

definition demo_env :: environ where
  "demo_env = fmupd ''VPC_SUBNET_IDS'' ''0717-sn'' (fmupd ''VPC_ID'' ''r006-vpc'' fmempty)"

section \<open>DeleteVolume\<close>

lemma getTokens_new:
  assumes "CHR ''#'' \<notin> set v" "CHR ''#'' \<notin> set a"
  shows "getTokens (v @ ''#'' @ a) = [v, a]"
proof -
  have "Contains (v @ ''#'' @ a) ''#''" by (rule Contains_append)
  then show ?thesis
    using Split_append[OF assms(1), of a] Split_no_sep[OF assms(2)] by (simp add: getTokens_def VolumeIDSeperator_def)
qed

text \<open>
  What the look-up of \<open>DeleteVolume\<close> says: the share is gone when the provider reports it as not found, or reports no
  error and returns nothing. Any other error of the look-up counts as a share that may still be there.
\<close>

definition share_gone :: "utils \<Rightarrow> volume option \<times> provider_error option \<Rightarrow> bool" where
  "share_gone U answer \<longleftrightarrow>
     (case snd answer of None \<Rightarrow> fst answer = None | Some e \<Rightarrow> GetErrorType U e \<in> {EntityNotFound, RetrivalFailed})"

lemma checkIfVolumeExists_by_id:
  assumes "volName v = None" "volID v \<noteq> ''''"
  shows "snd (checkIfVolumeExists U S v s) = snd (sGetVolume S (volID v) s)"
    "fst (checkIfVolumeExists U S v s) = (None, None) \<longleftrightarrow> share_gone U (fst (sGetVolume S (volID v) s))"
  using assms
  by (auto simp: checkIfVolumeExists_def share_gone_def split: prod.splits option.splits error_type.splits)

text \<open>The recorded calls of a deletion.\<close>

lemma traced_deletion:
  "sDeleteAccessPoint (traced S) (access_point_request v a) =
     record_call (CDeleteAccessPoint v a) (sDeleteAccessPoint S (access_point_request v a))"
  "sWaitForDeleteAccessPoint (traced S) (access_point_request v a) =
     record_call (CWaitForDeleteAccessPoint v a) (sWaitForDeleteAccessPoint S (access_point_request v a))"
  "sDeleteVolume (traced S) (w\<lparr>volID := v\<rparr>) = record_call (CDeleteVolume v) (sDeleteVolume S (w\<lparr>volID := v\<rparr>))"
  by (simp_all add: traced_def access_point_request_def)

text \<open>C12: DeleteVolume takes the share down in order. Through a session it looks the volume up first. If the share is
  gone it reports success and calls nothing else; otherwise, and also when the look-up failed for any other reason, it
  deletes the access point, only if that succeeded waits for the deletion to finish, and only if that succeeded deletes
  the share. The first of the three that fails ends the call with its error, and success is reported only when all
  three succeeded.\<close>

theorem DeleteVolume_order:
  assumes "GetProviderSession P = Inr (traced S)" "CHR ''#'' \<notin> set v" "CHR ''#'' \<notin> set a" "v \<noteq> ''''"
    "DeleteVolume U P (v @ ''#'' @ a) ([], s) = (r, tr, s')"
    "sGetVolume S v s = (answer, s1)" "sDeleteAccessPoint S (access_point_request v a) s1 = (unbound, s2)"
    "sWaitForDeleteAccessPoint S (access_point_request v a) s2 = (waited, s3)"
    "sDeleteVolume S (empty_volume\<lparr>volID := v\<rparr>) s3 = (deleted, s4)"
  shows "(r, tr, s') =
    (if share_gone U answer then (Ok (), [CGetVolume v], s1)
     else case (unbound, waited, deleted) of
         (Some e, _, _) \<Rightarrow> (Err (BackendError (Some e)), [CGetVolume v, CDeleteAccessPoint v a], s2)
       | (None, Some e, _) \<Rightarrow>
           (Err (BackendError (Some e)), [CGetVolume v, CDeleteAccessPoint v a, CWaitForDeleteAccessPoint v a], s3)
       | (None, None, Some e) \<Rightarrow>
           (Err (BackendError (Some e)),
            [CGetVolume v, CDeleteAccessPoint v a, CWaitForDeleteAccessPoint v a, CDeleteVolume v], s4)
       | (None, None, None) \<Rightarrow>
           (Ok (), [CGetVolume v, CDeleteAccessPoint v a, CWaitForDeleteAccessPoint v a, CDeleteVolume v], s4))"
proof -
  let ?look = "checkIfVolumeExists U (traced S) (empty_volume\<lparr>volID := v\<rparr>) ([], s)"
  have look: "snd ?look = ([CGetVolume v], s1)" "fst ?look = (None, None) \<longleftrightarrow> share_gone U answer"
    using checkIfVolumeExists_by_id[of "empty_volume\<lparr>volID := v\<rparr>" U "traced S" "([], s)"] assms(4,6)
    by (simp_all add: empty_volume_def traced_def record_call_def)
  obtain vol err where pair: "?look = ((vol, err), [CGetVolume v], s1)" by (metis look(1) prod.collapse)
  note run = assms(5)[unfolded DeleteVolume_def getTokens_new[OF assms(2,3)]]
  show ?thesis
  proof (cases "share_gone U answer")
    case True
    then show ?thesis using run assms(1) look pair by (simp add: Let_def)
  next
    case False
    then have some: "vol \<noteq> None \<or> err \<noteq> None" using look(2) pair by auto
    note run = run[unfolded assms(1) sum.case Let_def]
    show ?thesis using run some pair assms(7-9) False
      by (cases vol; cases err; cases unbound; cases waited; cases deleted)
        (simp_all add: traced_deletion record_call_def)
  qed
qed

theorem DeleteVolume_order_witness:
  "let s = [demo_volume\<lparr>volID := ''r006-1''\<rparr>]
   in \<exists>tr. DeleteVolume demo_utils demo_provider (''r006-1'' @ ''#'' @ ''r006-ap'') ([], s) = (Ok (), tr, []) \<and>
     tr = [CGetVolume ''r006-1'', CDeleteAccessPoint ''r006-1'' ''r006-ap'', CWaitForDeleteAccessPoint ''r006-1'' ''r006-ap'',
       CDeleteVolume ''r006-1'']"
proof -
  let ?s = "[demo_volume\<lparr>volID := ''r006-1''\<rparr>]"
  obtain r tr s' where d: "DeleteVolume demo_utils demo_provider (''r006-1'' @ ''#'' @ ''r006-ap'') ([], ?s) = (r, tr, s')"
    by (metis prod.exhaust)
  have p: "GetProviderSession demo_provider = Inr (traced demo_session)" by (simp add: demo_provider_def)
  have "sGetVolume demo_session ''r006-1'' ?s = ((Some (demo_volume\<lparr>volID := ''r006-1''\<rparr>), None), ?s)"
    "sDeleteAccessPoint demo_session (access_point_request ''r006-1'' ''r006-ap'') ?s = (None, ?s)"
    "sWaitForDeleteAccessPoint demo_session (access_point_request ''r006-1'' ''r006-ap'') ?s = (None, ?s)"
    "sDeleteVolume demo_session (empty_volume\<lparr>volID := ''r006-1''\<rparr>) ?s = (None, [])"
    by (simp_all add: demo_session_def)
  from DeleteVolume_order[OF p _ _ _ d this] d show ?thesis by (simp add: share_gone_def)
qed

section \<open>CreateVolume\<close>

lemma map_get_label_if [simp]: "map_get (label_if b k v m) k' = (if b \<and> k' = k then v else map_get m k')"
  by (simp add: label_if_def)

text \<open>The labels that the node service reads back.\<close>

definition labels_ok :: "utils \<Rightarrow> bool" where
  "labels_ok U \<longleftrightarrow>
     NodeRegionLabel U \<notin> {FileShareIDLabel, NFSServerPath, ProfileLabel, IsEITEnabled} \<and>
     NodeZoneLabel U \<notin> {FileShareIDLabel, NFSServerPath, ProfileLabel, IsEITEnabled}"

lemma demo_labels_ok: "labels_ok demo_utils"
  by (simp add: labels_ok_def demo_utils_def key_defs)

lemma volume_labels_lookup:
  assumes "labels_ok U"
  shows "map_get (volume_labels U vol ap c region) FileShareIDLabel = volID vol"
    "map_get (volume_labels U vol ap c region) NFSServerPath = apMountPath ap"
    "map_get (volume_labels U vol ap c region) ProfileLabel = (case volProfile vol of None \<Rightarrow> '''' | Some p \<Rightarrow> p)"
    "map_get (volume_labels U vol ap c region) IsEITEnabled =
       (if volTransitEncryption vol = IPSEC \<or> volTransitEncryption vol = STUNNEL then TrueStr else '''')"
  using assms by (auto simp: labels_ok_def volume_labels_def base_labels_def key_defs split: option.splits)

text \<open>The way a successful run goes through the function.\<close>

lemma CreateVolume_OkE:
  assumes "CreateVolume U D P env req s = (Ok resp, s')"
  obtains S v0 v1 existing s1 requested s2 volumeObj s3 apReq s4 ap where
    "getVolumeParameters U (GetConfig P) req = Ok v0" "GetProviderSession P = Inr S"
    "reqName req \<noteq> ''''" "areVolumeCapabilitiesSupported (reqCaps req) (drvVcap D)"
    "attach_snapshot (reqSource req) v0 = Ok v1" "find_existing U S v1 s = (Ok existing, s1)"
    "pick_network S env (GetClusterID P) v1 s1 = (Ok requested, s2)"
    "create_if_missing U S existing requested s2 = (Ok volumeObj, s3)"
    "ensure_access_point S env requested volumeObj s3 = (Ok apReq, s4)"
    "wait_access_point S apReq s4 = (Ok ap, s')"
    "volume_response U D (GetClusterID P) requested volumeObj ap = Ok resp"
  using assms unfolding CreateVolume_def by (force simp: andThen_Ok split: if_splits sum.splits outcome.splits)

text \<open>What the steps before the creation keep of the requested volume.\<close>

lemma attach_snapshot_keeps:
  assumes "attach_snapshot src v = Ok v'"
  shows "volCapacity v' = volCapacity v" "volTransitEncryption v' = volTransitEncryption v" "volName v' = volName v"
    "volAccessControlMode v' = volAccessControlMode v" "volProfile v' = volProfile v"
  using assms by (auto simp: attach_snapshot_def split: option.splits content_source.splits)

text \<open>Two volumes that differ at most in what the network steps fill in.\<close>

definition same_request :: "volume \<Rightarrow> volume \<Rightarrow> bool" where
  "same_request v v' \<longleftrightarrow> volCapacity v' = volCapacity v \<and> volTransitEncryption v' = volTransitEncryption v \<and>
     volName v' = volName v \<and> volAccessControlMode v' = volAccessControlMode v \<and> volProfile v' = volProfile v"

lemma pick_subnet_keeps: "pick_subnet S env v s = (Ok v', s') \<Longrightarrow> same_request v v'"
  by (auto simp: pick_subnet_def same_request_def Let_def split: if_splits prod.splits)

lemma pick_security_group_keeps: "pick_security_group S env c v s = (Ok v', s') \<Longrightarrow> same_request v v'"
  by (auto simp: pick_security_group_def same_request_def split: if_splits prod.splits)

lemma pick_network_keeps:
  assumes "pick_network S env c v s = (Ok v', s')"
  shows "same_request v v'"
proof (cases "volAccessControlMode v = SecurityGroup")
  case True
  then obtain w t where "pick_subnet S env v s = (Ok w, t)" "pick_security_group S env c w t = (Ok v', s')"
    using assms by (auto simp: pick_network_def andThen_Ok)
  then show ?thesis using pick_subnet_keeps pick_security_group_keeps unfolding same_request_def by metis
next
  case False
  then show ?thesis using assms by (auto simp: pick_network_def same_request_def)
qed

lemma createCSI_sels [simp]:
  "cvContext (createCSIVolumeResponse U vol ap cap c region) = volume_labels U vol ap c region"
  "cvVolumeId (createCSIVolumeResponse U vol ap cap c region) = volID vol @ ''#'' @ apAccessPointID ap"
  "cvCapacityBytes (createCSIVolumeResponse U vol ap cap c region) = cap"
  by (simp_all add: createCSIVolumeResponse_def Let_def VolumeIDSeperator_def)

lemma wait_access_point_Ok:
  "wait_access_point S r s = (Ok ap, s') \<Longrightarrow> sWaitForCreateAccessPoint S r s = ((Some ap, None), s')"
  by (auto simp: wait_access_point_def split: prod.splits option.splits)

lemma ensure_access_point_Ok:
  "ensure_access_point S env requested v s = (Ok r, s') \<Longrightarrow> aprVolumeID r = volID v"
  by (auto simp: ensure_access_point_def access_point_request_def Let_def split: option.splits list.splits prod.splits)

text \<open>The response of a successful run.\<close>

lemma CreateVolume_resp:
  assumes "CreateVolume U D P env req s = (Ok resp, s')"
  obtains S v0 cap vol apReq ap s4 where "GetProviderSession P = Inr S"
    "getVolumeParameters U (GetConfig P) req = Ok v0" "volCapacity v0 = Some cap"
    "sWaitForCreateAccessPoint S apReq s4 = ((Some ap, None), s')" "aprVolumeID apReq = volID vol"
    "volTransitEncryption vol = volTransitEncryption v0"
    "resp = createCSIVolumeResponse U vol ap (i64 (cap * GB U)) (GetClusterID P) (drvRegion D)"
proof -
  obtain S v0 v1 existing s1 requested s2 volumeObj s3 apReq s4 ap where run:
    "getVolumeParameters U (GetConfig P) req = Ok v0" "GetProviderSession P = Inr S"
    "reqName req \<noteq> ''''" "areVolumeCapabilitiesSupported (reqCaps req) (drvVcap D)"
    "attach_snapshot (reqSource req) v0 = Ok v1" "find_existing U S v1 s = (Ok existing, s1)"
    "pick_network S env (GetClusterID P) v1 s1 = (Ok requested, s2)"
    "create_if_missing U S existing requested s2 = (Ok volumeObj, s3)"
    "ensure_access_point S env requested volumeObj s3 = (Ok apReq, s4)"
    "wait_access_point S apReq s4 = (Ok ap, s')"
    "volume_response U D (GetClusterID P) requested volumeObj ap = Ok resp"
    by (rule CreateVolume_OkE[OF assms]) (rule that)
  let ?vol = "volumeObj\<lparr>volAccessControlMode := volAccessControlMode requested,
      volTransitEncryption := volTransitEncryption requested, volSecurityGroups := volSecurityGroups requested,
      volSubnetID := volSubnetID requested\<rparr>"
  have keep: "volCapacity requested = volCapacity v0" "volTransitEncryption requested = volTransitEncryption v0"
    using attach_snapshot_keeps[OF run(5)] pick_network_keeps[OF run(7)] by (simp_all add: same_request_def)
  obtain cap where cap: "volCapacity v0 = Some cap"
    and resp: "resp = createCSIVolumeResponse U ?vol ap (i64 (cap * GB U)) (GetClusterID P) (drvRegion D)"
    using run(11) keep(1) by (auto simp: volume_response_def Let_def split: option.splits)
  show thesis
    using that[OF run(2,1) cap wait_access_point_Ok[OF run(10)], of ?vol] ensure_access_point_Ok[OF run(9)] keep(2) resp by simp
qed

text \<open>C17: a successful CreateVolume returns a usable volume. Its id is share id, separator, access point id, for an
  access point of that share that the provider reported stable; the context carries the share id, the mount path
  and the encryption flag exactly when encryption in transit was requested; the size is the accepted capacity.\<close>

theorem CreateVolume_ok:
  assumes "labels_ok U" "CreateVolume U D P env req s = (Ok resp, s')"
  shows "\<exists>S v0 cap (vol :: volume) apReq ap s4. GetProviderSession P = Inr S \<and>
    getVolumeParameters U (GetConfig P) req = Ok v0 \<and> volCapacity v0 = Some cap \<and>
    sWaitForCreateAccessPoint S apReq s4 = ((Some ap, None), s') \<and> aprVolumeID apReq = volID vol \<and>
    cvVolumeId resp = volID vol @ ''#'' @ apAccessPointID ap \<and> cvCapacityBytes resp = i64 (cap * GB U) \<and>
    map_get (cvContext resp) FileShareIDLabel = volID vol \<and> map_get (cvContext resp) NFSServerPath = apMountPath ap \<and>
    (map_get (cvContext resp) IsEITEnabled = TrueStr \<longleftrightarrow> volTransitEncryption v0 \<noteq> NONE)"
proof -
  obtain S v0 cap vol apReq ap s4 where run: "GetProviderSession P = Inr S"
    "getVolumeParameters U (GetConfig P) req = Ok v0" "volCapacity v0 = Some cap"
    "sWaitForCreateAccessPoint S apReq s4 = ((Some ap, None), s')" "aprVolumeID apReq = volID vol"
    "volTransitEncryption vol = volTransitEncryption v0"
    and resp: "resp = createCSIVolumeResponse U vol ap (i64 (cap * GB U)) (GetClusterID P) (drvRegion D)"
    by (rule CreateVolume_resp[OF assms(2)]) (rule that)
  have "(volTransitEncryption v0 = IPSEC \<or> volTransitEncryption v0 = STUNNEL) \<longleftrightarrow> volTransitEncryption v0 \<noteq> NONE"
    using getVolumeParameters_basics(3)[OF run(2)] by (auto simp: key_defs)
  moreover have "TrueStr \<noteq> []" by (simp add: key_defs)
  ultimately have "map_get (cvContext resp) IsEITEnabled = TrueStr \<longleftrightarrow> volTransitEncryption v0 \<noteq> NONE"
    using volume_labels_lookup(4)[OF assms(1)] run(6) by (simp add: resp)
  moreover have "cvVolumeId resp = volID vol @ ''#'' @ apAccessPointID ap" "cvCapacityBytes resp = i64 (cap * GB U)"
    "map_get (cvContext resp) FileShareIDLabel = volID vol" "map_get (cvContext resp) NFSServerPath = apMountPath ap"
    using volume_labels_lookup(1,2)[OF assms(1)] by (simp_all add: resp)
  ultimately show ?thesis using run by blast
qed

theorem CreateVolume_ok_witness:
  "\<exists>resp s'. CreateVolume demo_utils demo_driver demo_provider demo_env demo_req ([], []) = (Ok resp, s') \<and>
     cvVolumeId resp = ''r006-1#r006-ap'' \<and> map_get (cvContext resp) IsEITEnabled = TrueStr"
proof -
  have ok: "fst (CreateVolume demo_utils demo_driver demo_provider demo_env demo_req ([], [])) \<noteq> Panic \<and>
      is_ok (fst (CreateVolume demo_utils demo_driver demo_provider demo_env demo_req ([], []))) \<and>
      (case fst (CreateVolume demo_utils demo_driver demo_provider demo_env demo_req ([], [])) of
         Ok resp \<Rightarrow> cvVolumeId resp = ''r006-1#r006-ap'' | _ \<Rightarrow> False)"
    by code_simp
  then obtain resp s' where r: "CreateVolume demo_utils demo_driver demo_provider demo_env demo_req ([], []) = (Ok resp, s')"
    by (metis is_ok_iff prod.exhaust_sel)
  have "volTransitEncryption demo_volume \<noteq> NONE" by (simp add: demo_volume_def key_defs)
  moreover have "getVolumeParameters demo_utils (GetConfig demo_provider) demo_req = Ok demo_volume"
    using demo_params by (simp add: demo_provider_def)
  ultimately have "map_get (cvContext resp) IsEITEnabled = TrueStr"
    using CreateVolume_ok[OF demo_labels_ok r] by auto
  then show ?thesis using ok r by auto
qed

text \<open>Which calls create a share, and what each step adds to the recorded list.\<close>

fun is_create :: "call \<Rightarrow> bool" where
  "is_create (CCreateVolume v) = True"
| "is_create _ = False"

definition creates :: "call list \<times> 's \<Rightarrow> call list" where
  "creates st = filter is_create (fst st)"

lemma checkIfVolumeExists_creates: "creates (snd (checkIfVolumeExists U (traced S) v st)) = creates st"
  by (cases st) (auto simp: checkIfVolumeExists_def traced_def record_call_def creates_def
      split: prod.splits option.splits error_type.splits)

lemma find_existing_creates: "creates (snd (find_existing U (traced S) v st)) = creates st"
proof -
  obtain vol err st1 where c: "checkIfVolumeExists U (traced S) v st = ((vol, err), st1)"
    by (metis prod.exhaust)
  have "creates st1 = creates st" using checkIfVolumeExists_creates[of U S v st] c by simp
  then show ?thesis using c by (auto simp: find_existing_def split: option.splits)
qed

lemma pick_subnet_creates: "creates (snd (pick_subnet (traced S) env v st)) = creates st"
  by (auto simp: pick_subnet_def traced_def record_call_def creates_def Let_def split: prod.splits)

lemma pick_security_group_creates: "creates (snd (pick_security_group (traced S) env c v st)) = creates st"
  by (auto simp: pick_security_group_def traced_def record_call_def creates_def split: prod.splits)

lemma ensure_access_point_creates: "creates (snd (ensure_access_point (traced S) env r v st)) = creates st"
  by (auto simp: ensure_access_point_def traced_def record_call_def creates_def Let_def
      split: prod.splits option.splits list.splits)

lemma wait_access_point_creates: "creates (snd (wait_access_point (traced S) r st)) = creates st"
  by (auto simp: wait_access_point_def traced_def record_call_def creates_def split: prod.splits option.splits)

lemma create_if_missing_creates:
  "creates (snd (create_if_missing U (traced S) existing v st)) =
     creates st @ (if existing = None then [CCreateVolume v] else [])"
  by (auto simp: create_if_missing_def traced_def record_call_def creates_def split: prod.splits option.splits)

lemma andThen_creates:
  assumes "creates (snd (f st)) = creates st" "\<And>a st'. creates st' = creates st \<Longrightarrow> Q (creates (snd (g a st')))"
    "Q (creates st)"
  shows "Q (creates (snd (andThen f g st)))"
  using assms by (auto simp: andThen_def split: prod.splits outcome.splits)

lemma pick_network_creates: "creates (snd (pick_network (traced S) env c v st)) = creates st"
  unfolding pick_network_def
  by (auto intro!: andThen_creates[where Q = "\<lambda>x. x = creates st"] simp: pick_subnet_creates pick_security_group_creates)

text \<open>From the choice of the network on: at most one share is created, and none when one exists.\<close>

lemma provision_creates:
  fixes S :: "'s session" and st :: "call list \<times> 's"
  shows "length (creates (snd (andThen (pick_network (traced S) env c v) (\<lambda>requested.
     andThen (create_if_missing U (traced S) existing requested) (\<lambda>volumeObj.
     andThen (ensure_access_point (traced S) env requested volumeObj) (\<lambda>apReq.
     andThen (wait_access_point (traced S) apReq) (\<lambda>ap s. (volume_response U D c requested volumeObj ap, s))))) st)))
   \<le> length (creates st) + (if existing = None then 1 else 0)"
proof (rule andThen_creates[where Q = "\<lambda>x. length x \<le> length (creates st) + (if existing = None then 1 else 0)"])
  fix requested and st' :: "call list \<times> 's"
  assume st': "creates st' = creates st"
  let ?n = "length (creates st) + (if existing = None then 1 else 0)"
  let ?rest = "\<lambda>volumeObj. andThen (ensure_access_point (traced S) env requested volumeObj) (\<lambda>apReq.
     andThen (wait_access_point (traced S) apReq) (\<lambda>ap s. (volume_response U D c requested volumeObj ap, s)))"
  have rest: "creates (snd (?rest volumeObj st2)) = creates st2" for volumeObj st2
    by (auto intro!: andThen_creates[where Q = "\<lambda>x. x = creates st2"] simp: ensure_access_point_creates wait_access_point_creates)
  have "length (creates (snd (create_if_missing U (traced S) existing requested st'))) = ?n"
    using st' by (simp add: create_if_missing_creates)
  then show "length (creates (snd (andThen (create_if_missing U (traced S) existing requested) ?rest st'))) \<le> ?n"
    using rest by (auto simp: andThen_def split: prod.splits outcome.splits)
qed (simp_all add: pick_network_creates)

end
