(* ===== verification/Controller_Calls.thy ===== *)
theory Controller_Calls
  imports Controller_Props
begin

text \<open>
  More of the controller service: a volume is created at most once, no RPC panics on a session that answers, and the
  remaining RPCs (expansion, snapshots, listing).
\<close>

section \<open>Creating a volume once\<close>

lemma find_existing_known:
  assumes "sGetVolumeByName S n s = ((Some vol, None), s1)" "volName v = Some n" "n \<noteq> ''''"
    "find_existing U (traced S) v (tr, s) = (Ok existing, st')"
  shows "existing = Some (vol\<lparr>volRegion := volRegion v\<rparr>) \<and> volCapacity vol = volCapacity v"
  using assms by (auto simp: find_existing_def checkIfVolumeExists_def traced_def record_call_def split: if_splits)

lemma CreateVolume_rejected:
  assumes "\<And>v0. getVolumeParameters U (GetConfig P) req = Ok v0 \<Longrightarrow> reqName req \<noteq> '''' \<Longrightarrow> reqCaps req \<noteq> [] \<Longrightarrow>
      areVolumeCapabilitiesSupported (reqCaps req) (drvVcap D) \<Longrightarrow>
      Q (andThen (\<lambda>s. (attach_snapshot (reqSource req) v0, s)) (\<lambda>v1.
          andThen (find_existing U S v1) (\<lambda>existing.
          andThen (pick_network S env (GetClusterID P) v1) (\<lambda>requested.
          andThen (create_if_missing U S existing requested) (\<lambda>volumeObj.
          andThen (ensure_access_point S env requested volumeObj) (\<lambda>apReq.
          andThen (wait_access_point S apReq) (\<lambda>ap s.
            (volume_response U D (GetClusterID P) requested volumeObj ap, s))))))) s)"
    "\<And>e. Q (Err e, s)" "getVolumeParameters U (GetConfig P) req = Panic \<Longrightarrow> Q (Panic, s)" "GetProviderSession P = Inr S"
  shows "Q (CreateVolume U D P env req s)"
  unfolding CreateVolume_def using assms by (auto split: sum.splits outcome.splits)

text \<open>The shares a run creates, when the look-up of the name is known.\<close>

lemma provision_known:
  fixes S :: "'s session"
  assumes "volName v1 = Some n" "n \<noteq> ''''" "find_existing U (traced S) v1 ([], s) = (x, st1)"
  shows "creates st1 = [] \<and> (\<forall>existing. x = Ok existing \<longrightarrow> (\<exists>vol s1. sGetVolumeByName S n s = ((Some vol, None), s1)) \<longrightarrow> existing \<noteq> None)"
proof -
  have "creates st1 = []" using find_existing_creates[of U S v1 "([], s)"] assms(3) by (simp add: creates_def)
  moreover have "existing \<noteq> None" if "x = Ok existing" "sGetVolumeByName S n s = ((Some vol, None), s1)" for existing vol s1
    using find_existing_known[OF that(2) assms(1,2) assms(3)[unfolded that(1)]] by simp
  ultimately show ?thesis by blast
qed

lemma CreateVolume_creates:
  fixes S :: "'s session"
  assumes "GetProviderSession P = Inr (traced S)"
  shows "length (creates (snd (CreateVolume U D P env req ([], s)))) \<le>
    (if \<exists>vol s1. sGetVolumeByName S (reqName req) s = ((Some vol, None), s1) then 0 else 1)" (is "_ \<le> (if ?known then 0 else 1)")
proof (rule CreateVolume_rejected[where Q = "\<lambda>p. length (creates (snd p)) \<le> (if ?known then 0 else 1)", OF _ _ _ assms])
  fix v0
  assume v0: "getVolumeParameters U (GetConfig P) req = Ok v0" "reqName req \<noteq> []"
  let ?rest = "\<lambda>v1 existing. andThen (pick_network (traced S) env (GetClusterID P) v1) (\<lambda>requested.
      andThen (create_if_missing U (traced S) existing requested) (\<lambda>volumeObj.
      andThen (ensure_access_point (traced S) env requested volumeObj) (\<lambda>apReq.
      andThen (wait_access_point (traced S) apReq) (\<lambda>ap s.
        (volume_response U D (GetClusterID P) requested volumeObj ap, s)))))"
  show "length (creates (snd (andThen (\<lambda>s. (attach_snapshot (reqSource req) v0, s)) (\<lambda>v1.
      andThen (find_existing U (traced S) v1) (?rest v1)) ([], s)))) \<le> (if ?known then 0 else 1)"
  proof (cases "attach_snapshot (reqSource req) v0")
    case (Ok v1)
    have name: "volName v1 = Some (reqName req)"
      using attach_snapshot_keeps(3)[OF Ok] getVolumeParameters_basics(1)[OF v0(1)] by simp
    obtain x st1 where f: "find_existing U (traced S) v1 ([], s) = (x, st1)" by (metis prod.exhaust)
    note known = provision_known[OF name v0(2) f]
    have "length (creates (snd (?rest v1 existing st1))) \<le> (if ?known then 0 else 1)" if "x = Ok existing" for existing
      using known that provision_creates[of S env "GetClusterID P" v1 U existing D st1] by (cases "existing = None") auto
    then show ?thesis using Ok f known by (cases x) (simp_all add: andThen_def)
  qed (simp_all add: andThen_def creates_def)
qed (simp_all add: creates_def)

text \<open>CreateVolume creates at most one share, and none at all when the provider finds a volume of that name:
  it is then reused if its size is the requested one and reported as an error otherwise.\<close>

lemma CreateVolume_creates_once:
  assumes "GetProviderSession P = Inr (traced S)" "CreateVolume U D P env req ([], s) = (r, tr, s')"
  shows "length (filter is_create tr) \<le> 1 \<and>
    (\<forall>vol s1. sGetVolumeByName S (reqName req) s = ((Some vol, None), s1) \<longrightarrow> filter is_create tr = [] \<and>
       (\<forall>resp. r = Ok resp \<longrightarrow> (\<exists>v0. getVolumeParameters U (GetConfig P) req = Ok v0 \<and> volCapacity vol = volCapacity v0)))"
proof (intro conjI allI impI)
  have n: "length (filter is_create tr) \<le> (if \<exists>vol s1. sGetVolumeByName S (reqName req) s = ((Some vol, None), s1) then 0 else 1)"
    using CreateVolume_creates[OF assms(1), of U D env req s] assms(2) by (simp add: creates_def)
  then show "length (filter is_create tr) \<le> 1" by (auto split: if_splits)
  fix vol s1
  assume known: "sGetVolumeByName S (reqName req) s = ((Some vol, None), s1)"
  then show "filter is_create tr = []" using n by auto
  fix resp
  assume "r = Ok resp"
  with assms(2) have ok: "CreateVolume U D P env req ([], s) = (Ok resp, tr, s')" by simp
  show "\<exists>v0. getVolumeParameters U (GetConfig P) req = Ok v0 \<and> volCapacity vol = volCapacity v0"
  proof (rule CreateVolume_OkE[OF ok])
    fix S' v0 v1 existing st1
    assume run: "getVolumeParameters U (GetConfig P) req = Ok v0" "GetProviderSession P = Inr S'" "reqName req \<noteq> []"
      "attach_snapshot (reqSource req) v0 = Ok v1" "find_existing U S' v1 ([], s) = (Ok existing, st1)"
    have "volName v1 = Some (reqName req)" "volCapacity v1 = volCapacity v0"
      using attach_snapshot_keeps(1,3)[OF run(4)] getVolumeParameters_basics(1)[OF run(1)] by simp_all
    then show ?thesis using find_existing_known[OF known _ run(3)] run(1,2,5) assms(1) by simp
  qed
qed

lemma CreateVolume_creates_once_example:
  "\<exists>r tr s'. CreateVolume demo_utils demo_driver demo_provider demo_env demo_req ([], [demo_volume\<lparr>volID := ''r006-9''\<rparr>]) = (r, tr, s') \<and>
     is_ok r \<and> filter is_create tr = []"
proof -
  let ?s = "[demo_volume\<lparr>volID := ''r006-9''\<rparr>]"
  obtain r tr s' where c: "CreateVolume demo_utils demo_driver demo_provider demo_env demo_req ([], ?s) = (r, tr, s')"
    by (metis prod.exhaust)
  have "GetProviderSession demo_provider = Inr (traced demo_session)" by (simp add: demo_provider_def)
  note once = CreateVolume_creates_once[OF this c]
  have "sGetVolumeByName demo_session (reqName demo_req) ?s = ((Some (demo_volume\<lparr>volID := ''r006-9''\<rparr>), None), ?s)"
    by (simp add: demo_session_def demo_req_def demo_volume_def empty_volume_def)
  then have "filter is_create tr = []" using once by blast
  moreover have "is_ok (fst (CreateVolume demo_utils demo_driver demo_provider demo_env demo_req ([], ?s)))" by code_simp
  ultimately show ?thesis using c by auto
qed

section \<open>No panics\<close>

lemma answers_nil: "answers r \<Longrightarrow> r \<noteq> ((None, None), x)"
  by (auto simp: answers_def)

text \<open>Reading the parameters dereferences nil only in the configuration, and only to fill in a missing resource group.\<close>

lemma getVolumeParameters_Panic:
  assumes "getVolumeParameters U g req = Panic"
  shows "config_group g = None" "\<exists>t v. each_entry secret_step (reqSecrets req) \<lparr>ssVolume = v, ssEncrypt = undef\<rparr> = Inr t \<and>
    volResourceGroup (ssVolume t) \<in> {None, Some ''''}"
  using assms
  by (auto simp: getVolumeParameters_def overrideParams_def Let_def
      split: sum.splits option.splits outcome.splits if_splits)

text \<open>After the checks, an answering session leaves nothing nil.\<close>

lemma provision_no_panic:
  assumes "session_ok S" "volCapacity v0 \<noteq> None"
  shows "\<not> is_panic (fst (andThen (\<lambda>s. (attach_snapshot src v0, s)) (\<lambda>v1.
      andThen (find_existing U S v1) (\<lambda>existing.
      andThen (pick_network S env c v1) (\<lambda>requested.
      andThen (create_if_missing U S existing requested) (\<lambda>volumeObj.
      andThen (ensure_access_point S env requested volumeObj) (\<lambda>apReq.
      andThen (wait_access_point S apReq) (\<lambda>ap s.
        (volume_response U D c requested volumeObj ap, s))))))) s))"
proof -
  have ok: "answers (sCreateVolume S v t)" "answers (sCreateAccessPoint S r t)" "answers (sWaitForCreateAccessPoint S r t)" for v r t
    using assms(1) by (simp_all add: session_ok_def)
  have "\<not> is_panic (attach_snapshot src v0)"
    by (auto simp: attach_snapshot_def split: option.splits content_source.splits)
  moreover have "\<not> is_panic (fst (find_existing U S v1 t))" if "volCapacity v1 \<noteq> None" for v1 t
    using that by (auto simp: find_existing_def split: prod.splits option.splits)
  moreover have "\<not> is_panic (fst (pick_subnet S env v1 t))" "\<not> is_panic (fst (pick_security_group S env c v1 t))" for c v1 t
    by (auto simp: pick_subnet_def pick_security_group_def Let_def split: prod.splits)
  then have "\<not> is_panic (fst (pick_network S env c v1 t))" for c v1 t
    by (simp add: pick_network_def andThen_no_panic)
  moreover have "\<not> is_panic (fst (create_if_missing U S ex v t))" for ex v t
    using ok(1)[of v t] by (auto simp: create_if_missing_def answers_def split: option.splits prod.splits)
  moreover have "\<not> is_panic (fst (ensure_access_point S env v vol t))" for v vol t
    using answers_nil[OF ok(2)] by (auto simp: ensure_access_point_def Let_def split: option.splits prod.splits list.splits)
  moreover have "\<not> is_panic (fst (wait_access_point S r t))" for r t
    using ok(3)[of r t] by (auto simp: wait_access_point_def answers_def split: option.splits prod.splits)
  moreover have "\<not> is_panic (volume_response U D c requested vol ap)"
    if "attach_snapshot src v0 = Ok v1" "pick_network S env c v1 t = (Ok requested, t')" for c requested vol ap v1 t t'
    using that assms(2) attach_snapshot_keeps(1) pick_network_keeps
    by (fastforce simp: volume_response_def same_request_def Let_def split: option.splits)
  ultimately show ?thesis
    using assms(2) attach_snapshot_keeps(1) by (intro andThen_no_panic) fastforce+
qed

text \<open>C27: on a session whose successful calls return an object, CreateVolume returns a response or an error, whatever the
  request: the capacity of the volume and every object of the provider is set where the code dereferences it. The one
  exception is the configuration: the call can panic when the provider has no configuration, or one without a VPC part
  (nothing checks either pointer), and then it does so before the first call to the provider.\<close>

theorem CreateVolume_no_panic:
  assumes "\<And>S. GetProviderSession P = Inr S \<Longrightarrow> session_ok S"
  shows "is_panic (fst (CreateVolume U D P env req s)) \<longrightarrow>
    config_group (GetConfig P) = None \<and> snd (CreateVolume U D P env req s) = s"
proof (cases "GetProviderSession P")
  case (Inl e)
  then show ?thesis by (auto simp: CreateVolume_def getVolumeParameters_Panic(1) split: sum.splits outcome.splits)
next
  case (Inr S)
  show ?thesis
    by (rule CreateVolume_rejected[where Q = "\<lambda>p. is_panic (fst p) \<longrightarrow> config_group (GetConfig P) = None \<and> snd p = s", OF _ _ _ Inr])
      (simp_all add: provision_no_panic[OF assms[OF Inr] getVolumeParameters_basics(2)] getVolumeParameters_Panic(1))
qed

lemma demo_session_ok: "session_ok (traced demo_session)"
  by (simp add: session_ok_def traced_def record_call_def demo_session_def answers_def)

text \<open>A provider without a configuration makes CreateVolume panic on an ordinary request.\<close>

lemma CreateVolume_panics_without_config:
  "fst (CreateVolume demo_utils demo_driver (demo_provider\<lparr>GetConfig := None\<rparr>) demo_env demo_req ([], [])) = Panic"
  "fst (CreateVolume demo_utils demo_driver (demo_provider\<lparr>GetConfig := Some \<lparr>cfgVPC = None\<rparr>\<rparr>) demo_env demo_req ([], [])) = Panic"
  by code_simp+

theorem CreateVolume_no_panic_witness:
  "\<not> is_panic (fst (CreateVolume demo_utils demo_driver demo_provider demo_env demo_req ([], []))) \<and>
   CreateVolume demo_utils demo_driver (demo_provider\<lparr>GetConfig := None\<rparr>) demo_env demo_req ([], []) = (Panic, [], [])"
proof
  let ?run = "\<lambda>c. CreateVolume demo_utils demo_driver (demo_provider\<lparr>GetConfig := c\<rparr>) demo_env demo_req ([], [])"
  have only: "is_panic (fst (?run c)) \<longrightarrow> config_group c = None \<and> snd (?run c) = ([], [])" for c
    using CreateVolume_no_panic[of "demo_provider\<lparr>GetConfig := c\<rparr>" demo_utils demo_driver demo_env demo_req "([], [])"]
    by (simp add: demo_provider_def demo_session_ok)
  have "demo_provider = demo_provider\<lparr>GetConfig := demo_config\<rparr>" by (simp add: demo_provider_def)
  then show "\<not> is_panic (fst (CreateVolume demo_utils demo_driver demo_provider demo_env demo_req ([], [])))"
    using only[of demo_config] by (auto simp: demo_config_def config_group_def)
  show "?run None = (Panic, [], [])"
    using only[of None] CreateVolume_panics_without_config(1) by (simp add: prod_eq_iff)
qed

section \<open>Volume ids\<close>

text \<open>The id of a created volume is understood by every other call. When neither the share id nor the access
  point id contains the separator, the tokens of the id in the response are these two, and the first is the share id
  that the volume context carries.\<close>

lemma created_id_roundtrip:
  assumes "labels_ok U" "CreateVolume U D P env req s = (Ok resp, s')" "count_list (cvVolumeId resp) CHR ''#'' = 1"
  shows "\<exists>v a. getTokens (cvVolumeId resp) = [v, a] \<and> cvVolumeId resp = v @ ''#'' @ a \<and>
    map_get (cvContext resp) FileShareIDLabel = v"
proof -
  obtain v a where id: "cvVolumeId resp = v @ ''#'' @ a" "map_get (cvContext resp) FileShareIDLabel = v"
    by (rule CreateVolume_resp[OF assms(2)]) (use that volume_labels_lookup(1)[OF assms(1)] in auto)
  then have "count_list v CHR ''#'' = 0" "count_list a CHR ''#'' = 0" using assms(3) by simp_all
  then have "getTokens (cvVolumeId resp) = [v, a]" using id getTokens_new by (simp add: count_list_0_iff)
  then show ?thesis using id by blast
qed

lemma created_id_roundtrip_example:
  "\<exists>resp s' v a. CreateVolume demo_utils demo_driver demo_provider demo_env demo_req ([], []) = (Ok resp, s') \<and>
     getTokens (cvVolumeId resp) = [v, a]"
proof -
  let ?c = "CreateVolume demo_utils demo_driver demo_provider demo_env demo_req ([], [])"
  have ok: "is_ok (fst ?c)" "case fst ?c of Ok resp \<Rightarrow> count_list (cvVolumeId resp) CHR ''#'' = 1 | _ \<Rightarrow> False"
    by code_simp+
  obtain resp s' where r: "?c = (Ok resp, s')" using ok(1) by (metis is_ok_iff prod.exhaust_sel)
  then have "count_list (cvVolumeId resp) CHR ''#'' = 1" using ok(2) by simp
  from created_id_roundtrip[OF demo_labels_ok r this] r show ?thesis by blast
qed

text \<open>The old format, with a colon, is still understood when there is no separator of the new one.\<close>

lemma getTokens_deprecated:
  assumes "CHR ''#'' \<notin> set v" "CHR ''#'' \<notin> set a" "CHR '':'' \<notin> set v" "CHR '':'' \<notin> set a"
  shows "getTokens (v @ '':'' @ a) = [v, a]"
  using assms Split_append[OF assms(3), of a] Split_no_sep[OF assms(4)]
  by (simp add: getTokens_def VolumeIDSeperator_def Contains_char)

section \<open>Snapshot CRNs\<close>

definition snapshot_crn :: "string list \<Rightarrow> string \<Rightarrow> string \<Rightarrow> string \<Rightarrow> string \<Rightarrow> string \<Rightarrow> string" where
  "snapshot_crn front account mid kind v sn = Join (front @ [''a/'' @ account, mid, kind, v @ ''/'' @ sn]) '':''"

text \<open>A snapshot CRN of the documented shape, six leading fields, account, an empty field, a resource type and
  \<open>share/snapshot\<close>, yields exactly its share id, snapshot id and account id.\<close>

lemma crn_roundtrip:
  assumes "length front = 6" "\<forall>w\<in>set (front @ [account, mid, kind, v, sn]). CHR '':'' \<notin> set w"
    "CHR ''/'' \<notin> set account" "CHR ''/'' \<notin> set v" "CHR ''/'' \<notin> set sn"
  shows "getVolumeSnapshotAndAccountIDsFromCRN (snapshot_crn front account mid kind v sn) = (v, sn, account)"
proof -
  let ?ws = "front @ [''a/'' @ account, mid, kind, v @ ''/'' @ sn]"
  have split: "Split (snapshot_crn front account mid kind v sn) CHR '':'' = ?ws"
    unfolding snapshot_crn_def using assms(2) by (intro Split_Join) auto
  have "Split (v @ CHR ''/'' # sn) CHR ''/'' = [v, sn]"
    using Split_append[OF assms(4)] Split_no_sep[OF assms(5)] by simp
  moreover have "Split (''a/'' @ account) CHR ''/'' = [''a'', account]"
    using Split_append[of "CHR ''/''" "''a''" account] Split_no_sep[OF assms(3)] by simp
  moreover have "Contains (''a/'' @ account) ''a/''" using Contains_append[of "[]" "''a/''" account] by simp
  ultimately show ?thesis
    unfolding getVolumeSnapshotAndAccountIDsFromCRN_def Let_def split
    using assms(1) by (simp add: nth_append getSourceVolumeAndSnapshotID_def getAccountID_def)
qed

lemma crn_roundtrip_example:
  "getVolumeSnapshotAndAccountIDsFromCRN ''crn:v1:staging:public:is:us-south-1:a/77f2::share-snapshot:r134-2ea5/r134-2c65'' =
     (''r134-2ea5'', ''r134-2c65'', ''77f2'')"
  using crn_roundtrip[of "[''crn'', ''v1'', ''staging'', ''public'', ''is'', ''us-south-1'']" "''77f2''" "''''"
      "''share-snapshot''" "''r134-2ea5''" "''r134-2c65''"]
  by (simp add: snapshot_crn_def)

section \<open>Expansion, listing, capabilities and snapshots\<close>

text \<open>The fold over the requested capabilities computes inclusion: they are supported exactly when every requested
  access mode (unknown, when none is given) is among the driver's modes.\<close>

lemma areVolumeCapabilitiesSupported_iff:
  "areVolumeCapabilitiesSupported caps modes \<longleftrightarrow> GetMode ` set caps \<subseteq> set modes"
proof -
  have "foldl (\<lambda>ok c. if \<not> list_ex (\<lambda>m. m = GetMode c) modes then False else ok) b caps \<longleftrightarrow>
      b \<and> GetMode ` set caps \<subseteq> set modes" for b
    by (induction caps arbitrary: b) (auto simp: list_ex_iff)
  then show ?thesis by (simp add: areVolumeCapabilitiesSupported_def)
qed

text \<open>ControllerExpandVolume reports a size only after the provider has expanded that share to it. It looks the
  volume up, expands it and nothing else, and success means both calls were made and the size is the required one.\<close>

lemma ControllerExpandVolume_ok:
  assumes "GetProviderSession P = Inr (traced S)" "CHR ''#'' \<notin> set v" "CHR ''#'' \<notin> set a" "v \<noteq> ''''"
    "ControllerExpandVolume U P (v @ ''#'' @ a) (Some cr) ([], s) = (r, tr, s')"
  shows "prefix tr [CGetVolume v, CExpandVolume v (requiredBytes cr)] \<and> \<not> is_panic r \<and>
    (\<forall>c b. r = Ok (c, b) \<longrightarrow> c = requiredBytes cr \<and> \<not> b \<and> tr = [CGetVolume v, CExpandVolume v c])"
  using assms(1,4,5) unfolding ControllerExpandVolume_def getTokens_new[OF assms(2,3)]
  by (auto simp: Let_def checkIfVolumeExists_def empty_volume_def traced_def record_call_def
      split: prod.splits option.splits error_type.splits)

lemma ControllerExpandVolume_ok_example:
  "\<exists>r tr s'. ControllerExpandVolume demo_utils demo_provider (''r006-1'' @ ''#'' @ ''ap'') (Some \<lparr>requiredBytes = 20, limitBytes = 0\<rparr>)
      ([], [demo_volume\<lparr>volID := ''r006-1''\<rparr>]) = (r, tr, s') \<and> r = Ok (20, False) \<and> tr = [CGetVolume ''r006-1'', CExpandVolume ''r006-1'' 20]"
proof -
  let ?e = "ControllerExpandVolume demo_utils demo_provider (''r006-1'' @ ''#'' @ ''ap'') (Some \<lparr>requiredBytes = 20, limitBytes = 0\<rparr>)
      ([], [demo_volume\<lparr>volID := ''r006-1''\<rparr>])"
  obtain r tr s' where e: "?e = (r, tr, s')" by (metis prod.exhaust)
  have "GetProviderSession demo_provider = Inr (traced demo_session)" by (simp add: demo_provider_def)
  note ok = ControllerExpandVolume_ok[OF this _ _ _ e]
  have "fst ?e = Ok (20, False)" by code_simp
  then have r: "r = Ok (20, False)" using e by simp
  then have "tr = [CGetVolume ''r006-1'', CExpandVolume ''r006-1'' 20]"
    using ok[THEN conjunct2, THEN conjunct2, rule_format, of 20 False] by simp
  then show ?thesis using e r by blast
qed

text \<open>Creating a snapshot is idempotent. When the provider finds a snapshot of that name, nothing is created: the
  existing one is returned when it belongs to the volume, and the call is refused otherwise.\<close>

lemma CreateSnapshot_idempotent:
  assumes "GetProviderSession P = Inr (traced S)" "CHR ''#'' \<notin> set v" "CHR ''#'' \<notin> set a" "n \<noteq> ''''"
    "ToLower (Getenv env ''IS_SNAPSHOT_ENABLED'') \<noteq> ''false''"
    "sGetSnapshotByName S n v s = ((Some sn, err), s1)"
  shows "CreateSnapshot P env n (v @ ''#'' @ a) ([], s) =
    (if snapVolumeID sn = v then Ok (createCSISnapshotResponse sn) else Err (CSIError SnapshotAlreadyExists),
     [CGetSnapshotByName n v], s1)"
  using assms unfolding CreateSnapshot_def getTokens_new[OF assms(2,3)]
  by (simp add: traced_def record_call_def)

lemma CreateSnapshot_idempotent_example:
  "\<exists>(S :: unit session) sn. CreateSnapshot \<lparr>GetConfig = None, GetClusterID = '''', GetProviderSession = Inr (traced S)\<rparr> fmempty
      ''snap'' (''v'' @ ''#'' @ ''a'') ([], ()) = (Ok (createCSISnapshotResponse sn), [CGetSnapshotByName ''snap'' ''v''], ())"
proof -
  let ?sn = "\<lparr>snapID = ''s'', snapCRN = ''crn'', snapVolumeID = ''v'', snapSize = 1, snapCreated = 0, snapReady = True\<rparr>"
  obtain S :: "unit session" where S: "sGetSnapshotByName S = (\<lambda>n v s. ((Some ?sn, None), s))"
    by (metis session.select_convs(13))
  then have "sGetSnapshotByName S ''snap'' ''v'' () = ((Some ?sn, None), ())" by simp
  from CreateSnapshot_idempotent[OF _ _ _ _ _ this, where P = "\<lparr>GetConfig = None, GetClusterID = '''', GetProviderSession = Inr (traced S)\<rparr>"
      and a = "''a''" and env = fmempty]
  show ?thesis by (auto simp: Getenv_def ToLower_def)
qed

text \<open>What ListVolumes returns, and when it does not return. It lists exactly the provider's volumes that have a
  capacity, in order; it panics exactly when the provider's error does not have the type the code asserts, or when
  the provider reports success without a list.\<close>

lemma ListVolumes_spec:
  assumes "GetProviderSession P = Inr S" "sListVolumes S n t s = ((l, err), s')"
  shows "(is_panic (fst (ListVolumes U P n t s)) \<longleftrightarrow> (\<exists>m. err = Some (OtherError m)) \<or> err = None \<and> l = None) \<and>
    (\<forall>vols tok. err = None \<and> l = Some (vols, tok) \<longrightarrow>
       ListVolumes U P n t s = (Ok ([(volID v, i64 (c * GiB U)). v \<leftarrow> vols, c \<leftarrow> (case volCapacity v of None \<Rightarrow> [] | Some c \<Rightarrow> [c])], tok), s'))"
proof -
  have "map (\<lambda>v. (volID v, i64 (the (volCapacity v) * GiB U))) (filter (\<lambda>v. volCapacity v \<noteq> None) vols) =
      [(volID v, i64 (c * GiB U)). v \<leftarrow> vols, c \<leftarrow> (case volCapacity v of None \<Rightarrow> [] | Some c \<Rightarrow> [c])]" for vols :: "volume list"
    by (induction vols) (auto split: option.splits)
  then show ?thesis
    using assms by (auto simp: ListVolumes_def split: option.splits provider_error.splits)
qed

lemma ListVolumes_spec_example:
  "ListVolumes demo_utils demo_provider 0 '''' ([], [demo_volume\<lparr>volID := ''r006-1''\<rparr>]) =
     (Ok ([(''r006-1'', 2 ^ 30)], ''''), [CListVolumes], [demo_volume\<lparr>volID := ''r006-1''\<rparr>])"
proof -
  let ?vs = "[demo_volume\<lparr>volID := ''r006-1''\<rparr>]"
  have "sListVolumes (traced demo_session) 0 '''' ([], ?vs) = ((Some (?vs, ''''), None), [CListVolumes], ?vs)"
    by (simp add: traced_def record_call_def demo_session_def)
  from ListVolumes_spec[OF _ this, of demo_provider demo_utils] show ?thesis
    by (simp add: demo_provider_def demo_volume_def demo_utils_def i64_def)
qed

end
