(* ===== verification/Controller_Retry.thy ===== *)
theory Controller_Retry
  imports Controller_Calls
begin

text \<open>
  The controller service across calls. A CreateVolume may fail at any of its provider calls and is then repeated by
  the orchestrator. What the driver relies on is stated over an abstract account, the shares behind the session with
  their names, ids and sizes: a lookup by name is exact, creating a share adds one, and the other calls keep the
  names. Under these laws no sequence of calls leaves two shares of one name, and a repeated CreateVolume completes
  with the share that an earlier attempt created. A lookup that fails for another reason than a missing share is
  treated by the driver like a missing one, and a second share appears.
\<close>

section \<open>The account behind a session\<close>

type_synonym share = "string option \<times> string \<times> int option"

definition share_of :: "volume \<Rightarrow> share" where
  "share_of v = (volName v, volID v, volCapacity v)"

definition names :: "share list \<Rightarrow> string option list" where
  "names shs = map fst shs"

text \<open>The lookup by name returns a share of that name, or reports an error and there is none.\<close>

definition lookup_exact :: "'s session \<Rightarrow> ('s \<Rightarrow> share list) \<Rightarrow> bool" where
  "lookup_exact S acct \<longleftrightarrow> (\<forall>n s. case sGetVolumeByName S n s of ((v, err), s') \<Rightarrow> acct s' = acct s \<and>
     (if err = None then \<exists>w. v = Some w \<and> share_of w \<in> set (acct s) \<and> volName w = Some n
      else Some n \<notin> set (names (acct s))))"

text \<open>Creating a share adds one of the requested name and size; a reported failure may have added it all the same.\<close>

definition create_adds :: "'s session \<Rightarrow> ('s \<Rightarrow> share list) \<Rightarrow> bool" where
  "create_adds S acct \<longleftrightarrow> (\<forall>v s. case sCreateVolume S v s of ((r, err), s') \<Rightarrow>
     (err \<noteq> None \<and> acct s' = acct s) \<or>
     (\<exists>w. volName w = volName v \<and> volCapacity w = volCapacity v \<and> acct s' = share_of w # acct s \<and> (err = None \<longrightarrow> r = Some w)))"

text \<open>The other calls: a deletion removes at most the share of that id, an expansion changes no name, the rest nothing.\<close>

definition others_keep :: "'s session \<Rightarrow> ('s \<Rightarrow> share list) \<Rightarrow> bool" where
  "others_keep S acct \<longleftrightarrow>
     (\<forall>v s. acct (snd (sDeleteVolume S v s)) \<in> {acct s, filter (\<lambda>x. fst (snd x) \<noteq> volID v) (acct s)}) \<and>
     (\<forall>v c s. names (acct (snd (sExpandVolume S v c s))) = names (acct s)) \<and>
     (\<forall>v s. acct (snd (sGetVolume S v s)) = acct s) \<and>
     (\<forall>n t s. acct (snd (sListVolumes S n t s)) = acct s) \<and>
     (\<forall>r s. acct (snd (sGetSubnet S r s)) = acct s) \<and>
     (\<forall>r s. acct (snd (sGetSecurityGroup S r s)) = acct s) \<and>
     (\<forall>r s. acct (snd (sCreateAccessPoint S r s)) = acct s) \<and>
     (\<forall>r s. acct (snd (sWaitForCreateAccessPoint S r s)) = acct s) \<and>
     (\<forall>r s. acct (snd (sDeleteAccessPoint S r s)) = acct s) \<and>
     (\<forall>r s. acct (snd (sWaitForDeleteAccessPoint S r s)) = acct s) \<and>
     (\<forall>n v s. acct (snd (sGetSnapshotByName S n v s)) = acct s) \<and>
     (\<forall>i v s. acct (snd (sGetSnapshot S i v s)) = acct s) \<and>
     (\<forall>v n s. acct (snd (sCreateSnapshot S v n s)) = acct s) \<and>
     (\<forall>sn s. acct (snd (sDeleteSnapshot S sn s)) = acct s) \<and>
     (\<forall>n t m s. acct (snd (sListSnapshots S n t m s)) = acct s)"

definition changes_ok :: "'s session \<Rightarrow> ('s \<Rightarrow> share list) \<Rightarrow> bool" where
  "changes_ok S acct \<longleftrightarrow> create_adds S acct \<and> others_keep S acct"

definition account_ok :: "'s session \<Rightarrow> ('s \<Rightarrow> share list) \<Rightarrow> bool" where
  "account_ok S acct \<longleftrightarrow> lookup_exact S acct \<and> changes_ok S acct"

lemma account_okD: "account_ok S acct \<Longrightarrow> changes_ok S acct"
  by (simp add: account_ok_def)

text \<open>A session on which the calls that provision a volume succeed.\<close>

definition provisions :: "'s session \<Rightarrow> bool" where
  "provisions S \<longleftrightarrow>
     (\<forall>v s. \<exists>w s'. sCreateVolume S v s = ((Some w, None), s')) \<and>
     (\<forall>r s. \<exists>i s'. sGetSubnet S r s = ((i, None), s') \<and> i \<noteq> '''') \<and>
     (\<forall>r s. \<exists>a s'. sCreateAccessPoint S r s = ((Some a, None), s')) \<and>
     (\<forall>r s. \<exists>a s'. sWaitForCreateAccessPoint S r s = ((Some a, None), s'))"

section \<open>What each call does to the account\<close>

text \<open>The parts of CreateVolume after the checks of the request, named for the statements below.\<close>

abbreviation finish where
  "finish U D S env c requested volumeObj \<equiv> andThen (ensure_access_point S env requested volumeObj) (\<lambda>apReq.
     andThen (wait_access_point S apReq) (\<lambda>ap s. (volume_response U D c requested volumeObj ap, s)))"

abbreviation provision where
  "provision U D S env c v1 existing \<equiv> andThen (pick_network S env c v1) (\<lambda>requested.
     andThen (create_if_missing U S existing requested) (\<lambda>volumeObj. finish U D S env c requested volumeObj))"

abbreviation checked_create where
  "checked_create U D S env c source v0 \<equiv> andThen (\<lambda>s. (attach_snapshot source v0, s)) (\<lambda>v1.
     andThen (find_existing U S v1) (\<lambda>existing. provision U D S env c v1 existing))"

lemma lookup_keeps: "account_ok S acct \<Longrightarrow> acct (snd (sGetVolumeByName S n s)) = acct s"
  by (simp add: account_ok_def lookup_exact_def split_def)

lemma account_keeps:
  assumes "changes_ok S acct"
  shows "acct (snd (sDeleteSnapshot S sn s)) = acct s" "acct (snd (sGetVolume S i s)) = acct s"
    "acct (snd (sListVolumes S k t s)) = acct s" "acct (snd (sGetSubnet S r s)) = acct s"
    "acct (snd (sGetSecurityGroup S g s)) = acct s" "acct (snd (sCreateAccessPoint S a s)) = acct s"
    "acct (snd (sWaitForCreateAccessPoint S a s)) = acct s" "acct (snd (sDeleteAccessPoint S a s)) = acct s"
    "acct (snd (sWaitForDeleteAccessPoint S a s)) = acct s" "acct (snd (sGetSnapshotByName S n i s)) = acct s"
    "acct (snd (sGetSnapshot S n i s)) = acct s" "acct (snd (sCreateSnapshot S i n s)) = acct s"
    "acct (snd (sListSnapshots S k t m s)) = acct s"
  using assms by (simp_all add: changes_ok_def others_keep_def)

lemma andThen_rel:
  assumes "R (snd (f s))" "\<And>a s'. f s = (Ok a, s') \<Longrightarrow> R (snd (g a s'))"
  shows "R (snd (andThen f g s))"
  using assms by (auto simp: andThen_def split: prod.splits outcome.splits)

lemma checkIfVolumeExists_account:
  assumes "account_ok S acct"
  shows "acct (snd (checkIfVolumeExists U S v s)) = acct s"
  using lookup_keeps[OF assms, of "the (volName v)" s] account_keeps(2)[OF account_okD[OF assms], of "volID v" s]
  by (auto simp: checkIfVolumeExists_def split: prod.splits option.splits error_type.splits)

lemma find_existing_account:
  assumes "account_ok S acct"
  shows "acct (snd (find_existing U S v s)) = acct s"
proof -
  obtain vol err s1 where c: "checkIfVolumeExists U S v s = ((vol, err), s1)" by (metis prod.exhaust)
  then have "acct s1 = acct s" using checkIfVolumeExists_account[OF assms, of U v s] by simp
  then show ?thesis using c by (auto simp: find_existing_def split: option.splits)
qed

text \<open>What the lookup decides: a share of the name exists and is returned, or there is none.\<close>

lemma find_existing_decides:
  assumes "account_ok S acct" "volName v = Some n" "n \<noteq> ''''" "find_existing U S v s = (Ok existing, s1)"
  shows "case existing of None \<Rightarrow> Some n \<notin> set (names (acct s))
    | Some w \<Rightarrow> share_of w \<in> set (acct s) \<and> volName w = Some n \<and> volCapacity w = volCapacity v"
proof -
  obtain vol err t where l: "sGetVolumeByName S n s = ((vol, err), t)" by (metis prod.exhaust)
  have "lookup_exact S acct" using assms(1) by (simp add: account_ok_def)
  then have x: "if err = None then \<exists>w. vol = Some w \<and> share_of w \<in> set (acct s) \<and> volName w = Some n
      else Some n \<notin> set (names (acct s))"
    unfolding lookup_exact_def using l by (elim allE[of _ n] allE[of _ s]) simp
  show ?thesis
  proof (cases err)
    case None
    then obtain w where "vol = Some w" "share_of w \<in> set (acct s)" "volName w = Some n" using x by auto
    then show ?thesis using assms(2-4) l None
      by (auto simp: find_existing_def checkIfVolumeExists_def share_of_def split: if_splits)
  next
    case (Some e)
    then have "existing = None" using assms(2-4) l
      by (auto simp: find_existing_def checkIfVolumeExists_def split: error_type.splits)
    then show ?thesis using x Some by simp
  qed
qed

lemma pick_subnet_account:
  assumes "changes_ok S acct"
  shows "acct (snd (pick_subnet S env v s)) = acct s"
  using account_keeps(4)[OF assms] by (auto simp: pick_subnet_def Let_def split: prod.splits) (metis snd_conv)+

lemma pick_security_group_account:
  assumes "changes_ok S acct"
  shows "acct (snd (pick_security_group S env c v s)) = acct s"
  using account_keeps(5)[OF assms] by (auto simp: pick_security_group_def split: prod.splits) (metis snd_conv)+

lemma pick_network_account:
  assumes "changes_ok S acct"
  shows "acct (snd (pick_network S env c v s)) = acct s"
  unfolding pick_network_def using pick_subnet_account[OF assms, of env v s] pick_security_group_account[OF assms]
  by (auto intro!: andThen_rel[where R = "\<lambda>t. acct t = acct s"])

lemma ensure_access_point_account:
  assumes "changes_ok S acct"
  shows "acct (snd (ensure_access_point S env r v s)) = acct s"
proof -
  have "acct s1 = acct s" if "sCreateAccessPoint S q s = (x, s1)" for q x s1
    using account_keeps(6)[OF assms, of q s] that by simp
  then show ?thesis by (auto simp: ensure_access_point_def Let_def split: prod.splits option.splits list.splits)
qed

lemma wait_access_point_account:
  assumes "changes_ok S acct"
  shows "acct (snd (wait_access_point S r s)) = acct s"
  using account_keeps(7)[OF assms, of r s] by (auto simp: wait_access_point_def split: prod.splits option.splits)

text \<open>From the access point on, the account does not change.\<close>

lemma finish_account:
  assumes "changes_ok S acct"
  shows "acct (snd (finish U D S env c requested volumeObj s)) = acct s"
proof (rule andThen_rel[where R = "\<lambda>t. acct t = acct s"])
  show "acct (snd (ensure_access_point S env requested volumeObj s)) = acct s" by (rule ensure_access_point_account[OF assms])
  fix apReq s'
  assume "ensure_access_point S env requested volumeObj s = (Ok apReq, s')"
  then have "acct s' = acct s" using ensure_access_point_account[OF assms, of env requested volumeObj s] by simp
  then show "acct (snd (andThen (wait_access_point S apReq) (\<lambda>ap s. (volume_response U D c requested volumeObj ap, s)) s')) = acct s"
    using wait_access_point_account[OF assms, of apReq s']
    by (intro andThen_rel[where R = "\<lambda>t. acct t = acct s"]) (auto dest: arg_cong[of _ _ snd])
qed

text \<open>One call of CreateVolume: nothing happens, or one share of the requested name and size is added where none was.\<close>

definition adds_share :: "string \<Rightarrow> int option \<Rightarrow> share list \<Rightarrow> share list \<Rightarrow> bool" where
  "adds_share n cap old new \<longleftrightarrow> new = old \<or> Some n \<notin> set (names old) \<and> (\<exists>i. new = (Some n, i, cap) # old)"

lemma create_if_missing_adds:
  assumes "changes_ok S acct" "volName v = Some n" "existing = None \<longrightarrow> Some n \<notin> set (names (acct s))"
  shows "adds_share n (volCapacity v) (acct s) (acct (snd (create_if_missing U S existing v s)))"
proof (cases existing)
  case None
  obtain r err s1 where c: "sCreateVolume S v s = ((r, err), s1)" by (metis prod.exhaust)
  have "create_adds S acct" using assms(1) by (simp add: changes_ok_def)
  then have "acct s1 = acct s \<or> (\<exists>w. volName w = volName v \<and> volCapacity w = volCapacity v \<and> acct s1 = share_of w # acct s)"
    unfolding create_adds_def using c by (elim allE[of _ v] allE[of _ s]) auto
  then have "adds_share n (volCapacity v) (acct s) (acct s1)"
    using assms(2,3) None by (auto simp: adds_share_def share_of_def)
  then show ?thesis using None c by (auto simp: create_if_missing_def split: option.splits)
qed (simp add: create_if_missing_def adds_share_def)

lemma provision_adds:
  assumes "changes_ok S acct" "volName v1 = Some n" "existing = None \<longrightarrow> Some n \<notin> set (names (acct s))"
  shows "adds_share n (volCapacity v1) (acct s) (acct (snd (provision U D S env c v1 existing s)))"
proof (rule andThen_rel[where R = "\<lambda>t. adds_share n (volCapacity v1) (acct s) (acct t)"])
  show "adds_share n (volCapacity v1) (acct s) (acct (snd (pick_network S env c v1 s)))"
    using pick_network_account[OF assms(1)] by (simp add: adds_share_def)
  fix requested s'
  assume p: "pick_network S env c v1 s = (Ok requested, s')"
  then have s': "acct s' = acct s" using pick_network_account[OF assms(1), of env c v1 s] by simp
  have "volName requested = Some n" "volCapacity requested = volCapacity v1"
    using pick_network_keeps[OF p] assms(2) by (simp_all add: same_request_def)
  then have create: "adds_share n (volCapacity v1) (acct s) (acct (snd (create_if_missing U S existing requested s')))"
    using create_if_missing_adds[OF assms(1), of requested n existing s'] assms(3) s' by simp
  show "adds_share n (volCapacity v1) (acct s) (acct (snd (andThen (create_if_missing U S existing requested) (\<lambda>volumeObj.
      finish U D S env c requested volumeObj) s')))"
    by (rule andThen_rel[where R = "\<lambda>t. adds_share n (volCapacity v1) (acct s) (acct t)"])
      (use create in \<open>simp_all add: finish_account[OF assms(1)]\<close>)
qed

lemma CreateVolume_adds:
  assumes "account_ok S acct" "GetProviderSession P = Inr S"
  shows "acct (snd (CreateVolume U D P env req s)) = acct s \<or> (\<exists>v0. getVolumeParameters U (GetConfig P) req = Ok v0 \<and>
    adds_share (reqName req) (volCapacity v0) (acct s) (acct (snd (CreateVolume U D P env req s))))"
    (is "?Q (CreateVolume U D P env req s)")
proof (rule CreateVolume_rejected[where Q = ?Q, OF _ _ _ assms(2)])
  fix v0
  assume v0: "getVolumeParameters U (GetConfig P) req = Ok v0" "reqName req \<noteq> ''''"
  let ?R = "\<lambda>t. adds_share (reqName req) (volCapacity v0) (acct s) (acct t)"
  have same: "?R t" if "acct t = acct s" for t using that by (simp add: adds_share_def)
  have "?R (snd (checked_create U D S env (GetClusterID P) (reqSource req) v0 s))"
  proof (rule andThen_rel[where R = ?R])
    fix v1 s'
    assume "(attach_snapshot (reqSource req) v0, s) = (Ok v1, s')"
    then have a: "attach_snapshot (reqSource req) v0 = Ok v1" "s' = s" by simp_all
    have v1: "volName v1 = Some (reqName req)" "volCapacity v1 = volCapacity v0"
      using attach_snapshot_keeps(1,3)[OF a(1)] getVolumeParameters_basics(1)[OF v0(1)] by simp_all
    show "?R (snd (andThen (find_existing U S v1) (\<lambda>existing.
          provision U D S env (GetClusterID P) v1 existing) s'))"
    proof (rule andThen_rel[where R = ?R])
      fix existing s1
      assume f: "find_existing U S v1 s' = (Ok existing, s1)"
      have "acct s1 = acct s" using find_existing_account[OF assms(1), of U v1 s] f a(2) by simp
      moreover have "existing = None \<longrightarrow> Some (reqName req) \<notin> set (names (acct s))"
        using find_existing_decides[OF assms(1) v1(1) v0(2) f] a(2) by auto
      ultimately show "?R (snd (provision U D S env (GetClusterID P) v1 existing s1))"
        using provision_adds[OF account_okD[OF assms(1)] v1(1), of existing s1] v1(2) by simp
    qed (simp add: same find_existing_account[OF assms(1)] a(2))
  qed (simp add: same)
  then show "?Q (checked_create U D S env (GetClusterID P) (reqSource req) v0 s)"
    using v0(1) by blast
qed simp_all

section \<open>Any sequence of calls\<close>

text \<open>The RPCs of the controller that use the provider, each with any arguments and any environment.\<close>

inductive controller_step :: "utils \<Rightarrow> driver \<Rightarrow> 's provider \<Rightarrow> 's \<Rightarrow> 's \<Rightarrow> bool" for U D P where
  create: "controller_step U D P s (snd (CreateVolume U D P env req s))"
| delete: "controller_step U D P s (snd (DeleteVolume U P volumeID s))"
| expand: "controller_step U D P s (snd (ControllerExpandVolume U P volumeID capRange s))"
| validate: "controller_step U D P s (snd (ValidateVolumeCapabilities U D P volumeID caps s))"
| list_volumes: "controller_step U D P s (snd (ListVolumes U P maxEntries startingToken s))"
| create_snapshot: "controller_step U D P s (snd (CreateSnapshot P env snapshotName sourceVolumeID s))"
| delete_snapshot: "controller_step U D P s (snd (DeleteSnapshot P snapshotID s))"
| list_snapshots: "controller_step U D P s (snd (ListSnapshots P snapshotID sourceVolumeID maxEntries startingToken s))"

lemma names_filter: "distinct (names shs) \<Longrightarrow> distinct (names (filter Q shs))"
  by (simp add: names_def distinct_map_filter)

lemma DeleteVolume_names:
  assumes "account_ok S acct" "GetProviderSession P = Inr S" "distinct (names (acct s))"
  shows "distinct (names (acct (snd (DeleteVolume U P volumeID s))))"
proof -
  define Q where "Q t \<longleftrightarrow> distinct (names (acct t))" for t
  have del: "Q t'" if "sDeleteVolume S v t = (r, t')" "Q t" for v t r t'
  proof -
    have "acct (snd (sDeleteVolume S v t)) \<in> {acct t, filter (\<lambda>x. fst (snd x) \<noteq> volID v) (acct t)}"
      using assms(1) by (simp add: account_ok_def changes_ok_def others_keep_def)
    then show ?thesis using that names_filter[of "acct t"] by (auto simp: Q_def)
  qed
  have c: "Q t" if "checkIfVolumeExists U S v s = (x, t)" for v x t
    using that checkIfVolumeExists_account[OF assms(1), of U v s] assms(3) by (simp add: Q_def)
  have d: "Q t'" if "sDeleteAccessPoint S q t = (e, t')" "Q t" for q t t' e
    using that account_keeps(8)[OF account_okD[OF assms(1)], of q t] by (simp add: Q_def)
  have w: "Q t'" if "sWaitForDeleteAccessPoint S q t = (e, t')" "Q t" for q t t' e
    using that account_keeps(9)[OF account_okD[OF assms(1)], of q t] by (simp add: Q_def)
  have "Q (snd (DeleteVolume U P volumeID s))"
    using assms(2,3) by (auto simp: DeleteVolume_def Let_def Q_def[of s] split: prod.splits option.splits dest: c d w del)
  then show ?thesis by (simp add: Q_def)
qed

lemma other_calls_names:
  assumes "account_ok S acct" "GetProviderSession P = Inr S"
  shows "names (acct (snd (ControllerExpandVolume U P volumeID capRange s))) = names (acct s)"
    "acct (snd (ValidateVolumeCapabilities U D P volumeID caps s)) = acct s"
    "acct (snd (ListVolumes U P maxEntries startingToken s)) = acct s"
    "acct (snd (CreateSnapshot P env snapshotName sourceVolumeID s)) = acct s"
    "acct (snd (DeleteSnapshot P snapshotID s)) = acct s"
    "acct (snd (ListSnapshots P snapshotID sourceVolumeID maxEntries startingToken s)) = acct s"
proof -
  note keep = account_keeps[OF account_okD[OF assms(1)]]
  have ex: "names (acct t') = names (acct t)" if "sExpandVolume S v c t = (r, t')" for v c t r t'
    using assms(1) that unfolding account_ok_def changes_ok_def others_keep_def by (metis snd_conv)
  have ch: "acct t' = acct t" if "checkIfVolumeExists U S v t = (x, t')" for v t x t'
    using that checkIfVolumeExists_account[OF assms(1), of U v t] by simp
  show "names (acct (snd (ControllerExpandVolume U P volumeID capRange s))) = names (acct s)"
    using assms(2) by (auto simp: ControllerExpandVolume_def Let_def split: prod.splits option.splits dest: ch) (metis ex ch)+
  show "acct (snd (ValidateVolumeCapabilities U D P volumeID caps s)) = acct s"
    using assms(2) keep(2)[of "getTokens volumeID ! 0" s]
    by (auto simp: ValidateVolumeCapabilities_def Let_def split: prod.splits option.splits)
  show "acct (snd (ListVolumes U P maxEntries startingToken s)) = acct s"
    using assms(2) keep(3)[of maxEntries startingToken s]
    by (auto simp: ListVolumes_def split: prod.splits option.splits provider_error.splits)
  have sn: "sGetSnapshotByName S n v t = (x, t') \<Longrightarrow> acct t' = acct t" "sCreateSnapshot S v n t = (x, t') \<Longrightarrow> acct t' = acct t"
    "sGetSnapshot S n v t = (x, t') \<Longrightarrow> acct t' = acct t" for n v t x t'
    using keep(10)[of n v t] keep(12)[of v n t] keep(11)[of n v t] by simp_all
  have ds: "sDeleteSnapshot S n t = (y, t') \<Longrightarrow> acct t' = acct t" for n t y t' using keep(1)[of n t] by simp
  have ls: "sListSnapshots S k tok m t = (x, t') \<Longrightarrow> acct t' = acct t" for k tok m t x t' using keep(13)[of k tok m t] by simp
  show "acct (snd (CreateSnapshot P env snapshotName sourceVolumeID s)) = acct s"
    using assms(2) by (auto simp: CreateSnapshot_def Let_def split: prod.splits option.splits dest!: sn)
  show "acct (snd (DeleteSnapshot P snapshotID s)) = acct s"
    using assms(2) by (auto simp: DeleteSnapshot_def split: prod.splits option.splits dest!: ds)
  show "acct (snd (ListSnapshots P snapshotID sourceVolumeID maxEntries startingToken s)) = acct s"
    using assms(2) by (auto simp: ListSnapshots_def Let_def split: prod.splits option.splits dest!: sn ls)
qed

lemma no_session_no_change:
  assumes "GetProviderSession P = Inl e"
  shows "controller_step U D P s s' \<Longrightarrow> s' = s"
  by (induction rule: controller_step.induct)
    (use assms in \<open>auto simp: CreateVolume_def DeleteVolume_def ControllerExpandVolume_def ValidateVolumeCapabilities_def
      ListVolumes_def CreateSnapshot_def DeleteSnapshot_def ListSnapshots_def Let_def split: sum.splits outcome.splits\<close>)

lemma controller_step_names:
  assumes "\<And>S. GetProviderSession P = Inr S \<Longrightarrow> account_ok S acct" "controller_step U D P s s'" "distinct (names (acct s))"
  shows "distinct (names (acct s'))"
proof (cases "GetProviderSession P")
  case (Inl e)
  then show ?thesis using no_session_no_change[OF Inl assms(2)] assms(3) by simp
next
  case (Inr S)
  note ok = assms(1)[OF Inr] Inr
  show ?thesis
    using assms(2)
  proof cases
    case (create env req)
    then show ?thesis using CreateVolume_adds[OF ok, of U D env req s] assms(3) by (auto simp: adds_share_def names_def)
  next
    case (delete volumeID)
    then show ?thesis using DeleteVolume_names[OF ok assms(3)] by simp
  qed (use other_calls_names[OF ok] assms(3) in simp_all)
qed

interpretation controller: step_system "controller_step U D P"
  "\<lambda>s. (\<forall>S. GetProviderSession P = Inr S \<longrightarrow> account_ok S acct) \<and> distinct (names (acct s))" for U D P acct
  by unfold_locales (auto intro: controller_step_names)

text \<open>C8: share names stay unique. If lookups by name are exact, then no sequence of calls of the controller service, with
  any requests and any failures of the other provider calls, leaves two shares with the same name: every CreateVolume
  that follows an earlier attempt finds the share of that attempt.\<close>

theorem share_names_unique:
  assumes "\<And>S. GetProviderSession P = Inr S \<Longrightarrow> account_ok S acct" "distinct (names (acct s))" "(controller_step U D P)\<^sup>*\<^sup>* s s'"
  shows "distinct (names (acct s'))"
  using controller.run_keeps[OF assms(3), of acct] assms(1,2) by blast

section \<open>Repeating a CreateVolume\<close>

lemma find_existing_finds:
  assumes "account_ok S acct" "volName v = Some n" "n \<noteq> ''''" "volCapacity v = Some cap"
    "\<forall>x\<in>set (acct s). fst x = Some n \<longrightarrow> x = (Some n, i, Some cap)"
  shows "\<exists>existing s1. find_existing U S v s = (Ok existing, s1) \<and> acct s1 = acct s \<and>
    (case existing of None \<Rightarrow> Some n \<notin> set (names (acct s)) | Some w \<Rightarrow> volID w = i \<and> Some n \<in> set (names (acct s)))"
proof -
  obtain vol err t where l: "sGetVolumeByName S n s = ((vol, err), t)" by (metis prod.exhaust)
  have "lookup_exact S acct" using assms(1) by (simp add: account_ok_def)
  then have x: "acct t = acct s" "if err = None then \<exists>w. vol = Some w \<and> share_of w \<in> set (acct s) \<and> volName w = Some n
      else Some n \<notin> set (names (acct s))"
    unfolding lookup_exact_def using l by (elim allE[of _ n] allE[of _ s], simp)+
  show ?thesis
  proof (cases err)
    case None
    then obtain w where w: "vol = Some w" "share_of w \<in> set (acct s)" "volName w = Some n" using x by auto
    then have "volID w = i" "volCapacity w = Some cap" using assms(5) by (force simp: share_of_def)+
    moreover have "Some n \<in> set (names (acct s))" using w by (force simp: names_def share_of_def)
    ultimately show ?thesis using assms(2-4) l None w x(1)
      by (auto simp: find_existing_def checkIfVolumeExists_def)
  next
    case (Some e)
    then show ?thesis using assms(2-4) l x
      by (auto simp: find_existing_def checkIfVolumeExists_def split: error_type.splits)
  qed
qed

lemma pick_network_works:
  assumes "provisions S" "Getenv env ''VPC_SUBNET_IDS'' \<noteq> ''''"
  shows "\<exists>v' s'. pick_network S env c v s = (Ok v', s')"
proof -
  have "\<exists>v' s'. pick_subnet S env v s = (Ok v', s')"
  proof -
    obtain i t where "sGetSubnet S \<lparr>snList = Getenv env ''VPC_SUBNET_IDS'', snZone = volAz v, snVPCID = Getenv env ''VPC_ID'',
        snResourceGroup = volResourceGroup v\<rparr> s = ((i, None), t)" "i \<noteq> []"
      using assms(1) unfolding provisions_def by metis
    then show ?thesis using assms(2) by (simp add: pick_subnet_def Let_def)
  qed
  moreover have "\<exists>v' s'. pick_security_group S env c w t = (Ok v', s')" for w t
    by (auto simp: pick_security_group_def split: prod.splits)
  ultimately show ?thesis by (auto simp: pick_network_def andThen_Ok)
qed

lemma finish_works:
  assumes "provisions S" "volCapacity requested = Some cap"
  shows "\<exists>resp s'. finish U D S env c requested volumeObj s = (Ok resp, s') \<and> prefix (volID volumeObj @ ''#'') (cvVolumeId resp)"
proof -
  have "\<exists>apReq s'. ensure_access_point S env requested volumeObj s = (Ok apReq, s')"
  proof -
    obtain a t where "sCreateAccessPoint S ((access_point_request (volID volumeObj) '''')
       \<lparr>aprVPCID := Getenv env ''VPC_ID'', aprMode := volAccessControlMode requested,
        aprSecurityGroups := volSecurityGroups requested, aprResourceGroup := volResourceGroup requested,
        aprPrimaryIP := volPrimaryIP requested, aprSubnetID := volSubnetID requested\<rparr>) s = ((Some a, None), t)"
      using assms(1) unfolding provisions_def by metis
    then show ?thesis by (auto simp: ensure_access_point_def Let_def split: option.splits list.splits)
  qed
  moreover have "\<exists>ap s'. wait_access_point S q t = (Ok ap, s')" for q t
  proof -
    obtain a t' where "sWaitForCreateAccessPoint S q t = ((Some a, None), t')" using assms(1) unfolding provisions_def by metis
    then show ?thesis by (simp add: wait_access_point_def)
  qed
  moreover have "\<exists>resp. volume_response U D c requested volumeObj ap = Ok resp \<and> prefix (volID volumeObj @ ''#'') (cvVolumeId resp)" for ap
    using assms(2) by (simp add: volume_response_def Let_def)
  ultimately show ?thesis by (simp add: andThen_Ok) metis
qed

lemma provision_works:
  assumes "changes_ok S acct" "provisions S" "Getenv env ''VPC_SUBNET_IDS'' \<noteq> ''''"
    "volName v1 = Some n" "volCapacity v1 = Some cap"
  shows "\<exists>resp s' i. provision U D S env c v1 existing s = (Ok resp, s') \<and> prefix (i @ ''#'') (cvVolumeId resp) \<and>
    (case existing of None \<Rightarrow> acct s' = (Some n, i, Some cap) # acct s | Some w \<Rightarrow> acct s' = acct s \<and> i = volID w)"
proof -
  obtain requested t where p: "pick_network S env c v1 s = (Ok requested, t)" using pick_network_works[OF assms(2,3)] by blast
  then have r: "volCapacity requested = Some cap" "volName requested = Some n" "acct t = acct s"
    using pick_network_keeps[OF p] assms(4,5) pick_network_account[OF assms(1), of env c v1 s] by (simp_all add: same_request_def)
  have "\<exists>volumeObj t'. create_if_missing U S existing requested t = (Ok volumeObj, t') \<and>
     (case existing of None \<Rightarrow> acct t' = (Some n, volID volumeObj, Some cap) # acct s | Some w \<Rightarrow> acct t' = acct s \<and> volumeObj = w)"
  proof (cases existing)
    case None
    obtain w t' where c: "sCreateVolume S requested t = ((Some w, None), t')" using assms(2) unfolding provisions_def by metis
    have "create_adds S acct" using assms(1) by (simp add: changes_ok_def)
    then have "volName w = Some n \<and> volCapacity w = Some cap \<and> acct t' = share_of w # acct s"
      unfolding create_adds_def using c r by (elim allE[of _ requested] allE[of _ t]) auto
    then show ?thesis using None c by (simp add: create_if_missing_def share_of_def)
  qed (simp add: create_if_missing_def r(3))
  then obtain volumeObj t' where c: "create_if_missing U S existing requested t = (Ok volumeObj, t')"
    "case existing of None \<Rightarrow> acct t' = (Some n, volID volumeObj, Some cap) # acct s | Some w \<Rightarrow> acct t' = acct s \<and> volumeObj = w"
    by blast
  obtain resp s' where f: "finish U D S env c requested volumeObj t' = (Ok resp, s')" "prefix (volID volumeObj @ ''#'') (cvVolumeId resp)"
    using finish_works[OF assms(2) r(1)] by blast
  then have "acct s' = acct t'" using finish_account[OF assms(1), of env requested volumeObj U D c t'] by simp
  moreover have "provision U D S env c v1 existing s = (Ok resp, s')" using p c(1) f(1) by (simp add: andThen_def)
  ultimately show ?thesis using c(2) f(2) by (intro exI[of _ resp] exI[of _ s'] exI[of _ "volID volumeObj"]) (auto split: option.splits)
qed

text \<open>A request that the checks before the first provider call accept.\<close>

definition accepted :: "utils \<Rightarrow> driver \<Rightarrow> 's provider \<Rightarrow> create_request \<Rightarrow> bool" where
  "accepted U D P req \<longleftrightarrow> reqName req \<noteq> '''' \<and> reqCaps req \<noteq> [] \<and> areVolumeCapabilitiesSupported (reqCaps req) (drvVcap D) \<and>
     (case getVolumeParameters U (GetConfig P) req of
        Err e \<Rightarrow> False
      | Panic \<Rightarrow> False
      | Ok v0 \<Rightarrow> (volProfile v0 = Some RFSProfile \<longrightarrow> drvRfsEnabled D) \<and> is_ok (attach_snapshot (reqSource req) v0))"

text \<open>Repeated attempts, each with the session it gets, or none.\<close>

definition attempts ::
  "utils \<Rightarrow> driver \<Rightarrow> 's provider \<Rightarrow> environ \<Rightarrow> create_request \<Rightarrow> (provider_error + 's session) list \<Rightarrow> 's \<Rightarrow> 's" where
  "attempts U D P env req Ss s = foldl (\<lambda>t S. snd (CreateVolume U D (P\<lparr>GetProviderSession := S\<rparr>) env req t)) s Ss"

lemma attempts_add_once:
  assumes "\<forall>S. Inr S \<in> set Ss \<longrightarrow> account_ok S acct" "getVolumeParameters U (GetConfig P) req = Ok v0"
    "Some (reqName req) \<notin> set (names (acct s))"
  shows "acct (attempts U D P env req Ss s) = acct s \<or>
    (\<exists>i. acct (attempts U D P env req Ss s) = (Some (reqName req), i, volCapacity v0) # acct s)"
  using assms(1)
proof (induction Ss rule: rev_induct)
  case (snoc x Ss)
  let ?t = "attempts U D P env req Ss s"
  have t: "attempts U D P env req (Ss @ [x]) s = snd (CreateVolume U D (P\<lparr>GetProviderSession := x\<rparr>) env req ?t)"
    by (simp add: attempts_def)
  show ?case
  proof (cases x)
    case (Inl e)
    then have "acct (attempts U D P env req (Ss @ [x]) s) = acct ?t"
      unfolding t by (auto simp: CreateVolume_def split: sum.splits outcome.splits)
    then show ?thesis using snoc by simp
  next
    case (Inr S)
    then have "account_ok S acct" using snoc.prems by simp
    from CreateVolume_adds[OF this, of "P\<lparr>GetProviderSession := x\<rparr>" U D env req ?t] Inr assms(2)
    have "adds_share (reqName req) (volCapacity v0) (acct ?t) (acct (attempts U D P env req (Ss @ [x]) s))"
      unfolding t by (auto simp: adds_share_def)
    then show ?thesis using snoc assms(3) by (auto simp: adds_share_def names_def)
  qed
qed (simp add: attempts_def)


text \<open>C37: a lookup that fails for another reason than a missing share makes the driver create a second share. Whatever the
  error of the lookup, CreateVolume goes on as if there were no share of that name; on a session whose other calls
  succeed it returns a volume, and the account then holds two shares of the requested name.\<close>

theorem lookup_failure_duplicates:
  assumes "changes_ok S acct" "provisions S" "accepted U D P req" "Getenv env ''VPC_SUBNET_IDS'' \<noteq> ''''"
    "GetProviderSession P = Inr S" "sGetVolumeByName S (reqName req) s = ((vol, Some e), t)" "acct t = acct s"
    "Some (reqName req) \<in> set (names (acct s))"
  shows "\<exists>resp s'. CreateVolume U D P env req s = (Ok resp, s') \<and> 2 \<le> count_list (names (acct s')) (Some (reqName req))"
proof -
  obtain v0 v1 where req: "getVolumeParameters U (GetConfig P) req = Ok v0" "reqName req \<noteq> ''''" "reqCaps req \<noteq> []"
    "areVolumeCapabilitiesSupported (reqCaps req) (drvVcap D)" "volProfile v0 = Some RFSProfile \<longrightarrow> drvRfsEnabled D"
    "attach_snapshot (reqSource req) v0 = Ok v1"
    using assms(3) by (auto simp: accepted_def is_ok_iff split: sum.splits outcome.splits)
  obtain cap where v1: "volName v1 = Some (reqName req)" "volCapacity v1 = Some cap"
    using attach_snapshot_keeps(1,3)[OF req(6)] getVolumeParameters_basics(1,2)[OF req(1)] by auto
  have f: "find_existing U S v1 s = (Ok None, t)"
    using assms(6) v1(1) req(2) by (auto simp: find_existing_def checkIfVolumeExists_def split: error_type.splits)
  obtain resp s' i where p: "provision U D S env (GetClusterID P) v1 None t = (Ok resp, s')"
    "acct s' = (Some (reqName req), i, Some cap) # acct t"
    using provision_works[OF assms(1,2,4) v1, where existing = None and s = t and U = U and D = D and c = "GetClusterID P"] by auto
  have "CreateVolume U D P env req s = (Ok resp, s')"
    using req p(1) f assms(5) by (simp add: CreateVolume_def andThen_def)
  moreover have "1 \<le> count_list (names (acct s)) (Some (reqName req))"
    using assms(8) count_list_0_iff[of "names (acct s)" "Some (reqName req)"] by linarith
  ultimately show ?thesis using p(2) assms(7) by (simp add: names_def)
qed

section \<open>Concrete runs\<close>

definition demo_account :: "volume list \<Rightarrow> share list" where
  "demo_account vs = map share_of vs"

lemma demo_changes: "changes_ok demo_session demo_account"
  by (auto simp: changes_ok_def create_adds_def others_keep_def demo_session_def demo_account_def share_of_def filter_map comp_def)

lemma demo_lookup: "lookup_exact demo_session demo_account"
  unfolding lookup_exact_def
proof (intro allI)
  fix n vs
  show "case sGetVolumeByName demo_session n vs of ((v, err), s') \<Rightarrow> demo_account s' = demo_account vs \<and>
     (if err = None then \<exists>w. v = Some w \<and> share_of w \<in> set (demo_account vs) \<and> volName w = Some n
      else Some n \<notin> set (names (demo_account vs)))"
  proof (cases "find (\<lambda>v. volName v = Some n) vs")
    case None
    then show ?thesis by (auto simp: demo_session_def demo_account_def names_def share_of_def find_None_iff)
  next
    case (Some w)
    then have "w \<in> set vs" "volName w = Some n" by (auto simp: find_Some_iff)
    then show ?thesis using Some by (auto simp: demo_session_def demo_account_def)
  qed
qed

lemma demo_account_ok: "account_ok demo_session demo_account"
  using demo_changes demo_lookup by (simp add: account_ok_def)

lemma demo_provisions: "provisions demo_session"
  by (simp add: provisions_def demo_session_def)

text \<open>The demonstration provider without the record of the calls, one whose access points never become stable, and one
  whose lookups time out.\<close>

definition plain_provider :: "volume list provider" where
  "plain_provider = \<lparr>GetConfig = demo_config, GetClusterID = ''c1'', GetProviderSession = Inr demo_session\<rparr>"

definition unstable_session :: "volume list session" where
  "unstable_session = demo_session\<lparr>sWaitForCreateAccessPoint := (\<lambda>r vs. ((None, Some (OtherError ''timeout'')), vs))\<rparr>"

definition slow_session :: "volume list session" where
  "slow_session = demo_session\<lparr>sGetVolumeByName := (\<lambda>n vs. ((None, Some (OtherError ''timeout'')), vs))\<rparr>"

lemma unstable_account_ok: "account_ok unstable_session demo_account"
  using demo_account_ok
  by (simp add: account_ok_def changes_ok_def lookup_exact_def create_adds_def others_keep_def unstable_session_def)

lemma slow_changes: "changes_ok slow_session demo_account"
  using demo_changes by (simp add: changes_ok_def create_adds_def others_keep_def slow_session_def)

lemma demo_accepted: "accepted demo_utils demo_driver plain_provider demo_req"
  by code_simp

lemma demo_subnets: "Getenv demo_env ''VPC_SUBNET_IDS'' \<noteq> ''''"
  by (simp add: demo_env_def)

theorem share_names_unique_witness:
  "\<exists>vs. (controller_step demo_utils demo_driver plain_provider)\<^sup>*\<^sup>* [] vs \<and> vs \<noteq> [] \<and> distinct (names (demo_account vs))"
proof -
  let ?c = "\<lambda>vs. snd (CreateVolume demo_utils demo_driver plain_provider demo_env demo_req vs)"
  have run: "(controller_step demo_utils demo_driver plain_provider)\<^sup>*\<^sup>* [] (?c (?c []))"
    by (rule converse_rtranclp_into_rtranclp[OF controller_step.create r_into_rtranclp[of "controller_step _ _ _", OF controller_step.create]])
  have "distinct (names (demo_account (?c (?c []))))"
    by (rule share_names_unique[OF _ _ run]) (simp_all add: plain_provider_def demo_account_ok, simp add: demo_account_def names_def)
  moreover have "?c (?c []) \<noteq> []" by code_simp
  ultimately show ?thesis using run by blast
qed


theorem lookup_failure_duplicates_witness:
  "\<exists>resp vs. CreateVolume demo_utils demo_driver (plain_provider\<lparr>GetProviderSession := Inr slow_session\<rparr>) demo_env demo_req [demo_volume] = (Ok resp, vs) \<and>
     2 \<le> count_list (names (demo_account vs)) (Some (reqName demo_req))"
proof (rule lookup_failure_duplicates[OF slow_changes _ _ demo_subnets])
  show "provisions slow_session" using demo_provisions by (simp add: provisions_def slow_session_def)
  show "accepted demo_utils demo_driver (plain_provider\<lparr>GetProviderSession := Inr slow_session\<rparr>) demo_req"
    using demo_accepted by (simp add: accepted_def)
  show "sGetVolumeByName slow_session (reqName demo_req) [demo_volume] = ((None, Some (OtherError ''timeout'')), [demo_volume])"
    by (simp add: slow_session_def)
  show "Some (reqName demo_req) \<in> set (names (demo_account [demo_volume]))"
    by (simp add: names_def demo_account_def share_of_def demo_volume_def demo_req_def)
qed simp_all

end
