(* ===== verification/Controller_Conc.thy ===== *)
theory Controller_Conc
  imports Controller_Retry
begin

text \<open>
  CreateVolume calls that overlap. gRPC serves every call in its own goroutine, and the controller service takes no
  lock. Here a CreateVolume is split after each of its provider calls; between two steps of one call, steps of other
  CreateVolume calls and provider calls of any other RPC may come. A run without interruption is \<open>CreateVolume\<close> itself.
  Share names stay unique as long as no two calls for one name are under way, which CSI asks of the orchestrator;
  with two such calls both create a share.
\<close>

section \<open>The steps of a call\<close>

text \<open>Where a call is: about to look the name up, to pick a subnet, a security group, to create the share, its access
  point, to wait for that; or returned. The volume is the request so far, the option the share that was found.\<close>

datatype create_pc =
    Looking volume
  | Networking volume "volume option"
  | Grouping volume "volume option"
  | Creating volume "volume option"
  | Attaching volume volume
  | Awaiting volume volume access_point_request
  | Returned "(csi_error, csi_volume) outcome"

definition go_on :: "('a \<Rightarrow> create_pc) \<Rightarrow> (csi_error, 'a) outcome \<times> 's \<Rightarrow> create_pc \<times> 's" where
  "go_on f r =
     (case r of
        (Ok a, s) \<Rightarrow> (f a, s)
      | (Err e, s) \<Rightarrow> (Returned (Err e), s)
      | (Panic, s) \<Rightarrow> (Returned Panic, s))"

text \<open>The checks of the request, before the first provider call.\<close>

definition begin_create :: "utils \<Rightarrow> driver \<Rightarrow> 's provider \<Rightarrow> create_request \<Rightarrow> create_pc" where
  "begin_create U D P req =
     (if length (reqName req) = 0 then Returned (Err (CSIError MissingVolumeName))
      else if length (reqCaps req) = 0 then Returned (Err (CSIError NoVolumeCapabilities))
      else if \<not> areVolumeCapabilitiesSupported (reqCaps req) (drvVcap D)
        then Returned (Err (CSIError VolumeCapabilitiesNotSupported))
      else case getVolumeParameters U (GetConfig P) req of
          Err e \<Rightarrow> Returned (Err (CSIError InvalidParameters))
        | Panic \<Rightarrow> Returned Panic
        | Ok v0 \<Rightarrow>
            if volProfile v0 = Some RFSProfile \<and> \<not> drvRfsEnabled D then Returned (Err (CSIError ProfileNotAllowlisted))
            else (case GetProviderSession P of
                Inl e \<Rightarrow> Returned (Err (CSIError InternalError))
              | Inr S \<Rightarrow>
                  (case attach_snapshot (reqSource req) v0 of
                     Ok v1 \<Rightarrow> Looking v1
                   | Err e \<Rightarrow> Returned (Err e)
                   | Panic \<Rightarrow> Returned Panic)))"

fun advance :: "utils \<Rightarrow> driver \<Rightarrow> 's session \<Rightarrow> string \<Rightarrow> environ \<Rightarrow> create_pc \<times> 's \<Rightarrow> create_pc \<times> 's" where
  "advance U D S c env (Looking v, s) = go_on (Networking v) (find_existing U S v s)"
| "advance U D S c env (Networking v existing, s) =
     (if volAccessControlMode v = SecurityGroup then go_on (\<lambda>w. Grouping w existing) (pick_subnet S env v s)
      else (Creating (v\<lparr>volVPCID := Getenv env ''VPC_ID''\<rparr>) existing, s))"
| "advance U D S c env (Grouping v existing, s) = go_on (\<lambda>w. Creating w existing) (pick_security_group S env c v s)"
| "advance U D S c env (Creating requested existing, s) = go_on (Attaching requested) (create_if_missing U S existing requested s)"
| "advance U D S c env (Attaching requested vol, s) = go_on (Awaiting requested vol) (ensure_access_point S env requested vol s)"
| "advance U D S c env (Awaiting requested vol apReq, s) =
     go_on (\<lambda>ap. Returned (volume_response U D c requested vol ap)) (wait_access_point S apReq s)"
| "advance U D S c env (Returned r, s) = (Returned r, s)"

abbreviation returned :: "(csi_error, csi_volume) outcome \<times> 's \<Rightarrow> create_pc \<times> 's" where
  "returned rs \<equiv> (Returned (fst rs), snd rs)"

lemma advance_returned [simp]: "(advance U D S c env ^^ n) (Returned r, s) = (Returned r, s)"
  by (induction n) simp_all

lemma advance_go_on:
  assumes "\<And>a t. (advance U D S c env ^^ n) (f a, t) = returned (g a t)"
  shows "(advance U D S c env ^^ n) (go_on f (m s)) = returned (andThen m g s)"
  using assms by (auto simp: go_on_def andThen_def split: prod.splits outcome.splits)

lemma advance_finish:
  "(advance U D S c env ^^ 2) (Attaching requested vol, s) = returned (finish U D S env c requested vol s)"
proof -
  have wait: "(advance U D S c env ^^ 1) (Awaiting requested vol apReq, t) =
      returned (andThen (wait_access_point S apReq) (\<lambda>ap s. (volume_response U D c requested vol ap, s)) t)" for apReq t
    by (auto simp: go_on_def andThen_def split: prod.splits outcome.splits)
  have "(advance U D S c env ^^ 2) (Attaching requested vol, s) =
      (advance U D S c env ^^ 1) (go_on (Awaiting requested vol) (ensure_access_point S env requested vol s))"
    by (simp add: numeral_2_eq_2)
  then show ?thesis using advance_go_on[of 1 U D S c env "Awaiting requested vol", OF wait] by simp
qed

lemma advance_create:
  "(advance U D S c env ^^ 3) (Creating requested existing, s) =
    returned (andThen (create_if_missing U S existing requested) (\<lambda>vol. finish U D S env c requested vol) s)"
  using advance_go_on[of 2 U D S c env "Attaching requested", OF advance_finish]
  by (simp only: numeral_3_eq_3 numeral_2_eq_2 funpow.simps(2) funpow_swap1 comp_apply advance.simps(4))

lemma advance_more:
  assumes "(advance U D S c env ^^ n) x = returned r" "n \<le> m"
  shows "(advance U D S c env ^^ m) x = returned r"
proof -
  have "(advance U D S c env ^^ m) x = (advance U D S c env ^^ (m - n)) ((advance U D S c env ^^ n) x)"
    using assms(2) by (metis comp_apply funpow_add le_add_diff_inverse2)
  then show ?thesis using assms(1) by simp
qed

lemma advance_Suc: "(advance U D S c env ^^ Suc n) x = (advance U D S c env ^^ n) (advance U D S c env x)"
  by (simp add: funpow_swap1)

lemma andThen_assoc: "andThen (andThen m g) h = andThen m (\<lambda>a. andThen (g a) h)"
  by (rule ext) (auto simp: andThen_def split: prod.splits outcome.splits)

lemma advance_provision:
  "(advance U D S c env ^^ 5) (Networking v existing, s) = returned (provision U D S env c v existing s)"
proof (cases "volAccessControlMode v = SecurityGroup")
  case True
  have four: "(advance U D S c env ^^ Suc 3) (Grouping w existing, t) = returned (andThen (pick_security_group S env c w)
      (\<lambda>requested. andThen (create_if_missing U S existing requested) (\<lambda>vol. finish U D S env c requested vol)) t)" for w t
    unfolding advance_Suc using advance_go_on[of 3 U D S c env "\<lambda>w. Creating w existing", OF advance_create] by simp
  show ?thesis
    using True advance_go_on[of "Suc 3" U D S c env "\<lambda>w. Grouping w existing", OF four, of "pick_subnet S env v" s]
      advance_Suc[of "Suc 3" U D S c env "(Networking v existing, s)"]
    by (simp add: pick_network_def andThen_assoc eval_nat_numeral del: funpow.simps)
next
  case False
  have "(advance U D S c env ^^ Suc 4) (Networking v existing, s) =
      (advance U D S c env ^^ 4) (Creating (v\<lparr>volVPCID := Getenv env ''VPC_ID''\<rparr>) existing, s)"
    unfolding advance_Suc using False by simp
  also have "\<dots> = returned (provision U D S env c v existing s)"
    using advance_more[OF advance_create, of 4] False by (simp add: pick_network_def andThen_def)
  finally show ?thesis by simp
qed

text \<open>The steps make up the call: after the checks of a request, six uninterrupted steps give the response and the state of
  \<open>CreateVolume\<close>; those that are left after an early return do nothing.\<close>

lemma advance_CreateVolume:
  assumes "GetProviderSession P = Inr S"
  shows "(advance U D S (GetClusterID P) env ^^ 6) (begin_create U D P req, s) = returned (CreateVolume U D P env req s)"
proof -
  have look: "(advance U D S (GetClusterID P) env ^^ Suc 5) (Looking v, s) =
      returned (andThen (find_existing U S v) (\<lambda>existing. provision U D S env (GetClusterID P) v existing) s)" for v
    unfolding advance_Suc using advance_go_on[of 5 U D S "GetClusterID P" env "Networking v", OF advance_provision] by simp
  have six: "(6::nat) = Suc 5" by simp
  show ?thesis
    unfolding six begin_create_def CreateVolume_def
    using look assms by (simp del: funpow.simps split: sum.splits outcome.splits add: andThen_def)
qed

section \<open>Overlapping calls\<close>

text \<open>The provider calls of all other RPCs of the controller, with any arguments: any interleaving of those RPCs is a sequence
  of these.\<close>

inductive provider_call :: "'s session \<Rightarrow> 's \<Rightarrow> 's \<Rightarrow> bool" for S where
  "sGetVolumeByName S n s = (r1, s') \<Longrightarrow> provider_call S s s'"
| "sGetVolume S n s = (r2, s') \<Longrightarrow> provider_call S s s'"
| "sListVolumes S k n s = (r3, s') \<Longrightarrow> provider_call S s s'"
| "sDeleteVolume S v s = (e4, s') \<Longrightarrow> provider_call S s s'"
| "sExpandVolume S n c s = (r5, s') \<Longrightarrow> provider_call S s s'"
| "sDeleteAccessPoint S a s = (e6, s') \<Longrightarrow> provider_call S s s'"
| "sWaitForDeleteAccessPoint S a s = (e7, s') \<Longrightarrow> provider_call S s s'"
| "sGetSnapshotByName S n m s = (r8, s') \<Longrightarrow> provider_call S s s'"
| "sGetSnapshot S n m s = (r9, s') \<Longrightarrow> provider_call S s s'"
| "sCreateSnapshot S n m s = (r10, s') \<Longrightarrow> provider_call S s s'"
| "sDeleteSnapshot S sn s = (e11, s') \<Longrightarrow> provider_call S s s'"
| "sListSnapshots S k n m s = (r12, s') \<Longrightarrow> provider_call S s s'"

record 's creates =
  crState :: 's
  crCalls :: "nat \<Rightarrow> create_pc option"

inductive create_step :: "utils \<Rightarrow> driver \<Rightarrow> 's provider \<Rightarrow> 's session \<Rightarrow> 's creates \<Rightarrow> 's creates \<Rightarrow> bool" for U D P S where
  arrive: "crCalls x t = None \<Longrightarrow>
    create_step U D P S x (x\<lparr>crCalls := (crCalls x)(t \<mapsto> begin_create U D P req)\<rparr>)"
| proceed: "crCalls x t = Some pc \<Longrightarrow> advance U D S (GetClusterID P) env (pc, crState x) = (pc', s') \<Longrightarrow>
    create_step U D P S x \<lparr>crState = s', crCalls = (crCalls x)(t \<mapsto> pc')\<rparr>"
| respond: "crCalls x t = Some (Returned r) \<Longrightarrow> create_step U D P S x (x\<lparr>crCalls := (crCalls x)(t := None)\<rparr>)"
| other: "provider_call S (crState x) s' \<Longrightarrow> create_step U D P S x (x\<lparr>crState := s'\<rparr>)"

text \<open>Every other RPC is such a sequence.\<close>

lemma other_rpcs_are_provider_calls:
  assumes "GetProviderSession P = Inr S"
  shows "(provider_call S)\<^sup>*\<^sup>* s (snd (DeleteVolume U P volumeID s))"
    "(provider_call S)\<^sup>*\<^sup>* s (snd (ControllerExpandVolume U P volumeID capRange s))"
    "(provider_call S)\<^sup>*\<^sup>* s (snd (ValidateVolumeCapabilities U D P volumeID caps s))"
    "(provider_call S)\<^sup>*\<^sup>* s (snd (ListVolumes U P maxEntries startingToken s))"
    "(provider_call S)\<^sup>*\<^sup>* s (snd (CreateSnapshot P env snapshotName volumeID s))"
    "(provider_call S)\<^sup>*\<^sup>* s (snd (DeleteSnapshot P snapshotID s))"
    "(provider_call S)\<^sup>*\<^sup>* s (snd (ListSnapshots P snapshotID volumeID maxEntries startingToken s))"
proof -
  let ?R = "(provider_call S)\<^sup>*\<^sup>*"
  note calls = provider_call.intros[THEN rtranclp.rtrancl_into_rtrancl[of "provider_call S", rotated]]
  have chk: "checkIfVolumeExists U S v t = (r, t') \<Longrightarrow> ?R s t \<Longrightarrow> ?R s t'" for v t r t'
    by (auto simp: checkIfVolumeExists_def split: if_splits prod.splits option.splits error_type.splits dest: calls(1,2))
  show "?R s (snd (DeleteVolume U P volumeID s))"
    using assms by (auto simp: DeleteVolume_def Let_def split: prod.splits option.splits dest: chk calls(4,6,7))
  show "?R s (snd (ControllerExpandVolume U P volumeID capRange s))"
    using assms by (auto simp: ControllerExpandVolume_def Let_def split: prod.splits option.splits dest: chk calls(5))
  show "?R s (snd (ValidateVolumeCapabilities U D P volumeID caps s))"
    using assms by (auto simp: ValidateVolumeCapabilities_def Let_def split: prod.splits option.splits dest: calls(2))
  show "?R s (snd (ListVolumes U P maxEntries startingToken s))"
    using assms by (auto simp: ListVolumes_def split: prod.splits option.splits provider_error.splits dest: calls(3))
  show "?R s (snd (CreateSnapshot P env snapshotName volumeID s))"
    using assms by (auto simp: CreateSnapshot_def Let_def split: prod.splits option.splits dest: calls(8,10))
  show "?R s (snd (DeleteSnapshot P snapshotID s))"
    using assms by (auto simp: DeleteSnapshot_def split: prod.splits option.splits dest: calls(9,11))
  show "?R s (snd (ListSnapshots P snapshotID volumeID maxEntries startingToken s))"
    using assms by (auto simp: ListSnapshots_def Let_def split: prod.splits option.splits dest: calls(9,12))
qed

section \<open>Unique names\<close>

fun pc_name :: "create_pc \<Rightarrow> string option" where
  "pc_name (Looking v) = volName v"
| "pc_name (Networking v existing) = volName v"
| "pc_name (Grouping v existing) = volName v"
| "pc_name (Creating v existing) = volName v"
| "pc_name (Attaching v vol) = volName v"
| "pc_name (Awaiting v vol apReq) = volName v"
| "pc_name (Returned r) = None"

text \<open>No two calls for one name are under way.\<close>

definition exclusive :: "'s creates \<Rightarrow> bool" where
  "exclusive x \<longleftrightarrow> (\<forall>t u pc pc'. crCalls x t = Some pc \<longrightarrow> crCalls x u = Some pc' \<longrightarrow> pc_name pc \<noteq> None \<longrightarrow>
     pc_name pc = pc_name pc' \<longrightarrow> t = u)"

text \<open>A call that is about to create a share knows that there is none of its name.\<close>

definition missing :: "share list \<Rightarrow> volume \<Rightarrow> volume option \<Rightarrow> bool" where
  "missing shs v existing \<longleftrightarrow> volName v \<notin> {None, Some ''''} \<and> (existing = None \<longrightarrow> volName v \<notin> set (names shs))"

fun pc_ok :: "share list \<Rightarrow> create_pc \<Rightarrow> bool" where
  "pc_ok shs (Looking v) \<longleftrightarrow> volName v \<notin> {None, Some ''''}"
| "pc_ok shs (Networking v existing) \<longleftrightarrow> missing shs v existing"
| "pc_ok shs (Grouping v existing) \<longleftrightarrow> missing shs v existing"
| "pc_ok shs (Creating v existing) \<longleftrightarrow> missing shs v existing"
| "pc_ok shs _ \<longleftrightarrow> True"

lemma pc_ok_other:
  assumes "pc_ok shs pc" "set (names shs') \<subseteq> insert n (set (names shs))" "pc_name pc \<noteq> n"
  shows "pc_ok shs' pc"
  using assms by (cases pc) (auto simp: missing_def)

lemma pc_ok_fewer: "pc_ok shs pc \<Longrightarrow> set (names shs') \<subseteq> set (names shs) \<Longrightarrow> pc_ok shs' pc"
  by (cases pc) (auto simp: missing_def)

lemma missing_same: "missing shs v existing \<Longrightarrow> same_request v w \<Longrightarrow> missing shs w existing"
  by (simp add: missing_def same_request_def)

lemma go_on_cases:
  assumes "go_on f r = (pc, s')"
  obtains (ok) a where "r = (Ok a, s')" "pc = f a" | (stop) x where "pc = Returned x" "snd r = s'"
  using assms by (auto simp: go_on_def split: prod.splits outcome.splits)

text \<open>One step of a call: the account stays, or gets the share of the call's name where there was none.\<close>

text \<open>The two steps that decide: the look-up finds out whether the name is missing, and the creation adds a missing name.\<close>

lemma advance_looking:
  assumes "account_ok S acct" "pc_ok (acct s) (Looking v)" "advance U D S c env (Looking v, s) = (pc', s')"
  shows "pc_ok (acct s') pc' \<and> acct s' = acct s"
proof -
  obtain n where n: "volName v = Some n" "n \<noteq> ''''" using assms(2) by auto
  have "go_on (Networking v) (find_existing U S v s) = (pc', s')" using assms(3) by simp
  then show ?thesis
  proof (cases rule: go_on_cases)
    case (ok existing)
    then show ?thesis
      using find_existing_decides[OF assms(1) n ok(1)] find_existing_account[OF assms(1), of U v s] n by (auto simp: missing_def)
  qed (use find_existing_account[OF assms(1), of U v s] in simp)
qed

lemma advance_creating:
  assumes "account_ok S acct" "pc_ok (acct s) (Creating v existing)" "advance U D S c env (Creating v existing, s) = (pc', s')"
  shows "pc_ok (acct s') pc' \<and> (acct s' = acct s \<or>
    volName v \<notin> set (names (acct s)) \<and> volName v \<noteq> None \<and> (\<exists>i cap. acct s' = (volName v, i, cap) # acct s))"
proof -
  obtain n where n: "volName v = Some n" "existing = None \<longrightarrow> Some n \<notin> set (names (acct s))"
    using assms(2) by (auto simp: missing_def)
  have "go_on (Attaching v) (create_if_missing U S existing v s) = (pc', s')" using assms(3) by simp
  then have "snd (create_if_missing U S existing v s) = s'" "pc_ok (acct s') pc'"
    by (cases rule: go_on_cases; simp)+
  then show ?thesis
    using create_if_missing_adds[OF account_okD[OF assms(1)] n, of U] n(1) by (auto simp: adds_share_def)
qed

lemma advance_account:
  assumes "account_ok S acct" "pc_ok (acct s) pc" "advance U D S c env (pc, s) = (pc', s')"
  shows "pc_ok (acct s') pc' \<and> (acct s' = acct s \<or>
    pc_name pc \<notin> set (names (acct s)) \<and> pc_name pc \<noteq> None \<and> (\<exists>i cap. acct s' = (pc_name pc, i, cap) # acct s))"
proof -
  note ch = account_okD[OF assms(1)]
  show ?thesis
  proof (cases pc)
    case (Looking v)
    then show ?thesis using advance_looking[OF assms(1)] assms(2,3) by blast
  next
    case (Networking v existing)
    show ?thesis
    proof (cases "volAccessControlMode v = SecurityGroup")
      case True
      then have "go_on (\<lambda>w. Grouping w existing) (pick_subnet S env v s) = (pc', s')" using assms(3) Networking by simp
      then show ?thesis
        by (cases rule: go_on_cases)
          (use pick_subnet_account[OF ch, of env v s] assms(2) Networking in \<open>auto dest: pick_subnet_keeps intro: missing_same\<close>)
    qed (use assms(2,3) Networking in \<open>auto simp: missing_def\<close>)
  next
    case (Grouping v existing)
    have "go_on (\<lambda>w. Creating w existing) (pick_security_group S env c v s) = (pc', s')" using assms(3) Grouping by simp
    then show ?thesis
      by (cases rule: go_on_cases)
        (use pick_security_group_account[OF ch, of env c v s] assms(2) Grouping in \<open>auto dest: pick_security_group_keeps intro: missing_same\<close>)
  next
    case (Creating v existing)
    then show ?thesis using advance_creating[OF assms(1)] assms(2,3) by simp
  next
    case (Attaching v vol)
    have "go_on (Awaiting v vol) (ensure_access_point S env v vol s) = (pc', s')" using assms(3) Attaching by simp
    then show ?thesis
      by (cases rule: go_on_cases) (use ensure_access_point_account[OF ch, of env v vol s] in auto)
  next
    case (Awaiting v vol apReq)
    have "go_on (\<lambda>ap. Returned (volume_response U D c v vol ap)) (wait_access_point S apReq s) = (pc', s')"
      using assms(3) Awaiting by simp
    then show ?thesis
      by (cases rule: go_on_cases) (use wait_access_point_account[OF ch, of apReq s] in auto)
  qed (use assms(3) in auto)
qed

lemma provider_call_names:
  assumes "account_ok S acct" "provider_call S s s'"
  shows "set (names (acct s')) \<subseteq> set (names (acct s)) \<and> (distinct (names (acct s)) \<longrightarrow> distinct (names (acct s')))"
proof -
  note keep = account_keeps[OF account_okD[OF assms(1)]]
  show ?thesis
    using assms(2)
  proof cases
    case (4 v e4)
    have "acct (snd (sDeleteVolume S v s)) \<in> {acct s, filter (\<lambda>x. fst (snd x) \<noteq> volID v) (acct s)}"
      using assms(1) by (simp add: account_ok_def changes_ok_def others_keep_def)
    then show ?thesis using 4 names_filter[of "acct s"] by (auto simp: names_def)
  next
    case (5 n c r5)
    have "names (acct (snd (sExpandVolume S n c s))) = names (acct s)"
      using assms(1) by (simp add: account_ok_def changes_ok_def others_keep_def)
    then show ?thesis using 5 by simp
  next
    case (1 n r1)
    then show ?thesis using lookup_keeps[OF assms(1), of n s] by simp
  qed (use keep in \<open>metis snd_conv subset_refl\<close>)+
qed

lemma begin_create_ok: "pc_ok shs (begin_create U D P req)"
proof -
  have "pc_ok shs (Looking v1)" if "getVolumeParameters U (GetConfig P) req = Ok v0"
      "attach_snapshot (reqSource req) v0 = Ok v1" "reqName req \<noteq> ''''" for v0 v1
    using attach_snapshot_keeps(3)[OF that(2)] getVolumeParameters_basics(1)[OF that(1)] that(3) by simp
  then show ?thesis unfolding begin_create_def by (simp split: sum.split outcome.split del: pc_ok.simps(1))
qed

definition creates_inv :: "('s \<Rightarrow> share list) \<Rightarrow> 's creates \<Rightarrow> bool" where
  "creates_inv acct x \<longleftrightarrow> distinct (names (acct (crState x))) \<and> (\<forall>t pc. crCalls x t = Some pc \<longrightarrow> pc_ok (acct (crState x)) pc)"

lemma create_step_inv:
  assumes "account_ok S acct" "create_step U D P S x y" "exclusive x" "creates_inv acct x"
  shows "creates_inv acct y"
  using assms(2)
proof cases
  case (arrive t req)
  then show ?thesis using assms(4) begin_create_ok by (auto simp: creates_inv_def)
next
  case (proceed t pc env pc' s')
  have step: "pc_ok (acct s') pc'" "acct s' = acct (crState x) \<or>
      pc_name pc \<notin> set (names (acct (crState x))) \<and> pc_name pc \<noteq> None \<and> (\<exists>i cap. acct s' = (pc_name pc, i, cap) # acct (crState x))"
    using advance_account[OF assms(1) _ proceed(3)] assms(4) proceed(2) by (simp_all add: creates_inv_def)
  have "pc_ok (acct s') pc''" if "crCalls x u = Some pc''" "u \<noteq> t" for u pc''
  proof (cases "acct s' = acct (crState x)")
    case False
    then have "pc_name pc'' \<noteq> pc_name pc" "set (names (acct s')) \<subseteq> insert (pc_name pc) (set (names (acct (crState x))))"
      using step(2) assms(3) that proceed(2) by (auto simp: exclusive_def names_def)
    moreover have "pc_ok (acct (crState x)) pc''" using assms(4) that(1) by (simp add: creates_inv_def)
    ultimately show ?thesis using pc_ok_other by blast
  qed (use assms(4) that(1) in \<open>simp add: creates_inv_def\<close>)
  moreover have "distinct (names (acct s'))" using step(2) assms(4) by (auto simp: creates_inv_def names_def)
  ultimately show ?thesis using step(1) proceed(1) by (auto simp: creates_inv_def)
next
  case (respond t r)
  then show ?thesis using assms(4) by (auto simp: creates_inv_def)
next
  case (other s')
  then show ?thesis using provider_call_names[OF assms(1) other(2)] assms(4) pc_ok_fewer
    by (simp add: creates_inv_def) blast
qed

interpretation creates: step_system "\<lambda>x y. create_step U D P S x y \<and> exclusive y"
  "\<lambda>x. account_ok S acct \<and> exclusive x \<and> creates_inv acct x" for U D P S acct
  by unfold_locales (auto intro: create_step_inv)


section \<open>Two calls for one name\<close>

text \<open>One call takes several steps in a row, through states that satisfy \<open>E\<close>.\<close>

lemma proceed_many:
  assumes "crCalls x t = Some pc" "(advance U D S (GetClusterID P) env ^^ n) (pc, crState x) = (pc', s')"
    "\<And>pc s. E \<lparr>crState = s, crCalls = (crCalls x)(t \<mapsto> pc)\<rparr>"
  shows "(\<lambda>x y. create_step U D P S x y \<and> E y)\<^sup>*\<^sup>* x \<lparr>crState = s', crCalls = (crCalls x)(t \<mapsto> pc')\<rparr>"
  using assms(2)
proof (induction n arbitrary: pc' s')
  case 0
  then have "\<lparr>crState = s', crCalls = (crCalls x)(t \<mapsto> pc')\<rparr> = x" using assms(1) by (cases x) (auto simp: fun_upd_idem)
  then show ?case by (simp only: rtranclp.rtrancl_refl)
next
  case (Suc n)
  obtain pc1 s1 where n: "(advance U D S (GetClusterID P) env ^^ n) (pc, crState x) = (pc1, s1)" by (metis prod.exhaust)
  let ?y = "\<lparr>crState = s1, crCalls = (crCalls x)(t \<mapsto> pc1)\<rparr>"
  have "advance U D S (GetClusterID P) env (pc1, s1) = (pc', s')" using Suc.prems n by simp
  then have "create_step U D P S ?y \<lparr>crState = s', crCalls = (crCalls ?y)(t \<mapsto> pc')\<rparr>" by (intro proceed[of _ _ pc1]) simp_all
  then have "create_step U D P S ?y \<lparr>crState = s', crCalls = (crCalls x)(t \<mapsto> pc')\<rparr>" by (simp only: creates.select_convs fun_upd_upd)
  then show ?case using assms(3) by (intro rtranclp.rtrancl_into_rtrancl[OF Suc.IH[OF n]] conjI)
qed

lemma accepted_begin:
  assumes "accepted U D P req" "GetProviderSession P = Inr S"
  obtains v cap where "begin_create U D P req = Looking v" "volName v = Some (reqName req)" "volCapacity v = Some cap" "reqName req \<noteq> ''''"
proof -
  obtain v0 v1 where req: "getVolumeParameters U (GetConfig P) req = Ok v0" "reqName req \<noteq> ''''" "reqCaps req \<noteq> []"
    "areVolumeCapabilitiesSupported (reqCaps req) (drvVcap D)" "volProfile v0 = Some RFSProfile \<longrightarrow> drvRfsEnabled D"
    "attach_snapshot (reqSource req) v0 = Ok v1"
    using assms(1) by (auto simp: accepted_def is_ok_iff split: sum.splits outcome.splits)
  then show thesis
    using that[of v1] attach_snapshot_keeps(1,3)[OF req(6)] getVolumeParameters_basics(1,2)[OF req(1)] assms(2)
    by (auto simp: begin_create_def)
qed

text \<open>A lookup of a name that the account does not have.\<close>

lemma look_misses:
  assumes "account_ok S acct" "volName v = Some n" "n \<noteq> ''''" "volCapacity v = Some cap" "Some n \<notin> set (names (acct s))"
  obtains t where "advance U D S c env (Looking v, s) = (Networking v None, t)" "acct t = acct s"
proof -
  have "\<forall>x\<in>set (acct s). fst x = Some n \<longrightarrow> x = (Some n, '''', Some cap)" using assms(5) by (force simp: names_def)
  from find_existing_finds[OF assms(1-4) this, of U] obtain existing t where f: "find_existing U S v s = (Ok existing, t)"
    "acct t = acct s" "case existing of None \<Rightarrow> True | Some w \<Rightarrow> Some n \<in> set (names (acct s))"
    by (auto split: option.splits)
  then have "existing = None" using assms(5) by (cases existing) auto
  then show thesis using that[of t] f(1,2) by (simp add: go_on_def)
qed

text \<open>C40: two overlapping CreateVolume calls for one name create two shares. On any account whose lookups are exact and
  whose calls succeed, and for any accepted request whose name is not taken, there is a run of two calls that both look
  the name up before either creates the share; both then report success, and the account holds two shares of the name.\<close>

theorem overlapping_creates_duplicate:
  assumes "account_ok S acct" "provisions S" "accepted U D P req" "GetProviderSession P = Inr S"
    "Getenv env ''VPC_SUBNET_IDS'' \<noteq> ''''" "Some (reqName req) \<notin> set (names (acct s))"
  shows "\<exists>x r1 r2. (create_step U D P S)\<^sup>*\<^sup>* \<lparr>crState = s, crCalls = (\<lambda>_. None)\<rparr> x \<and>
    crCalls x 0 = Some (Returned (Ok r1)) \<and> crCalls x 1 = Some (Returned (Ok r2)) \<and>
    count_list (names (acct (crState x))) (Some (reqName req)) = 2"
proof -
  let ?n = "reqName req" and ?c = "GetClusterID P"
  obtain v cap where v: "begin_create U D P req = Looking v" "volName v = Some ?n" "volCapacity v = Some cap" "?n \<noteq> ''''"
    by (rule accepted_begin[OF assms(3,4)])
  obtain t where t: "advance U D S ?c env (Looking v, s) = (Networking v None, t)" "acct t = acct s"
    by (rule look_misses[OF assms(1) v(2,4,3) assms(6)])
  obtain t' where t': "advance U D S ?c env (Looking v, t) = (Networking v None, t')" "acct t' = acct s"
    by (rule look_misses[OF assms(1) v(2,4,3), of t U D ?c env]) (use assms(6) t(2) in simp_all)
  note works = provision_works[OF account_okD[OF assms(1)] assms(2,5) v(2,3), where U = U and D = D and c = ?c and existing = None]
  obtain r1 s1 i where p1: "provision U D S env ?c v None t' = (Ok r1, s1)" "acct s1 = (Some ?n, i, Some cap) # acct s"
    using works[where s = t'] t'(2) by auto
  obtain r2 s2 j where p2: "provision U D S env ?c v None s1 = (Ok r2, s2)" "acct s2 = (Some ?n, j, Some cap) # acct s1"
    using works[where s = s1] by auto
  define x0 :: "'a creates" where "x0 = \<lparr>crState = s, crCalls = (\<lambda>_. None)\<rparr>"
  define x1 where "x1 = x0\<lparr>crCalls := (crCalls x0)(0 \<mapsto> Looking v)\<rparr>"
  define x2 where "x2 = x1\<lparr>crCalls := (crCalls x1)(1 \<mapsto> Looking v)\<rparr>"
  define x3 where "x3 = \<lparr>crState = t, crCalls = (crCalls x2)(0 \<mapsto> Networking v None)\<rparr>"
  define x4 where "x4 = \<lparr>crState = t', crCalls = (crCalls x3)(1 \<mapsto> Networking v None)\<rparr>"
  define x5 where "x5 = \<lparr>crState = s1, crCalls = (crCalls x4)(0 \<mapsto> Returned (Ok r1))\<rparr>"
  define x6 where "x6 = \<lparr>crState = s2, crCalls = (crCalls x5)(1 \<mapsto> Returned (Ok r2))\<rparr>"
  note xs = x6_def x5_def x4_def x3_def x2_def x1_def x0_def
  let ?R = "(create_step U D P S)\<^sup>*\<^sup>*"
  have "create_step U D P S x0 x1" "create_step U D P S x1 x2"
    using arrive[of x0 0 U D P S req] arrive[of x1 1 U D P S req] v(1) by (simp_all add: x2_def x1_def x0_def)
  moreover have "create_step U D P S x2 x3" "create_step U D P S x3 x4"
    using proceed[of x2 0 "Looking v" U D S P env] proceed[of x3 1 "Looking v" U D S P env] t(1) t'(1) by (simp_all add: xs)
  moreover have "?R x4 x5" "?R x5 x6"
    using proceed_many[of x4 0 "Networking v None" 5 U D S P env "Returned (Ok r1)" s1 "\<lambda>_. True"]
      proceed_many[of x5 1 "Networking v None" 5 U D S P env "Returned (Ok r2)" s2 "\<lambda>_. True"]
      advance_provision[of U D S ?c env v None] p1(1) p2(1) by (simp_all add: xs)
  ultimately have "?R x0 x6" by (meson converse_rtranclp_into_rtranclp rtranclp_trans)
  moreover have "count_list (names (acct s)) (Some ?n) = 0" using assms(6) by (simp add: count_list_0_iff)
  ultimately show ?thesis
    using p1(2) p2(2) by (intro exI[of _ x6] exI[of _ r1] exI[of _ r2]) (simp add: xs names_def)
qed

theorem overlapping_creates_duplicate_witness:
  "\<exists>x r1 r2. (create_step demo_utils demo_driver plain_provider demo_session)\<^sup>*\<^sup>* \<lparr>crState = [], crCalls = (\<lambda>_. None)\<rparr> x \<and>
    crCalls x 0 = Some (Returned (Ok r1)) \<and> crCalls x 1 = Some (Returned (Ok r2)) \<and>
    count_list (names (demo_account (crState x))) (Some (reqName demo_req)) = 2"
  by (rule overlapping_creates_duplicate[OF demo_account_ok demo_provisions demo_accepted _ demo_subnets])
    (simp_all add: plain_provider_def names_def demo_account_def)


end
