(* ===== verification/Network_Table.thy ===== *)
theory Network_Table
  imports Controller_Calls
begin

text \<open>
  A comment of \<open>CreateVolume\<close> lists, for a dp2 share with an elastic network interface, what happens for which choice of
  subnet, zone and primary IP. The list as a function, and that the checks of \<open>getVolumeParameters\<close> together with the
  calls of \<open>CreateVolume\<close> implement it.
\<close>

section \<open>The table\<close>

datatype ip_choice = NoIP | IPByID | IPByAddress

datatype network_case = FetchSubnet | UserSubnet | SubnetOfIP | ZoneMissing | SubnetMissing

text \<open>Which of subnet, zone and primary IP the user provided. The first nine lines are the cases 1 to 9 of the comment; the last
  three are the combinations it does not mention.\<close>

fun network_table :: "bool \<Rightarrow> bool \<Rightarrow> ip_choice \<Rightarrow> network_case" where
  "network_table False False NoIP = FetchSubnet"
| "network_table True True NoIP = UserSubnet"
| "network_table True True IPByAddress = UserSubnet"
| "network_table True True IPByID = UserSubnet"
| "network_table False True IPByID = SubnetOfIP"
| "network_table False False IPByID = ZoneMissing"
| "network_table True False NoIP = ZoneMissing"
| "network_table False True IPByAddress = SubnetMissing"
| "network_table True False IPByAddress = ZoneMissing"
| "network_table False True NoIP = FetchSubnet"
| "network_table True False IPByID = ZoneMissing"
| "network_table False False IPByAddress = ZoneMissing"

text \<open>What the user provided, parameters and secrets together; \<open>None\<close> when they are refused.\<close>

definition user_volume :: "utils \<Rightarrow> provider_config option \<Rightarrow> create_request \<Rightarrow> volume option" where
  "user_volume U g req =
     (case each_entry (param_step U) (reqParams req) (start_state (reqName req)) of
        Inl e \<Rightarrow> None
      | Inr s \<Rightarrow>
          (case volProfile (finish_params (reqSource req) s) of
             None \<Rightarrow> None
           | Some profile \<Rightarrow>
               (case getRequestedCapacity U (reqRange req) profile of
                  Inl e \<Rightarrow> None
                | Inr cap \<Rightarrow>
                    (case overrideParams (reqSecrets req) g ((finish_params (reqSource req) s)\<lparr>volCapacity := Some (BytesToGiB U cap)\<rparr>) of
                       Ok v \<Rightarrow> Some v
                     | _ \<Rightarrow> None))))"

text \<open>The primary IP; \<open>None\<close> for one that is given with an empty value.\<close>

definition given_ip :: "volume \<Rightarrow> ip_choice option" where
  "given_ip v =
     (case volPrimaryIP v of
        None \<Rightarrow> Some NoIP
      | Some ip \<Rightarrow> if ipID ip \<noteq> [] then Some IPByID else if ipAddress ip \<noteq> [] then Some IPByAddress else None)"

definition network_case_of :: "volume \<Rightarrow> ip_choice \<Rightarrow> network_case" where
  "network_case_of v ip = network_table (volSubnetID v \<noteq> []) (\<not> blank (volAz v) \<and> \<not> blank (volRegion v)) ip"

section \<open>The checks\<close>

lemma getVolumeParameters_user:
  assumes "user_volume U g req = Some w" "volProfile w = Some profile" "reqCaps req \<noteq> []"
  shows "draft_ok U (reqName req) w" "\<And>e. check_params profile w = Some e \<Longrightarrow> getVolumeParameters U g req = Err e"
    "\<And>v. getVolumeParameters U g req = Ok v \<Longrightarrow> check_params profile w = None \<and> volSubnetID v = volSubnetID w \<and>
      volPrimaryIP v = volPrimaryIP w \<and> volAccessControlMode v = volAccessControlMode w \<and> (\<not> blank (volAz w) \<longrightarrow> volAz v = volAz w) \<and>
      (blank (volAz w) \<and> profile = DP2Profile \<longrightarrow> (\<exists>zones. pickTargetTopologyParams (reqPreferred req) = Inr zones \<and> volAz v = map_get zones (NodeZoneLabel U)))"
    "getVolumeParameters U g req \<noteq> Panic"
proof -
  obtain s where s: "each_entry (param_step U) (reqParams req) (start_state (reqName req)) = Inr s"
    using assms(1) by (auto simp: user_volume_def split: sum.splits)
  let ?v0 = "finish_params (reqSource req) s"
  obtain p cap where w: "volProfile ?v0 = Some p" "getRequestedCapacity U (reqRange req) p = Inr cap"
    "overrideParams (reqSecrets req) g (?v0\<lparr>volCapacity := Some (BytesToGiB U cap)\<rparr>) = Ok w"
    using assms(1) s by (auto simp: user_volume_def split: sum.splits option.splits outcome.splits)
  have draft: "draft_ok U (reqName req) (?v0\<lparr>volCapacity := Some (BytesToGiB U cap)\<rparr>)" using params_draft[OF s] by simp
  note inv = overrideParams_draft[OF w(3) draft]
  have p: "p = profile" using inv(2) w(1) assms(2) by simp
  show "draft_ok U (reqName req) w" by (fact inv(1))
  show "getVolumeParameters U g req = Err e" if "check_params profile w = Some e" for e
    using that s w p assms(3) by (simp add: getVolumeParameters_def Let_def)
  show "check_params profile w = None \<and> volSubnetID v = volSubnetID w \<and>
      volPrimaryIP v = volPrimaryIP w \<and> volAccessControlMode v = volAccessControlMode w \<and> (\<not> blank (volAz w) \<longrightarrow> volAz v = volAz w) \<and>
      (blank (volAz w) \<and> profile = DP2Profile \<longrightarrow> (\<exists>zones. pickTargetTopologyParams (reqPreferred req) = Inr zones \<and> volAz v = map_get zones (NodeZoneLabel U)))"
    if "getVolumeParameters U g req = Ok v" for v
    using that s w p assms(3) by (auto simp: getVolumeParameters_def Let_def blank_def split: if_splits option.splits sum.splits)
  show "getVolumeParameters U g req \<noteq> Panic"
    using s w p assms(3) by (auto simp: getVolumeParameters_def Let_def split: option.splits sum.splits)
qed

text \<open>The two errors of the table are the first two checks.\<close>

lemma check_params_table:
  assumes "volAccessControlMode w = SecurityGroup" "given_ip w = Some ip" "draft_ok U n w"
  shows "check_params DP2Profile w = Some ZoneAndRegionMandatory \<longleftrightarrow> network_case_of w ip = ZoneMissing"
    "(\<exists>a. check_params DP2Profile w = Some (SubnetMandatory a)) \<longleftrightarrow> network_case_of w ip = SubnetMissing"
  using assms
  by (cases ip; cases "volSubnetID w = []"; cases "blank (volAz w)"; cases "blank (volRegion w)";
      auto simp: check_params_def network_case_of_def given_ip_def draft_ok_def split: option.splits if_splits)+


lemma network_case_given:
  "network_case_of w ip = FetchSubnet \<Longrightarrow> ip = NoIP \<and> volSubnetID w = []"
  "network_case_of w ip \<in> {UserSubnet, SubnetOfIP} \<Longrightarrow> volSubnetID w \<noteq> [] \<or> ip = IPByID"
  "network_case_of w ip = SubnetOfIP \<Longrightarrow> volSubnetID w = []"
  by (cases ip; cases "volSubnetID w = []"; cases "\<not> blank (volAz w) \<and> \<not> blank (volRegion w)"; simp add: network_case_of_def)+

section \<open>The calls\<close>

text \<open>The calls that concern the network of the access point.\<close>

fun is_net :: "call \<Rightarrow> bool" where
  "is_net (CGetSubnet q) = True"
| "is_net (CCreateAccessPoint r) = True"
| "is_net _ = False"

definition net_calls :: "call list \<times> 's \<Rightarrow> call list" where
  "net_calls st = filter is_net (fst st)"

lemma checkIfVolumeExists_net: "net_calls (snd (checkIfVolumeExists U (traced S) v st)) = net_calls st"
  by (cases st) (auto simp: checkIfVolumeExists_def traced_def record_call_def net_calls_def
      split: prod.splits option.splits error_type.splits)

lemma find_existing_net: "net_calls (snd (find_existing U (traced S) v st)) = net_calls st"
proof -
  obtain vol err st1 where c: "checkIfVolumeExists U (traced S) v st = ((vol, err), st1)" by (metis prod.exhaust)
  have "net_calls st1 = net_calls st" using checkIfVolumeExists_net[of U S v st] c by simp
  then show ?thesis using c by (auto simp: find_existing_def split: option.splits)
qed

lemma create_if_missing_net: "net_calls (snd (create_if_missing U (traced S) existing v st)) = net_calls st"
  by (auto simp: create_if_missing_def traced_def record_call_def net_calls_def split: prod.splits option.splits)

lemma wait_access_point_net: "net_calls (snd (wait_access_point (traced S) q st)) = net_calls st"
  by (auto simp: wait_access_point_def traced_def record_call_def net_calls_def split: prod.splits option.splits)

lemma pick_security_group_quiet: "net_calls (snd (pick_security_group (traced S) env c v st)) = net_calls st"
  by (auto simp: pick_security_group_def traced_def record_call_def net_calls_def split: prod.splits)

lemmas net_calls_quiet = find_existing_net create_if_missing_net wait_access_point_net pick_security_group_quiet

definition subnet_query :: "environ \<Rightarrow> volume \<Rightarrow> subnet_request" where
  "subnet_query env v = \<lparr>snList = Getenv env ''VPC_SUBNET_IDS'', snZone = volAz v, snVPCID = Getenv env ''VPC_ID'', snResourceGroup = volResourceGroup v\<rparr>"

definition fetches :: "volume \<Rightarrow> bool" where
  "fetches v \<longleftrightarrow> volSubnetID v = [] \<and> (case volPrimaryIP v of None \<Rightarrow> True | Some ip \<Rightarrow> ipID ip = [])"

lemma pick_subnet_net:
  assumes "pick_subnet (traced S) env v st = (x, st')"
  shows "if fetches v
    then (case x of Ok v' \<Rightarrow> net_calls st' = net_calls st @ [CGetSubnet (subnet_query env v)] \<and> volPrimaryIP v' = volPrimaryIP v \<and>
            (\<exists>s1 s2. sGetSubnet S (subnet_query env v) s1 = ((volSubnetID v', None), s2))
          | _ \<Rightarrow> net_calls st' \<in> {net_calls st, net_calls st @ [CGetSubnet (subnet_query env v)]})
    else x = Ok v \<and> net_calls st' = net_calls st"
  using assms by (cases st) (auto simp: pick_subnet_def fetches_def subnet_query_def traced_def record_call_def net_calls_def Let_def
      split: prod.splits option.splits if_splits, blast+)

lemma pick_security_group_net:
  assumes "pick_security_group S env c v st = (x, st')"
  obtains v' where "x = Ok v'" "volSubnetID v' = volSubnetID v" "volPrimaryIP v' = volPrimaryIP v"
  using assms that by (auto simp: pick_security_group_def split: prod.splits if_splits)

text \<open>What the choice of the network adds, in terms of the requested volume.\<close>

definition picked :: "'s session \<Rightarrow> environ \<Rightarrow> volume \<Rightarrow> call list \<Rightarrow> volume \<Rightarrow> bool" where
  "picked S env v calls requested \<longleftrightarrow> volPrimaryIP requested = volPrimaryIP v \<and>
     (if fetches v then calls = [CGetSubnet (subnet_query env v)] \<and> (\<exists>s1 s2. sGetSubnet S (subnet_query env v) s1 = ((volSubnetID requested, None), s2))
      else calls = [] \<and> volSubnetID requested = volSubnetID v)"

lemma pick_network_net:
  assumes "pick_network (traced S) env c v st = (x, st')" "volAccessControlMode v = SecurityGroup"
  obtains calls where "net_calls st' = net_calls st @ calls" "\<And>v'. x = Ok v' \<Longrightarrow> picked S env v calls v'"
    "calls = [] \<or> fetches v \<and> calls = [CGetSubnet (subnet_query env v)]"
proof -
  obtain y st1 where s: "pick_subnet (traced S) env v st = (y, st1)" by (metis prod.exhaust)
  note net = pick_subnet_net[OF s]
  show thesis
  proof (cases y)
    case (Ok v1)
    then have g: "pick_security_group (traced S) env c v1 st1 = (x, st')" using assms s by (simp add: pick_network_def andThen_def)
    have st': "net_calls st' = net_calls st1" using net_calls_quiet(4)[of S env c v1 st1] g by simp
    obtain v' where v': "x = Ok v'" "volSubnetID v' = volSubnetID v1" "volPrimaryIP v' = volPrimaryIP v1"
      by (rule pick_security_group_net[OF g])
    show thesis
    proof (rule that)
      show "net_calls st' = net_calls st @ (if fetches v then [CGetSubnet (subnet_query env v)] else [])"
        using net st' Ok by (simp split: if_splits)
      show "picked S env v (if fetches v then [CGetSubnet (subnet_query env v)] else []) v''" if "x = Ok v''" for v''
        using net Ok v' that by (auto simp: picked_def split: if_splits)
    qed simp
  next
    case (Err e)
    then have "x = Err e" "st' = st1" using assms s by (simp_all add: pick_network_def andThen_def)
    then show thesis using net Err that[of "[]"] that[of "[CGetSubnet (subnet_query env v)]"] by (auto split: if_splits)
  next
    case Panic
    then have "x = Panic" "st' = st1" using assms s by (simp_all add: pick_network_def andThen_def)
    then show thesis using net Panic that[of "[]"] that[of "[CGetSubnet (subnet_query env v)]"] by (auto split: if_splits)
  qed
qed

lemma ensure_access_point_net:
  assumes "ensure_access_point (traced S) env requested vol st = (x, st')"
  shows "net_calls st' = net_calls st \<or>
    (\<exists>r. net_calls st' = net_calls st @ [CCreateAccessPoint r] \<and> aprSubnetID r = volSubnetID requested \<and> aprPrimaryIP r = volPrimaryIP requested)"
  using assms by (cases st) (auto simp: ensure_access_point_def traced_def record_call_def net_calls_def Let_def access_point_request_def
      split: prod.splits option.splits list.splits)


text \<open>The calls of a whole run.\<close>

definition net_run :: "'s session \<Rightarrow> environ \<Rightarrow> volume \<Rightarrow> call list \<Rightarrow> bool" where
  "net_run S env v calls \<longleftrightarrow> calls = [] \<or> fetches v \<and> calls = [CGetSubnet (subnet_query env v)] \<or>
     (\<exists>pre requested r. picked S env v pre requested \<and> calls = pre @ [CCreateAccessPoint r] \<and>
        aprSubnetID r = volSubnetID requested \<and> aprPrimaryIP r = volPrimaryIP requested)"

lemma andThen_quiet:
  assumes "net_calls (snd (f st)) = net_calls st" "\<And>a st'. f st = (Ok a, st') \<Longrightarrow> net_calls st' = net_calls st \<Longrightarrow> Q (net_calls (snd (g a st')))"
    "Q (net_calls st)"
  shows "Q (net_calls (snd (andThen f g st)))"
  using assms by (auto simp: andThen_def split: prod.splits outcome.splits)

lemma access_point_net:
  assumes "picked S env v (net_calls st) requested"
  shows "net_run S env v (net_calls (snd (andThen (ensure_access_point (traced S) env requested vol) (\<lambda>q.
    andThen (wait_access_point (traced S) q) (\<lambda>ap s. (f ap, s))) st)))"
proof -
  obtain x st1 where e: "ensure_access_point (traced S) env requested vol st = (x, st1)" by (metis prod.exhaust)
  have "net_calls (snd (andThen (ensure_access_point (traced S) env requested vol) (\<lambda>q.
      andThen (wait_access_point (traced S) q) (\<lambda>ap s. (f ap, s))) st)) = net_calls st1"
  proof (cases x)
    case (Ok q)
    have "net_calls (snd (andThen (wait_access_point (traced S) q) (\<lambda>ap s. (f ap, s)) st1)) = net_calls st1"
      by (rule andThen_quiet[where Q = "\<lambda>c. c = net_calls st1"]) (simp_all add: net_calls_quiet)
    then show ?thesis using Ok e by (simp add: andThen_def)
  qed (use e in \<open>simp_all add: andThen_def\<close>)
  then show ?thesis using ensure_access_point_net[OF e] assms
    unfolding net_run_def picked_def by (auto split: if_splits)
qed

lemma provision_net:
  fixes S :: "'s session" and st :: "call list \<times> 's"
  assumes "volAccessControlMode v = SecurityGroup" "net_calls st = []"
  shows "net_run S env v (net_calls (snd (andThen (pick_network (traced S) env c v) (\<lambda>requested.
    andThen (create_if_missing U (traced S) existing requested) (\<lambda>vol.
    andThen (ensure_access_point (traced S) env requested vol) (\<lambda>q.
    andThen (wait_access_point (traced S) q) (\<lambda>ap s. (f requested vol ap, s))))) st)))" (is "net_run S env v (net_calls (snd (andThen _ ?rest _)))")
proof -
  obtain x st1 where p: "pick_network (traced S) env c v st = (x, st1)" by (metis prod.exhaust)
  obtain calls where calls: "net_calls st1 = calls" "\<And>v'. x = Ok v' \<Longrightarrow> picked S env v calls v'"
    "calls = [] \<or> fetches v \<and> calls = [CGetSubnet (subnet_query env v)]"
    using pick_network_net[OF p assms(1)] assms(2) by auto
  have early: "net_run S env v calls" using calls(3) by (auto simp: net_run_def)
  show ?thesis
  proof (cases x)
    case (Ok requested)
    have "net_run S env v (net_calls (snd (?rest requested st1)))"
    proof (rule andThen_quiet)
      fix vol and st2 :: "call list \<times> 's"
      assume "net_calls st2 = net_calls st1"
      then have "picked S env v (net_calls st2) requested" using calls(1,2) Ok by simp
      then show "net_run S env v (net_calls (snd (andThen (ensure_access_point (traced S) env requested vol) (\<lambda>q.
          andThen (wait_access_point (traced S) q) (\<lambda>ap s. (f requested vol ap, s))) st2)))"
        by (rule access_point_net)
    qed (simp_all add: net_calls_quiet calls(1) early)
    then show ?thesis using Ok p by (simp add: andThen_def)
  qed (use p calls(1) early in \<open>simp_all add: andThen_def\<close>)
qed

lemma CreateVolume_net:
  fixes S :: "'s session"
  assumes "GetProviderSession P = Inr (traced S)" "getVolumeParameters U (GetConfig P) req = Ok v"
    "volAccessControlMode v = SecurityGroup"
  obtains v1 where "volAz v1 = volAz v" "volSubnetID v1 = volSubnetID v" "volPrimaryIP v1 = volPrimaryIP v"
    "net_run S env v1 (net_calls (snd (CreateVolume U D P env req ([], s))))"
proof -
  let ?ok = "\<lambda>calls. \<exists>v1. volAz v1 = volAz v \<and> volSubnetID v1 = volSubnetID v \<and> volPrimaryIP v1 = volPrimaryIP v \<and> net_run S env v1 calls"
  have "?ok (net_calls (snd (CreateVolume U D P env req ([], s))))"
  proof (rule CreateVolume_rejected[where Q = "\<lambda>p. ?ok (net_calls (snd p))", OF _ _ _ assms(1)])
    fix v0
    assume "getVolumeParameters U (GetConfig P) req = Ok v0"
    then have v0: "v0 = v" using assms(2) by simp
    let ?rest = "\<lambda>v1 existing. andThen (pick_network (traced S) env (GetClusterID P) v1) (\<lambda>requested.
        andThen (create_if_missing U (traced S) existing requested) (\<lambda>volumeObj.
        andThen (ensure_access_point (traced S) env requested volumeObj) (\<lambda>apReq.
        andThen (wait_access_point (traced S) apReq) (\<lambda>ap s.
          (volume_response U D (GetClusterID P) requested volumeObj ap, s)))))"
    show "?ok (net_calls (snd (andThen (\<lambda>s. (attach_snapshot (reqSource req) v0, s)) (\<lambda>v1.
        andThen (find_existing U (traced S) v1) (?rest v1)) ([], s))))"
    proof (cases "attach_snapshot (reqSource req) v0")
      case (Ok v1)
      then have keep: "volAz v1 = volAz v" "volSubnetID v1 = volSubnetID v" "volPrimaryIP v1 = volPrimaryIP v" "volAccessControlMode v1 = SecurityGroup"
        using assms(3) v0 by (auto simp: attach_snapshot_def split: option.splits content_source.splits)
      have "net_run S env v1 (net_calls (snd (andThen (find_existing U (traced S) v1) (?rest v1) ([], s))))"
      proof (rule andThen_quiet)
        fix existing and st1 :: "call list \<times> 's"
        assume "net_calls st1 = net_calls ([], s)"
        then show "net_run S env v1 (net_calls (snd (?rest v1 existing st1)))" using provision_net[OF keep(4)] by (simp add: net_calls_def)
      qed (simp_all add: net_calls_quiet net_calls_def[of "([], s)"] net_run_def)
      then show ?thesis using keep Ok by (auto simp: andThen_def)
    qed (auto simp: andThen_def net_calls_def net_run_def)
  qed (auto simp: net_calls_def net_run_def)
  then show thesis using that by blast
qed


section \<open>Properties\<close>

text \<open>C13: the table of the comment is what the code does. For a dp2 share in security group mode, the choice of subnet,
  zone (that is, zone and region) and primary IP decides: without the zone or the subnet that the table demands, the request is refused and the
  provider is not called. Otherwise, if neither a subnet nor an IP is given, one subnet is requested, for the given
  zone or the one of the topology and out of the subnets of the cluster, and the access point is requested in the
  subnet of the answer; if a subnet or the id of an IP is given, no subnet is requested and the access point gets what was
  given.\<close>

theorem CreateVolume_network:
  assumes "GetProviderSession P = Inr (traced S)" "reqName req \<noteq> []" "areVolumeCapabilitiesSupported (reqCaps req) (drvVcap D)" "reqCaps req \<noteq> []"
    "user_volume U (GetConfig P) req = Some w" "volProfile w = Some DP2Profile" "volAccessControlMode w = SecurityGroup"
    "given_ip w = Some ip" "CreateVolume U D P env req ([], s) = (r, tr, s')"
  shows "case network_table (volSubnetID w \<noteq> []) (\<not> blank (volAz w) \<and> \<not> blank (volRegion w)) ip of
      ZoneMissing \<Rightarrow> r = Err (CSIError InvalidParameters) \<and> tr = []
    | SubnetMissing \<Rightarrow> r = Err (CSIError InvalidParameters) \<and> tr = []
    | FetchSubnet \<Rightarrow> filter is_net tr = [] \<or>
        (\<exists>q. snList q = Getenv env ''VPC_SUBNET_IDS'' \<and>
           (if blank (volAz w) then \<exists>zones. pickTargetTopologyParams (reqPreferred req) = Inr zones \<and> snZone q = map_get zones (NodeZoneLabel U)
            else snZone q = volAz w) \<and>
           (filter is_net tr = [CGetSubnet q] \<or>
            (\<exists>a s1 s2. filter is_net tr = [CGetSubnet q, CCreateAccessPoint a] \<and> sGetSubnet S q s1 = ((aprSubnetID a, None), s2) \<and> aprPrimaryIP a = None)))
    | UserSubnet \<Rightarrow> filter is_net tr = [] \<or>
        (\<exists>a. filter is_net tr = [CCreateAccessPoint a] \<and> aprSubnetID a = volSubnetID w \<and> aprPrimaryIP a = volPrimaryIP w)
    | SubnetOfIP \<Rightarrow> filter is_net tr = [] \<or>
        (\<exists>a. filter is_net tr = [CCreateAccessPoint a] \<and> aprSubnetID a = [] \<and> aprPrimaryIP a = volPrimaryIP w)"
proof (cases "getVolumeParameters U (GetConfig P) req")
  case (Err e)
  then show ?thesis using assms(2-4,9) by (auto simp: CreateVolume_def split: network_case.splits)
next
  case Panic
  then show ?thesis using getVolumeParameters_user(4)[OF assms(5,6,4)] by simp
next
  case (Ok v)
  note user = getVolumeParameters_user[OF assms(5,6,4)]
  note v = user(3)[OF Ok]
  have "network_case_of w ip \<noteq> ZoneMissing" "network_case_of w ip \<noteq> SubnetMissing"
    using check_params_table[OF assms(7,8) user(1)] v by auto
  obtain v1 where v1: "volAz v1 = volAz v" "volSubnetID v1 = volSubnetID v" "volPrimaryIP v1 = volPrimaryIP v"
    "net_run S env v1 (filter is_net tr)"
    using CreateVolume_net[OF assms(1) Ok, of env D s] v assms(7,9) by (auto simp: net_calls_def)
  have query: "snList (subnet_query env v1) = Getenv env ''VPC_SUBNET_IDS''"
    "if blank (volAz w) then \<exists>zones. pickTargetTopologyParams (reqPreferred req) = Inr zones \<and> snZone (subnet_query env v1) = map_get zones (NodeZoneLabel U)
     else snZone (subnet_query env v1) = volAz w"
    using v v1(1) by (auto simp: subnet_query_def)
  have f: "fetches v1 \<longleftrightarrow> volSubnetID w = [] \<and> ip \<noteq> IPByID" using v v1(2,3) assms(8)
    by (auto simp: fetches_def given_ip_def split: option.splits if_splits)
  consider "network_case_of w ip = FetchSubnet" | "network_case_of w ip \<in> {UserSubnet, SubnetOfIP}"
    using \<open>network_case_of w ip \<noteq> ZoneMissing\<close> \<open>network_case_of w ip \<noteq> SubnetMissing\<close> by (cases "network_case_of w ip") auto
  then show ?thesis
  proof cases
    case 1
    then have "fetches v1" "volPrimaryIP v1 = None"
      using network_case_given(1)[OF 1] f v v1(3) assms(8) by (auto simp: given_ip_def split: option.splits if_splits)
    then have "filter is_net tr = [] \<or> filter is_net tr = [CGetSubnet (subnet_query env v1)] \<or>
        (\<exists>a s1 s2. filter is_net tr = [CGetSubnet (subnet_query env v1), CCreateAccessPoint a] \<and>
           sGetSubnet S (subnet_query env v1) s1 = ((aprSubnetID a, None), s2) \<and> aprPrimaryIP a = None)"
      using v1(4) by (fastforce simp: net_run_def picked_def)
    then show ?thesis using 1 query unfolding network_case_of_def by (simp only: network_case.case) blast
  next
    case 2
    then have "\<not> fetches v1" using network_case_given(2)[OF 2] f by blast
    then have "filter is_net tr = [] \<or>
        (\<exists>a. filter is_net tr = [CCreateAccessPoint a] \<and> aprSubnetID a = volSubnetID w \<and> aprPrimaryIP a = volPrimaryIP w)"
      using v1(2-4) v by (auto simp: net_run_def picked_def)
    then show ?thesis using 2 network_case_given(3)[of w ip] unfolding network_case_of_def by (elim insertE emptyE) (simp_all only: network_case.case)
  qed
qed


definition dp2_req :: "(string \<times> string) list \<Rightarrow> create_request" where
  "dp2_req params = demo_req\<lparr>reqParams := [(''profile'', ''dp2''), (''isENIEnabled'', ''true'')] @ params\<rparr>"

theorem CreateVolume_network_witness:
  "\<exists>q a. let tr = fst (snd (CreateVolume demo_utils demo_driver demo_provider demo_env
       (dp2_req [(''zone'', ''us-south-1''), (''region'', ''us-south'')]) ([], [])))
     in filter is_net tr = [CGetSubnet q, CCreateAccessPoint a] \<and> snZone q = ''us-south-1'' \<and> snList q = ''0717-sn'' \<and> aprPrimaryIP a = None"
proof -
  let ?req = "dp2_req [(''zone'', ''us-south-1''), (''region'', ''us-south'')]"
  obtain r tr s' where c: "CreateVolume demo_utils demo_driver demo_provider demo_env ?req ([], []) = (r, tr, s')" by (metis prod.exhaust)
  have "\<exists>w. user_volume demo_utils (GetConfig demo_provider) ?req = Some w \<and> volProfile w = Some DP2Profile \<and>
      volAccessControlMode w = SecurityGroup \<and> given_ip w = Some NoIP \<and> volSubnetID w = [] \<and> volAz w = ''us-south-1'' \<and> \<not> blank (volAz w) \<and> \<not> blank (volRegion w)"
  proof -
    have "case user_volume demo_utils (GetConfig demo_provider) ?req of Some w \<Rightarrow> volProfile w = Some DP2Profile \<and>
        volAccessControlMode w = SecurityGroup \<and> given_ip w = Some NoIP \<and> volSubnetID w = [] \<and> volAz w = ''us-south-1'' \<and> \<not> blank (volAz w) \<and> \<not> blank (volRegion w)
      | None \<Rightarrow> False" by code_simp
    then show ?thesis by (auto split: option.splits)
  qed
  then obtain w where w: "user_volume demo_utils (GetConfig demo_provider) ?req = Some w" "volProfile w = Some DP2Profile"
    "volAccessControlMode w = SecurityGroup" "given_ip w = Some NoIP" "volSubnetID w = []" "volAz w = ''us-south-1''" "\<not> blank (volAz w)" "\<not> blank (volRegion w)"
    by blast
  have p: "GetProviderSession demo_provider = Inr (traced demo_session)" by (simp add: demo_provider_def)
  have req: "reqName ?req \<noteq> []" "areVolumeCapabilitiesSupported (reqCaps ?req) (drvVcap demo_driver)" "reqCaps ?req \<noteq> []" by code_simp+
  have "length (filter is_net (fst (snd (CreateVolume demo_utils demo_driver demo_provider demo_env ?req ([], []))))) = 2" by code_simp
  then have n: "length (filter is_net tr) = 2" using c by simp
  have env: "Getenv demo_env ''VPC_SUBNET_IDS'' = ''0717-sn''" by code_simp
  from CreateVolume_network[OF p req w(1-4) c] w(5-8) n c env show ?thesis by (auto simp: Let_def)
qed

text \<open>The documented errors and the reserved IP.\<close>

lemma demo_network_cases:
  "fst (CreateVolume demo_utils demo_driver demo_provider demo_env (dp2_req [(''subnetID'', ''0717-x'')]) ([], [])) = Err (CSIError InvalidParameters)"
  "fst (CreateVolume demo_utils demo_driver demo_provider demo_env
     (dp2_req [(''zone'', ''us-south-1''), (''region'', ''us-south''), (''primaryIPAddress'', ''10.0.0.4'')]) ([], [])) = Err (CSIError InvalidParameters)"
  "is_ok (fst (CreateVolume demo_utils demo_driver demo_provider demo_env
     (dp2_req [(''zone'', ''us-south-1''), (''region'', ''us-south''), (''primaryIPID'', ''0717-ip'')]) ([], [])))"
  by code_simp+

end
