(* ===== verification/Nfs_Source.thy ===== *)
theory Nfs_Source
  imports Provider
begin

text \<open>
  The parser of NFS sources in \<open>pkg/ibmcsidriver/node.go\<close>: \<open>splitNFSSource\<close> with the checks of the server name and of
  the export path. The server is what stands before the first colon, so that the only addresses \<open>net.ParseIP\<close> can
  accept there are dotted IPv4 addresses. The regular expression for host names is also given as a language, and
  the executable check is shown to decide it.
\<close>

section \<open>Server names\<close>

definition alnum :: "char \<Rightarrow> bool" where
  "alnum c \<longleftrightarrow> (let n = of_char c :: nat in 48 \<le> n \<and> n \<le> 57 \<or> 65 \<le> n \<and> n \<le> 90 \<or> 97 \<le> n \<and> n \<le> 122)"

definition alnum_dash :: "char \<Rightarrow> bool" where
  "alnum_dash c \<longleftrightarrow> alnum c \<or> c = CHR ''-''"

definition valid_label :: "string \<Rightarrow> bool" where
  "valid_label w \<longleftrightarrow> w \<noteq> [] \<and> length w \<le> 63 \<and> alnum (hd w) \<and> alnum (last w) \<and> list_all alnum_dash w"

definition valid_hostname :: "string \<Rightarrow> bool" where
  "valid_hostname s \<longleftrightarrow> list_all valid_label (Split s CHR ''.'')"

text \<open>
  A field of a dotted address for \<open>net.ParseIP\<close>: one to three digits, at most 255, without a leading zero.
\<close>

definition ipv4_field :: "string \<Rightarrow> bool" where
  "ipv4_field w \<longleftrightarrow> w \<noteq> [] \<and> length w \<le> 3 \<and> list_all is_digit w \<and> (hd w = CHR ''0'' \<longrightarrow> length w = 1) \<and>
     (case read_digits 0 w of None \<Rightarrow> False | Some n \<Rightarrow> n \<le> 255)"

definition ParseIPv4 :: "string \<Rightarrow> bool" where
  "ParseIPv4 s \<longleftrightarrow> length (Split s CHR ''.'') = 4 \<and> list_all ipv4_field (Split s CHR ''.'')"

datatype nfs_error =
    EmptySource
  | SourceTooLong
  | MissingColon
  | EmptyServer
  | ServerTooLong
  | InvalidHostname string
  | EmptyExportPath
  | ExportPathTooLong
  | ExportPathRelative string
  | NullByte
  | ParentReference
  | CurrentReference
  | DoubleSlash
  | ControlCharacter
  | ComponentTooLong

definition validateNFSServer :: "string \<Rightarrow> nfs_error option" where
  "validateNFSServer server =
     (if ParseIPv4 server then None
      else if \<not> valid_hostname server then Some (InvalidHostname server)
      else None)"

section \<open>Export paths\<close>

definition control_char :: "char \<Rightarrow> bool" where
  "control_char c \<longleftrightarrow> (of_char c :: nat) < 32 \<or> (of_char c :: nat) = 127"

definition validateExportPath :: "string \<Rightarrow> nfs_error option" where
  "validateExportPath path =
     (if Contains path [CHR 0x00] then Some NullByte
      else if Contains path ''/../'' \<or> HasSuffix path ''/..'' then Some ParentReference
      else if Contains path ''/./'' \<or> HasSuffix path ''/.'' then Some CurrentReference
      else if Contains path ''//'' then Some DoubleSlash
      else if list_ex control_char path then Some ControlCharacter
      else if list_ex (\<lambda>comp. comp \<noteq> '''' \<and> length comp > 255) (Split path CHR ''/'') then Some ComponentTooLong
      else None)"

record nfs_source =
  Server :: string
  ExportPath :: string

definition splitNFSSource :: "string \<Rightarrow> nfs_error + nfs_source" where
  "splitNFSSource source =
     (if source = '''' then Inl EmptySource
      else if length source > 4096 then Inl SourceTooLong
      else (let colonIndex = Index source '':''
            in if colonIndex = -1 then Inl MissingColon
               else (let server = take (nat colonIndex) source;
                         exportPath = drop (nat colonIndex + 1) source
                     in if server = '''' then Inl EmptyServer
                        else if length server > 253 then Inl ServerTooLong
                        else case validateNFSServer server of
                            Some e \<Rightarrow> Inl e
                          | None \<Rightarrow>
                              if exportPath = '''' then Inl EmptyExportPath
                              else if length exportPath > 4096 then Inl ExportPathTooLong
                              else if exportPath ! 0 \<noteq> CHR ''/'' then Inl (ExportPathRelative exportPath)
                              else case validateExportPath exportPath of
                                  Some e \<Rightarrow> Inl e
                                | None \<Rightarrow> Inr \<lparr>Server = server, ExportPath = exportPath\<rparr>)))"

section \<open>Host names as a regular language\<close>

datatype regexp =
    Class "char \<Rightarrow> bool"
  | Seq regexp regexp
  | Opt regexp
  | Upto nat regexp
  | Many regexp

inductive accepts :: "regexp \<Rightarrow> string \<Rightarrow> bool" where
  one: "P c \<Longrightarrow> accepts (Class P) [c]"
| seq: "accepts r s \<Longrightarrow> accepts q t \<Longrightarrow> accepts (Seq r q) (s @ t)"
| opt_none: "accepts (Opt r) []"
| opt_some: "accepts r s \<Longrightarrow> accepts (Opt r) s"
| upto_none: "accepts (Upto n r) []"
| upto_more: "accepts r s \<Longrightarrow> accepts (Upto n r) t \<Longrightarrow> accepts (Upto (Suc n) r) (s @ t)"
| many_none: "accepts (Many r) []"
| many_more: "accepts r s \<Longrightarrow> accepts (Many r) t \<Longrightarrow> accepts (Many r) (s @ t)"

inductive_simps accepts_Class [simp]: "accepts (Class P) s"
inductive_simps accepts_Seq: "accepts (Seq r q) s"
inductive_simps accepts_Opt: "accepts (Opt r) s"

definition label_regexp :: regexp where
  "label_regexp = Seq (Class alnum) (Opt (Seq (Upto 61 (Class alnum_dash)) (Class alnum)))"

definition validHostnameRegex :: regexp where
  "validHostnameRegex = Seq (Many (Seq label_regexp (Class (\<lambda>c. c = CHR ''.'')))) label_regexp"

lemma ex_cons: "(\<exists>a b. s = a @ b \<and> (\<exists>c. a = [c] \<and> P c) \<and> Q b) \<longleftrightarrow> (\<exists>c t. s = c # t \<and> P c \<and> Q t)"
  by auto (metis append_Cons append_Nil)

lemma ex_snoc: "(\<exists>a b. s = a @ b \<and> Q a \<and> (\<exists>c. b = [c] \<and> P c)) \<longleftrightarrow> (\<exists>m d. s = m @ [d] \<and> Q m \<and> P d)"
  by auto

lemma accepts_Upto_Class: "accepts (Upto n (Class P)) s \<longleftrightarrow> length s \<le> n \<and> list_all P s"
proof (induction n arbitrary: s)
  case 0
  then show ?case by (auto intro: upto_none elim: accepts.cases)
next
  case (Suc n)
  have "accepts (Upto (Suc n) (Class P)) s \<longleftrightarrow> s = [] \<or> (\<exists>c t. s = c # t \<and> P c \<and> accepts (Upto n (Class P)) t)"
  proof
    assume "accepts (Upto (Suc n) (Class P)) s"
    then show "s = [] \<or> (\<exists>c t. s = c # t \<and> P c \<and> accepts (Upto n (Class P)) t)"
      by (cases rule: accepts.cases) auto
  next
    assume "s = [] \<or> (\<exists>c t. s = c # t \<and> P c \<and> accepts (Upto n (Class P)) t)"
    then show "accepts (Upto (Suc n) (Class P)) s"
      using upto_none upto_more[of "Class P" "[_]" n] by auto
  qed
  then show ?case using Suc by (cases s) auto
qed

lemma accepts_label: "accepts label_regexp w \<longleftrightarrow> valid_label w"
proof -
  have "accepts label_regexp w \<longleftrightarrow> (\<exists>c t. w = c # t \<and> alnum c \<and>
      (t = [] \<or> (\<exists>m d. t = m @ [d] \<and> length m \<le> 61 \<and> list_all alnum_dash m \<and> alnum d)))"
    unfolding label_regexp_def accepts_Seq accepts_Opt accepts_Upto_Class by (simp add: ex_cons ex_snoc) blast
  also have "\<dots> \<longleftrightarrow> valid_label w"
  proof (cases w)
    case (Cons c t)
    then show ?thesis
      by (cases t rule: rev_cases) (auto simp: valid_label_def alnum_dash_def)
  qed (simp add: valid_label_def)
  finally show ?thesis .
qed

lemma valid_label_no_dot: "valid_label w \<Longrightarrow> CHR ''.'' \<notin> set w"
  by (auto simp: valid_label_def list_all_iff alnum_dash_def alnum_def Let_def)

lemma accepts_Many_label:
  "accepts (Many (Seq label_regexp (Class (\<lambda>c. c = CHR ''.'')))) t \<longleftrightarrow>
    (\<exists>ws. list_all valid_label ws \<and> t = concat (map (\<lambda>w. w @ ''.'') ws))"
  (is "accepts (Many ?r) t \<longleftrightarrow> ?ws t")
proof
  assume "accepts (Many ?r) t"
  then show "?ws t"
  proof (induction "Many ?r" t rule: accepts.induct)
    case many_none
    then show ?case by (intro exI[of _ "[]"]) simp
  next
    case (many_more s t)
    then obtain w ws where "s = w @ ''.''" "valid_label w" "list_all valid_label ws" "t = concat (map (\<lambda>w. w @ ''.'') ws)"
      by (auto simp: accepts_Seq accepts_label)
    then show ?case by (intro exI[of _ "w # ws"]) simp
  qed
next
  assume "?ws t"
  then obtain ws where "list_all valid_label ws" "t = concat (map (\<lambda>w. w @ ''.'') ws)" by blast
  then show "accepts (Many ?r) t"
  proof (induction ws arbitrary: t)
    case (Cons w ws)
    have "accepts ?r (w @ ''.'')" using Cons.prems(1) accepts_label by (auto simp: accepts_Seq)
    then have "accepts (Many ?r) ((w @ ''.'') @ concat (map (\<lambda>w. w @ ''.'') ws))"
      using Cons by (intro many_more) auto
    then show ?case using Cons.prems(2) by simp
  qed (simp add: many_none)
qed

lemma Split_dotted:
  "list_all valid_label ws \<Longrightarrow> valid_label w \<Longrightarrow> Split (concat (map (\<lambda>w. w @ ''.'') ws) @ w) CHR ''.'' = ws @ [w]"
proof (induction ws)
  case Nil
  then show ?case using Split_no_sep valid_label_no_dot by simp
next
  case (Cons a ws)
  then show ?case using Split_append[OF valid_label_no_dot[of a]] by simp
qed

lemma Join_dotted: "ws \<noteq> [] \<Longrightarrow> Join ws ''.'' = concat (map (\<lambda>w. w @ ''.'') (butlast ws)) @ last ws"
  by (induction ws) (auto simp: Join_Cons)

text \<open>C31: the executable check of host names decides the regular expression of the code.\<close>

theorem hostname_regex_decided: "accepts validHostnameRegex s \<longleftrightarrow> valid_hostname s"
proof
  assume "accepts validHostnameRegex s"
  then obtain ws w where "list_all valid_label ws" "valid_label w" "s = concat (map (\<lambda>w. w @ ''.'') ws) @ w"
    unfolding validHostnameRegex_def accepts_Seq[of "Many _"] accepts_Many_label accepts_label by blast
  then show "valid_hostname s" by (simp add: valid_hostname_def Split_dotted)
next
  assume s: "valid_hostname s"
  let ?ws = "Split s CHR ''.''"
  have "list_all valid_label (butlast ?ws)" "valid_label (last ?ws)"
    using s by (auto simp: valid_hostname_def list_all_iff dest: in_set_butlastD)
  moreover have "s = concat (map (\<lambda>w. w @ ''.'') (butlast ?ws)) @ last ?ws"
    using Join_dotted[of ?ws] Join_Split[of s "CHR ''.''"] by simp
  ultimately show "accepts validHostnameRegex s"
    unfolding validHostnameRegex_def accepts_Seq[of "Many _"] accepts_Many_label accepts_label by blast
qed

section \<open>What an accepted source looks like\<close>

lemma digit_alnum: "is_digit c \<Longrightarrow> alnum c"
  by (simp add: is_digit_def alnum_def Let_def)

lemma ipv4_hostname: "ParseIPv4 s \<Longrightarrow> valid_hostname s"
  by (auto simp: ParseIPv4_def valid_hostname_def valid_label_def ipv4_field_def list_all_iff alnum_dash_def digit_alnum)

lemma Split_set: "set s \<subseteq> {c} \<union> (\<Union>w\<in>set (Split s c). set w)"
proof (induction s)
  case (Cons d s)
  then show ?case by (auto split: list.splits) blast
qed simp

lemma hostname_chars: "valid_hostname s \<Longrightarrow> list_all (\<lambda>c. alnum_dash c \<or> c = CHR ''.'') s"
  using Split_set[of s "CHR ''.''"] by (fastforce simp: valid_hostname_def valid_label_def list_all_iff)

text \<open>A path without these patterns has no component that refers to a directory relative to it.\<close>

lemma dots_component:
  assumes "hd p = CHR ''/''" "p \<noteq> []" "dots \<in> set (Split p CHR ''/'')" "dots \<noteq> ''''"
  shows "Contains p (''/'' @ dots @ ''/'') \<or> HasSuffix p (''/'' @ dots)"
proof -
  obtain as bs where split: "Split p CHR ''/'' = as @ dots # bs" using assms(3) by (meson split_list)
  obtain q where q: "p = CHR ''/'' # q" using assms(1,2) by (cases p) auto
  then have "Split p CHR ''/'' = [] # Split q CHR ''/''" using Split_append[of "CHR ''/''" "[]" q] by simp
  then obtain as' where as: "as = [] # as'" using split assms(4) by (cases as) auto
  have p: "p = Join (as @ dots # bs) ''/''" using Join_Split[of p "CHR ''/''"] split by simp
  have join: "\<exists>x. Join (cs @ ds) ''/'' = x @ ''/'' @ Join ds ''/''" if "cs \<noteq> []" "ds \<noteq> []" for cs ds :: "string list"
    using that
  proof (induction cs)
    case (Cons c cs)
    show ?case
    proof (cases "cs = []")
      case True
      then show ?thesis using Cons.prems by (simp add: Join_Cons)
    next
      case False
      then obtain x where "Join (cs @ ds) ''/'' = x @ ''/'' @ Join ds ''/''" using Cons by blast
      then have "Join ((c # cs) @ ds) ''/'' = (c @ ''/'' @ x) @ ''/'' @ Join ds ''/''"
        using False by (simp add: Join_Cons)
      then show ?thesis by blast
    qed
  qed simp
  obtain x where x: "p = x @ ''/'' @ Join (dots # bs) ''/''" using join[of as "dots # bs"] as p by auto
  show ?thesis
  proof (cases "bs = []")
    case True
    then have "p = x @ (''/'' @ dots)" using x by simp
    then show ?thesis using HasSuffix_append by blast
  next
    case False
    then have "p = x @ (''/'' @ dots @ ''/'') @ Join bs ''/''" using x by (simp add: Join_Cons)
    then show ?thesis using Contains_append by blast
  qed
qed

text \<open>C30: an NFS source is accepted only in a safe shape. It is the server, a colon and the path; the server consists
  of letters, digits, dots and dashes only, so it cannot break out of a line of a service file; the path is absolute,
  has no control character, no component \<open>.\<close> or \<open>..\<close>, and no component longer than 255 bytes.\<close>

theorem splitNFSSource_safe:
  assumes "splitNFSSource source = Inr n"
  shows "source = Server n @ '':'' @ ExportPath n \<and> Server n \<noteq> '''' \<and>
    list_all (\<lambda>c. alnum_dash c \<or> c = CHR ''.'') (Server n) \<and> hd (ExportPath n) = CHR ''/'' \<and>
    list_all (\<lambda>c. \<not> control_char c) (ExportPath n) \<and>
    ''..'' \<notin> set (Split (ExportPath n) CHR ''/'') \<and> ''.'' \<notin> set (Split (ExportPath n) CHR ''/'') \<and>
    list_all (\<lambda>w. length w \<le> 255) (Split (ExportPath n) CHR ''/'')"
proof -
  let ?i = "nat (Index source '':'')" and ?p = "ExportPath n"
  have i: "Index source '':'' \<noteq> -1" and n: "Server n = take ?i source" "?p = drop (Suc ?i) source"
      and ne: "Server n \<noteq> ''''" and srv: "validateNFSServer (Server n) = None"
      and abs: "?p \<noteq> ''''" "?p ! 0 = CHR ''/''" and path: "validateExportPath ?p = None"
    using assms by (auto simp: splitNFSSource_def Let_def split: if_splits option.splits)
  have idx: "Index source '':'' = int ?i" using i by (auto simp: Index_def split: option.splits)
  have "source = Server n @ '':'' @ ?p" using Index_char_split[OF idx] n by simp
  moreover have "valid_hostname (Server n)"
    using srv ipv4_hostname by (auto simp: validateNFSServer_def split: if_splits)
  then have "list_all (\<lambda>c. alnum_dash c \<or> c = CHR ''.'') (Server n)" by (rule hostname_chars)
  moreover have hd: "hd ?p = CHR ''/''" using abs by (simp add: hd_conv_nth)
  moreover have v: "\<not> Contains ?p ''/../''" "\<not> HasSuffix ?p ''/..''" "\<not> Contains ?p ''/./''" "\<not> HasSuffix ?p ''/.''"
      "\<not> list_ex control_char ?p" "\<not> list_ex (\<lambda>w. w \<noteq> '''' \<and> length w > 255) (Split ?p CHR ''/'')"
    using path by (auto simp: validateExportPath_def split: if_splits)
  have "''..'' \<notin> set (Split ?p CHR ''/'')" "''.'' \<notin> set (Split ?p CHR ''/'')"
    using dots_component[OF hd abs(1), of "''..''"] dots_component[OF hd abs(1), of "''.''"] v(1-4) by auto
  moreover have "list_all (\<lambda>c. \<not> control_char c) ?p" "list_all (\<lambda>w. length w \<le> 255) (Split ?p CHR ''/'')"
    using v(5,6) by (auto simp: list_ex_iff list_all_iff)
  ultimately show ?thesis using ne by blast
qed

theorem splitNFSSource_safe_witness:
  "splitNFSSource ''10.240.0.5:/share/data'' = Inr \<lparr>Server = ''10.240.0.5'', ExportPath = ''/share/data''\<rparr> \<and>
    list_all (\<lambda>c. \<not> control_char c) ''/share/data''"
proof -
  have s: "splitNFSSource ''10.240.0.5:/share/data'' = Inr \<lparr>Server = ''10.240.0.5'', ExportPath = ''/share/data''\<rparr>"
    by code_simp
  from splitNFSSource_safe[OF s] s show ?thesis by simp
qed

end
