(* ===== verification/Node.thy ===== *)
theory Node
  imports Nfs_Source Controller Stunnel
begin

text \<open>
  The node service of \<open>pkg/ibmcsidriver/node.go\<close> and \<open>node_helper.go\<close>: publishing and unpublishing a volume on a node,
  with the stunnel manager for encrypted rfs shares. The mounter of \<open>ibm-csi-common\<close>, the mount helper of Kubernetes
  and the metadata service are parameters; the system calls of the tunnel manager are answered as in \<open>Stunnel\<close>.
  The lock per target path makes calls for one path sequential, which is how they are modelled.
\<close>

section \<open>Mounting\<close>

datatype os_error = PathNotExist (error_text: string) | OsError (error_text: string)

record 'm mounter =
  mIsLikelyNotMountPoint :: "string \<Rightarrow> 'm \<Rightarrow> (bool \<times> os_error option) \<times> 'm"
  mMakeDir :: "string \<Rightarrow> 'm \<Rightarrow> os_error option \<times> 'm"
  mMount :: "string \<Rightarrow> string \<Rightarrow> string \<Rightarrow> string list \<Rightarrow> 'm \<Rightarrow> os_error option \<times> 'm"
  mMountEITBasedFileShare :: "string \<Rightarrow> string \<Rightarrow> string \<Rightarrow> string \<Rightarrow> string \<Rightarrow> 'm \<Rightarrow> (string \<times> os_error option) \<times> 'm"
  mUnmount :: "string \<Rightarrow> 'm \<Rightarrow> os_error option \<times> 'm"
  mCleanupMountPoint :: "string \<Rightarrow> 'm \<Rightarrow> os_error option \<times> 'm"
  mRemove :: "string \<Rightarrow> 'm \<Rightarrow> os_error option \<times> 'm"

definition defaultFsType :: string where
  "defaultFsType = ''nfs''"

definition eitFsType :: string where
  "eitFsType = ''ibmshare''"

definition nfs4FsType :: string where
  "nfs4FsType = ''nfs4''"

text \<open>The two patterns of \<open>checkMountResponse\<close> end in a word boundary.\<close>

definition word_char :: "char \<Rightarrow> bool" where
  "word_char c \<longleftrightarrow> alnum c \<or> c = CHR ''_''"

fun contains_word :: "string \<Rightarrow> string \<Rightarrow> bool" where
  "contains_word [] p \<longleftrightarrow> False"
| "contains_word (c # s) p \<longleftrightarrow>
     HasPrefix (c # s) p \<and> (drop (length p) (c # s) = [] \<or> \<not> word_char (hd (drop (length p) (c # s)))) \<or> contains_word s p"

definition mount_errors :: "(string \<times> csi_code) list" where
  "mount_errors =
     [(''exit status 1'', MetadataServiceNotEnabled),
      (''connect: no such file'', UnresponsiveMountHelperContainerUtility)]"

text \<open>\<open>order\<close> lists the entries of \<open>mount_errors\<close> in the order of the iteration.\<close>

definition checkMountResponse :: "(string \<times> csi_code) list \<Rightarrow> os_error \<Rightarrow> csi_code" where
  "checkMountResponse order err =
     (case find (\<lambda>e. contains_word (error_text err) (fst e)) order of
        Some e \<Rightarrow> snd e
      | None \<Rightarrow> MountingTargetFailed)"

text \<open>After a failed mount: make sure nothing is left mounted on the target, and remove it.\<close>

definition mount_failed ::
  "'m mounter \<Rightarrow> (string \<times> csi_code) list \<Rightarrow> string \<Rightarrow> string \<Rightarrow> os_error \<Rightarrow> 'm \<Rightarrow> (csi_error, unit) outcome \<times> 'm" where
  "mount_failed M order targetPath fsType err s =
     (let finish = (\<lambda>s. (Err (CSIError (if fsType = eitFsType then checkMountResponse order err else MountingTargetFailed)),
                         snd (mRemove M targetPath s)))
      in case mIsLikelyNotMountPoint M targetPath s of
           ((_, Some e), s1) \<Rightarrow> (Err (CSIError MountPointValidateError), s1)
         | ((True, None), s1) \<Rightarrow> finish s1
         | ((False, None), s1) \<Rightarrow>
             (case mUnmount M targetPath s1 of
                (Some e, s2) \<Rightarrow> (Err (CSIError UnmountFailed), s2)
              | (None, s2) \<Rightarrow>
                  (case mIsLikelyNotMountPoint M targetPath s2 of
                     ((_, Some e), s3) \<Rightarrow> (Err (CSIError MountPointValidateError), s3)
                   | ((False, None), s3) \<Rightarrow> (Err (CSIError UnmountFailed), s3)
                   | ((True, None), s3) \<Rightarrow> finish s3)))"

definition processMount ::
  "'m mounter \<Rightarrow> (string \<times> csi_code) list \<Rightarrow> string \<Rightarrow> string \<Rightarrow> string \<Rightarrow> string \<Rightarrow> string \<Rightarrow> string list \<Rightarrow> 'm
    \<Rightarrow> (csi_error, unit) outcome \<times> 'm" where
  "processMount M order requestID mountPath targetPath fsType transitEncryption options s =
     (case mMakeDir M targetPath s of
        (Some e, s1) \<Rightarrow> (Err (CSIError TargetPathCreateFailed), s1)
      | (None, s1) \<Rightarrow>
          (case (if fsType \<noteq> eitFsType then mMount M mountPath targetPath fsType options s1
                 else (case mMountEITBasedFileShare M mountPath targetPath fsType transitEncryption requestID s1 of
                         ((_, err), s2) \<Rightarrow> (err, s2))) of
             (Some err, s2) \<Rightarrow> mount_failed M order targetPath fsType err s2
           | (None, s2) \<Rightarrow> (Ok (), s2)))"

section \<open>Publishing\<close>

record 'm node_state =
  nsMounts :: 'm
  nsMgr :: "stunnel_manager option"
  nsWorld :: world

record publish_request =
  pubVolumeID :: string
  pubContext :: "(string, string) fmap"
  pubTarget :: string
  pubCap :: "volume_capability option"

text \<open>Where to mount from, with which file system, encryption and options.\<close>

record mount_plan =
  planSource :: string
  planFsType :: string
  planEncryption :: string
  planOptions :: "string list"

text \<open>The tunnel for an encrypted rfs share, and the plan that goes through it.\<close>

definition plan_tunnel ::
  "ensure_os \<Rightarrow> string \<Rightarrow> string \<Rightarrow> string \<Rightarrow> string list \<Rightarrow> 'm node_state \<Rightarrow> (csi_error, mount_plan) outcome \<times> 'm node_state" where
  "plan_tunnel os requestID source fileShareID options st =
     (case nsMgr st of
        None \<Rightarrow> (Err (CSIError InternalError), st)
      | Some sm \<Rightarrow>
          (case splitNFSSource source of
             Inl e \<Rightarrow> (Err (CSIError InvalidParameters), st)
           | Inr nfs \<Rightarrow>
               (case EnsureTunnel os fileShareID (Server nfs) requestID (sm, nsWorld st) of
                  (res, sm', w') \<Rightarrow>
                    (let st' = st\<lparr>nsMgr := Some sm', nsWorld := w'\<rparr>
                     in case res of
                          Inl e \<Rightarrow> (Err (CSIError InternalError), st')
                        | Inr tunnelPort \<Rightarrow>
                            (Ok \<lparr>planSource = ''127.0.0.1:'' @ ExportPath nfs, planFsType = nfs4FsType,
                                 planEncryption = '''', planOptions = options @ [''port='' @ Itoa tunnelPort]\<rparr>, st')))))"

definition plan_mount ::
  "ensure_os \<Rightarrow> string \<Rightarrow> string \<Rightarrow> (string, string) fmap \<Rightarrow> string list \<Rightarrow> 'm node_state
    \<Rightarrow> (csi_error, mount_plan) outcome \<times> 'm node_state" where
  "plan_mount os requestID source volumeContext options st =
     (let profileName = map_get volumeContext ProfileLabel;
          fileShareID = map_get volumeContext FileShareIDLabel;
          isEITEnabled = map_get volumeContext IsEITEnabled
      in if profileName = RFSProfile \<and> isEITEnabled = TrueStr
         then plan_tunnel os requestID source fileShareID options st
         else if isEITEnabled = TrueStr \<and> profileName = DP2Profile
         then (Ok \<lparr>planSource = source, planFsType = eitFsType, planEncryption = IPSEC, planOptions = options\<rparr>, st)
         else (Ok \<lparr>planSource = source, planFsType = defaultFsType, planEncryption = '''', planOptions = options\<rparr>, st))"

definition NodePublishVolume ::
  "'m mounter \<Rightarrow> (string \<times> csi_code) list \<Rightarrow> access_mode list \<Rightarrow> ensure_os \<Rightarrow> string \<Rightarrow> publish_request \<Rightarrow> 'm node_state
    \<Rightarrow> (csi_error, unit) outcome \<times> 'm node_state" where
  "NodePublishVolume M order modes os requestID req st =
     (let source = map_get (pubContext req) NFSServerPath; target = pubTarget req
      in if length (pubVolumeID req) = 0 then (Err (CSIError EmptyVolumeID), st)
         else if length source = 0 then (Err (CSIError NoStagingTargetPath), st)
         else if length target = 0 then (Err (CSIError NoTargetPath), st)
         else (case pubCap req of
             None \<Rightarrow> (Err (CSIError NoVolumeCapabilities), st)
           | Some cap \<Rightarrow>
               if \<not> areVolumeCapabilitiesSupported [cap] modes then (Err (CSIError VolumeCapabilitiesNotSupported), st)
               else (case mIsLikelyNotMountPoint M target (nsMounts st) of
                   ((notMounted, err), m1) \<Rightarrow>
                     (let st1 = st\<lparr>nsMounts := m1\<rparr>
                      in if (case err of Some (OsError _) \<Rightarrow> True | _ \<Rightarrow> False)
                         then (Err (CSIError MountPointValidateError), st1)
                         else if \<not> notMounted then (Ok (), st1)
                         else (case capType cap of
                             MountType options \<Rightarrow>
                               (case plan_mount os requestID source (pubContext req) options st1 of
                                  (Ok p, st2) \<Rightarrow>
                                    (case processMount M order requestID (planSource p) target (planFsType p)
                                            (planEncryption p) (planOptions p) (nsMounts st2) of
                                       (r, m2) \<Rightarrow> (r, st2\<lparr>nsMounts := m2\<rparr>))
                                | (Err e, st2) \<Rightarrow> (Err e, st2)
                                | (Panic, st2) \<Rightarrow> (Panic, st2))
                           | _ \<Rightarrow> (Panic, st1))))))"

definition NodeUnpublishVolume ::
  "'m mounter \<Rightarrow> remove_os \<Rightarrow> string \<Rightarrow> string \<Rightarrow> string \<Rightarrow> 'm node_state \<Rightarrow> (csi_error, unit) outcome \<times> 'm node_state" where
  "NodeUnpublishVolume M os requestID volumeID targetPath st =
     (if length volumeID = 0 then (Err (CSIError EmptyVolumeID), st)
      else if length targetPath = 0 then (Err (CSIError NoTargetPath), st)
      else (case mCleanupMountPoint M targetPath (nsMounts st) of
          (Some e, m1) \<Rightarrow> (Err (CSIError UnmountFailed), st\<lparr>nsMounts := m1\<rparr>)
        | (None, m1) \<Rightarrow>
            (let st1 = st\<lparr>nsMounts := m1\<rparr>
             in case nsMgr st1 of
                  None \<Rightarrow> (Ok (), st1)
                | Some sm \<Rightarrow>
                    (case getTokens volumeID of
                       [] \<Rightarrow> (Ok (), st1)
                     | shareID # _ \<Rightarrow>
                         (case RemoveTunnel os shareID requestID (sm, nsWorld st1) of
                            (res, sm', w') \<Rightarrow>
                              (case res of Inl e \<Rightarrow> Err (CSIError InternalError) | Inr _ \<Rightarrow> Ok (),
                               st1\<lparr>nsMgr := Some sm', nsWorld := w'\<rparr>))))))"

section \<open>Information\<close>

record node_metadata =
  mdRegion :: string
  mdZone :: string
  mdWorkerID :: string

record node_info =
  niNodeId :: string
  niSegments :: "(string, string) fmap"

text \<open>The metadata the server holds, or else what the metadata service answers, which is then kept.\<close>

definition NodeGetInfo ::
  "utils \<Rightarrow> (string \<Rightarrow> node_metadata option) \<Rightarrow> environ \<Rightarrow> node_metadata option
    \<Rightarrow> (csi_error, node_info) outcome \<times> node_metadata option" where
  "NodeGetInfo U NewNodeMetadata env metadata =
     (case (if metadata = None then NewNodeMetadata (Getenv env ''KUBE_NODE_NAME'') else metadata) of
        None \<Rightarrow> (Err (CSIError NodeMetadataInitFailed), None)
      | Some md \<Rightarrow>
          (Ok \<lparr>niNodeId = mdWorkerID md,
               niSegments = fmupd (NodeZoneLabel U) (mdZone md) (fmupd (NodeRegionLabel U) (mdRegion md) fmempty)\<rparr>,
           Some md))"

datatype usage_unit = BYTES | INODES

record volume_usage =
  vuAvailable :: int
  vuTotal :: int
  vuUsed :: int
  vuUnit :: usage_unit

record fs_info =
  fiAvailable :: int
  fiCapacity :: int
  fiUsage :: int
  fiInodes :: int
  fiInodesFree :: int
  fiInodesUsed :: int

text \<open>\<open>unix.Stat\<close> on a path: success or the error; only a missing path counts.\<close>

definition IsDevicePathNotExist :: "(string \<Rightarrow> os_error option) \<Rightarrow> string \<Rightarrow> bool" where
  "IsDevicePathNotExist stat devicePath = (case stat devicePath of Some (PathNotExist _) \<Rightarrow> True | _ \<Rightarrow> False)"

definition NodeGetVolumeStats ::
  "(string \<Rightarrow> os_error option) \<Rightarrow> (string \<Rightarrow> os_error + fs_info) \<Rightarrow> (string \<times> string) option
    \<Rightarrow> (csi_error, volume_usage list) outcome" where
  "NodeGetVolumeStats stat FSInfo req =
     (case req of
        None \<Rightarrow> Err (CSIError EmptyVolumeID)
      | Some (volumeId, volumePath) \<Rightarrow>
          if volumeId = '''' then Err (CSIError EmptyVolumeID)
          else if volumePath = '''' then Err (CSIError EmptyVolumePath)
          else if IsDevicePathNotExist stat volumePath then Err (CSIError DevicePathNotExists)
          else (case FSInfo volumePath of
              Inl e \<Rightarrow> Err (CSIError GetFSInfoFailed)
            | Inr i \<Rightarrow>
                Ok [\<lparr>vuAvailable = fiAvailable i, vuTotal = fiCapacity i, vuUsed = fiUsage i, vuUnit = BYTES\<rparr>,
                    \<lparr>vuAvailable = fiInodesFree i, vuTotal = fiInodes i, vuUsed = fiInodesUsed i, vuUnit = INODES\<rparr>]))"

definition NodeStageVolume :: "(csi_error, unit) outcome" where
  "NodeStageVolume = Err (CSIError MethodUnsupported)"

definition NodeUnstageVolume :: "(csi_error, unit) outcome" where
  "NodeUnstageVolume = Err (CSIError MethodUnsupported)"

definition NodeExpandVolume :: "(csi_error, unit) outcome" where
  "NodeExpandVolume = Err (CSIError MethodUnsupported)"

end
