(* ===== verification/Node_Props.thy ===== *)
theory Node_Props
  imports Node Stunnel_Inv
begin

text \<open>
  Properties of single calls of the node service: what is mounted, from where and how encrypted; what a failed mount
  leaves behind; when a tunnel is removed. A mounter can be wrapped so that it records the calls made through it
  (\<open>traced_mounter\<close>); what is mounted is then a statement about the recorded list.
\<close>

section \<open>Recording the calls\<close>

datatype mount_call =
    CCheck string
  | CMakeDir string
  | CMount string string string "string list"
  | CMountEIT string string string string
  | CUnmount string
  | CCleanup string
  | CRemove string

definition traced_mounter :: "'m mounter \<Rightarrow> (mount_call list \<times> 'm) mounter" where
  "traced_mounter M =
     \<lparr>mIsLikelyNotMountPoint = (\<lambda>t. record_call (CCheck t) (mIsLikelyNotMountPoint M t)),
      mMakeDir = (\<lambda>t. record_call (CMakeDir t) (mMakeDir M t)),
      mMount = (\<lambda>src t fs opts. record_call (CMount src t fs opts) (mMount M src t fs opts)),
      mMountEITBasedFileShare = (\<lambda>src t fs enc r. record_call (CMountEIT src t fs enc) (mMountEITBasedFileShare M src t fs enc r)),
      mUnmount = (\<lambda>t. record_call (CUnmount t) (mUnmount M t)),
      mCleanupMountPoint = (\<lambda>t. record_call (CCleanup t) (mCleanupMountPoint M t)),
      mRemove = (\<lambda>t. record_call (CRemove t) (mRemove M t))\<rparr>"

lemma traced_mounter_sels [simp]:
  "mIsLikelyNotMountPoint (traced_mounter M) t = record_call (CCheck t) (mIsLikelyNotMountPoint M t)"
  "mMakeDir (traced_mounter M) t = record_call (CMakeDir t) (mMakeDir M t)"
  "mMount (traced_mounter M) src t fs opts = record_call (CMount src t fs opts) (mMount M src t fs opts)"
  "mMountEITBasedFileShare (traced_mounter M) src t fs enc r =
     record_call (CMountEIT src t fs enc) (mMountEITBasedFileShare M src t fs enc r)"
  "mUnmount (traced_mounter M) t = record_call (CUnmount t) (mUnmount M t)"
  "mCleanupMountPoint (traced_mounter M) t = record_call (CCleanup t) (mCleanupMountPoint M t)"
  "mRemove (traced_mounter M) t = record_call (CRemove t) (mRemove M t)"
  by (simp_all add: traced_mounter_def)

definition is_mount :: "mount_call \<Rightarrow> bool" where
  "is_mount c = (case c of CMount _ _ _ _ \<Rightarrow> True | CMountEIT _ _ _ _ \<Rightarrow> True | _ \<Rightarrow> False)"

lemma is_mount_simps [simp]:
  "is_mount (CMount a b c d)" "is_mount (CMountEIT a b c e)" "\<not> is_mount (CCheck b)" "\<not> is_mount (CMakeDir b)"
  "\<not> is_mount (CUnmount b)" "\<not> is_mount (CCleanup b)" "\<not> is_mount (CRemove b)"
  by (simp_all add: is_mount_def)

text \<open>The mount requests a state has recorded.\<close>

definition mounts_in :: "mount_call list \<times> 'm \<Rightarrow> mount_call list" where
  "mounts_in s = filter is_mount (fst s)"

lemma record_call_eq:
  "record_call c f s = (r, s') \<longleftrightarrow> (\<exists>t. f (snd s) = (r, t) \<and> s' = (fst s @ [c], t))"
  by (auto simp: record_call_def split: prod.splits)

lemma mounts_in_Pair [simp]: "mounts_in (l, t) = filter is_mount l" "filter is_mount (fst s) = mounts_in s"
  by (simp_all add: mounts_in_def)

section \<open>The mount step\<close>

lemma mount_failed_cases:
  assumes "mount_failed M order t fs err s = (r, s')"
  obtains (stuck) e where "r = Err e" "e \<in> {CSIError MountPointValidateError, CSIError UnmountFailed}"
  | (removed) code s0 s1 x where "r = Err (CSIError code)" "mIsLikelyNotMountPoint M t s0 = ((True, None), s1)" "mRemove M t s1 = (x, s')"
  using assms that unfolding mount_failed_def Let_def
  by (auto split: prod.splits option.splits bool.splits) (metis prod.exhaust_sel)+

lemma processMount_no_panic: "fst (processMount M order rid src t fs enc opts s) \<noteq> Panic"
proof -
  have "fst (mount_failed M order t fs err s2) \<noteq> Panic" for err s2
    by (cases "mount_failed M order t fs err s2") (auto elim: mount_failed_cases)
  then show ?thesis by (auto simp: processMount_def split: prod.splits option.splits)
qed

lemma mount_failed_mounts:
  "mount_failed (traced_mounter M) order t fs err s = (r, s') \<Longrightarrow> mounts_in s' = mounts_in s \<and> \<not> is_ok r \<and> r \<noteq> Panic"
  by (auto simp: mount_failed_def Let_def record_call_eq record_call_def[of "CRemove t"]
      split: prod.splits option.splits bool.splits)

definition plan_call :: "string \<Rightarrow> mount_plan \<Rightarrow> mount_call" where
  "plan_call t p =
     (if planFsType p = eitFsType then CMountEIT (planSource p) t (planFsType p) (planEncryption p)
      else CMount (planSource p) t (planFsType p) (planOptions p))"

lemma is_mount_plan [simp]: "is_mount (plan_call t p)"
  by (simp add: plan_call_def)

text \<open>Either the target directory cannot be made, or exactly the planned mount is requested.\<close>

lemma processMount_mounts:
  assumes "processMount (traced_mounter M) order rid (planSource p) t (planFsType p) (planEncryption p) (planOptions p) s = (r, s')"
  shows "r = Err (CSIError TargetPathCreateFailed) \<and> mounts_in s' = mounts_in s \<or>
    mounts_in s' = mounts_in s @ [plan_call t p]"
proof -
  obtain e s1 where mk: "mMakeDir (traced_mounter M) t s = (e, s1)" by (metis prod.exhaust)
  then have s1: "mounts_in s1 = mounts_in s" by (auto simp: record_call_eq)
  show ?thesis
  proof (cases e)
    case (Some x)
    then show ?thesis using assms mk s1 by (simp add: processMount_def)
  next
    case None
    let ?mount = "if planFsType p \<noteq> eitFsType then mMount (traced_mounter M) (planSource p) t (planFsType p) (planOptions p) s1
      else (case mMountEITBasedFileShare (traced_mounter M) (planSource p) t (planFsType p) (planEncryption p) rid s1 of
        ((_, err), s2) \<Rightarrow> (err, s2))"
    obtain err s2 where m: "?mount = (err, s2)" by (metis prod.exhaust)
    then have s2: "mounts_in s2 = mounts_in s @ [plan_call t p]"
      using s1 by (auto simp: record_call_eq plan_call_def split: if_splits prod.splits)
    show ?thesis
      using assms mk None m s2 mount_failed_mounts[of M order t "planFsType p" _ s2 r s']
      by (auto simp: processMount_def split: option.splits)
  qed
qed

section \<open>The plan\<close>

text \<open>The three ways to reach a share, by the labels of its volume context.\<close>

lemma plan_mount_cases:
  assumes "plan_mount os rid source ctx flags st = (Ok p, st')"
  obtains
    (tunnel) nfs sm sm' w' port where "map_get ctx ProfileLabel = RFSProfile" "map_get ctx IsEITEnabled = TrueStr"
      "splitNFSSource source = Inr nfs" "nsMgr st = Some sm"
      "EnsureTunnel os (map_get ctx FileShareIDLabel) (Server nfs) rid (sm, nsWorld st) = (Inr port, sm', w')"
      "st' = st\<lparr>nsMgr := Some sm', nsWorld := w'\<rparr>"
      "p = \<lparr>planSource = ''127.0.0.1:'' @ ExportPath nfs, planFsType = nfs4FsType, planEncryption = '''',
            planOptions = flags @ [''port='' @ Itoa port]\<rparr>"
  | (ipsec) "map_get ctx ProfileLabel = DP2Profile" "map_get ctx IsEITEnabled = TrueStr" "st' = st"
      "p = \<lparr>planSource = source, planFsType = eitFsType, planEncryption = IPSEC, planOptions = flags\<rparr>"
  | (plain) "map_get ctx IsEITEnabled \<noteq> TrueStr \<or> map_get ctx ProfileLabel \<notin> {RFSProfile, DP2Profile}" "st' = st"
      "p = \<lparr>planSource = source, planFsType = defaultFsType, planEncryption = '''', planOptions = flags\<rparr>"
  using assms that unfolding plan_mount_def plan_tunnel_def Let_def
  by (auto split: if_splits option.splits sum.splits prod.splits)

lemma plan_mount_mounts: "plan_mount os rid src ctx flags st = (res, st') \<Longrightarrow> nsMounts st' = nsMounts st"
  by (auto simp: plan_mount_def plan_tunnel_def Let_def split: if_splits option.splits sum.splits prod.splits)

lemma plan_mount_no_panic: "fst (plan_mount os rid src ctx flags st) \<noteq> Panic"
  by (auto simp: plan_mount_def plan_tunnel_def Let_def split: option.splits sum.splits prod.splits)

section \<open>Publishing\<close>

text \<open>The ways \<open>NodePublishVolume\<close> ends.\<close>

text \<open>A publish call that passes its first checks, after the look at the target.\<close>

definition publish_target ::
  "'m mounter \<Rightarrow> (string \<times> csi_code) list \<Rightarrow> ensure_os \<Rightarrow> string \<Rightarrow> publish_request \<Rightarrow> volume_capability \<Rightarrow> 'm node_state
    \<Rightarrow> (csi_error, unit) outcome \<times> 'm node_state" where
  "publish_target M order os rid req cap st =
     (case capType cap of
        MountType options \<Rightarrow>
          (case plan_mount os rid (map_get (pubContext req) NFSServerPath) (pubContext req) options st of
             (Ok p, st2) \<Rightarrow>
               (case processMount M order rid (planSource p) (pubTarget req) (planFsType p) (planEncryption p) (planOptions p) (nsMounts st2) of
                  (r, m2) \<Rightarrow> (r, st2\<lparr>nsMounts := m2\<rparr>))
           | (Err e, st2) \<Rightarrow> (Err e, st2)
           | (Panic, st2) \<Rightarrow> (Panic, st2))
      | _ \<Rightarrow> (Panic, st))"

lemma NodePublishVolume_checked:
  assumes "NodePublishVolume M order modes os rid req st = (r, st')"
  obtains (refused) e where "r = Err (CSIError e)" "st' = st"
  | (checked) cap nm err m1 where "pubCap req = Some cap" "mIsLikelyNotMountPoint M (pubTarget req) (nsMounts st) = ((nm, err), m1)"
      "(if (case err of Some (OsError _) \<Rightarrow> True | _ \<Rightarrow> False) then (Err (CSIError MountPointValidateError), st\<lparr>nsMounts := m1\<rparr>)
        else if \<not> nm then (Ok (), st\<lparr>nsMounts := m1\<rparr>) else publish_target M order os rid req cap (st\<lparr>nsMounts := m1\<rparr>)) = (r, st')"
proof -
  consider e where "r = Err (CSIError e)" "st' = st"
    | cap where "length (pubVolumeID req) \<noteq> 0" "length (map_get (pubContext req) NFSServerPath) \<noteq> 0" "length (pubTarget req) \<noteq> 0"
        "pubCap req = Some cap" "areVolumeCapabilitiesSupported [cap] modes"
    using assms unfolding NodePublishVolume_def Let_def by (cases "pubCap req") (fastforce split: if_splits)+
  then show thesis
  proof cases
    case 1
    then show thesis by (rule refused)
  next
    case (2 cap)
    obtain nm err m1 where chk: "mIsLikelyNotMountPoint M (pubTarget req) (nsMounts st) = ((nm, err), m1)" by (metis prod.exhaust)
    have "NodePublishVolume M order modes os rid req st =
        (if (case err of Some (OsError _) \<Rightarrow> True | _ \<Rightarrow> False) then (Err (CSIError MountPointValidateError), st\<lparr>nsMounts := m1\<rparr>)
         else if \<not> nm then (Ok (), st\<lparr>nsMounts := m1\<rparr>) else publish_target M order os rid req cap (st\<lparr>nsMounts := m1\<rparr>))"
      using 2 chk by (simp add: NodePublishVolume_def publish_target_def Let_def)
    then show thesis using checked[OF 2(4) chk] assms by argo
  qed
qed

lemma publish_target_cases:
  assumes "publish_target M order os rid req cap st = (r, st')"
  obtains (notmount) "\<And>flags. capType cap \<noteq> MountType flags" "r = Panic" "st' = st"
  | (unplanned) flags e where "capType cap = MountType flags" "r = Err e"
      "plan_mount os rid (map_get (pubContext req) NFSServerPath) (pubContext req) flags st = (Err e, st')"
  | (mount) flags p st2 m2 where "capType cap = MountType flags"
      "plan_mount os rid (map_get (pubContext req) NFSServerPath) (pubContext req) flags st = (Ok p, st2)"
      "processMount M order rid (planSource p) (pubTarget req) (planFsType p) (planEncryption p) (planOptions p) (nsMounts st2) = (r, m2)"
      "st' = st2\<lparr>nsMounts := m2\<rparr>"
proof (cases "capType cap")
  case (MountType flags)
  obtain q st2 where pl: "plan_mount os rid (map_get (pubContext req) NFSServerPath) (pubContext req) flags st = (q, st2)" by (metis prod.exhaust)
  then have "q \<noteq> Panic" using plan_mount_no_panic by (metis fst_conv)
  then show thesis using assms MountType pl unplanned mount by (cases q) (auto simp: publish_target_def split: prod.splits)
qed (use assms notmount in \<open>auto simp: publish_target_def\<close>)

lemma NodePublishVolume_cases:
  assumes "NodePublishVolume M order modes os rid req st = (r, st')"
  obtains
    (refused) e where "r = Err (CSIError e)" "st' = st"
  | (check_failed) nm e m1 where "mIsLikelyNotMountPoint M (pubTarget req) (nsMounts st) = ((nm, Some (OsError e)), m1)"
      "r = Err (CSIError MountPointValidateError)" "st' = st\<lparr>nsMounts := m1\<rparr>"
  | (present) err m1 where "mIsLikelyNotMountPoint M (pubTarget req) (nsMounts st) = ((False, err), m1)"
      "r = Ok ()" "st' = st\<lparr>nsMounts := m1\<rparr>"
  | (notmount) cap err m1 where "mIsLikelyNotMountPoint M (pubTarget req) (nsMounts st) = ((True, err), m1)"
      "pubCap req = Some cap" "\<And>flags. capType cap \<noteq> MountType flags" "r = Panic" "st' = st\<lparr>nsMounts := m1\<rparr>"
  | (unplanned) cap err m1 flags e where "mIsLikelyNotMountPoint M (pubTarget req) (nsMounts st) = ((True, err), m1)"
      "pubCap req = Some cap" "capType cap = MountType flags" "r = Err e"
      "plan_mount os rid (map_get (pubContext req) NFSServerPath) (pubContext req) flags (st\<lparr>nsMounts := m1\<rparr>) = (Err e, st')"
  | (mount) cap err m1 flags p st2 m2 where "mIsLikelyNotMountPoint M (pubTarget req) (nsMounts st) = ((True, err), m1)"
      "pubCap req = Some cap" "capType cap = MountType flags"
      "plan_mount os rid (map_get (pubContext req) NFSServerPath) (pubContext req) flags (st\<lparr>nsMounts := m1\<rparr>) = (Ok p, st2)"
      "processMount M order rid (planSource p) (pubTarget req) (planFsType p) (planEncryption p) (planOptions p) (nsMounts st2) = (r, m2)"
      "st' = st2\<lparr>nsMounts := m2\<rparr>"
proof (rule NodePublishVolume_checked[OF assms])
  show thesis if "r = Err (CSIError e)" "st' = st" for e using that by (rule refused)
next
  fix cap nm err m1
  assume cap: "pubCap req = Some cap" and chk: "mIsLikelyNotMountPoint M (pubTarget req) (nsMounts st) = ((nm, err), m1)"
    and run: "(if (case err of Some (OsError _) \<Rightarrow> True | _ \<Rightarrow> False) then (Err (CSIError MountPointValidateError), st\<lparr>nsMounts := m1\<rparr>)
        else if \<not> nm then (Ok (), st\<lparr>nsMounts := m1\<rparr>) else publish_target M order os rid req cap (st\<lparr>nsMounts := m1\<rparr>)) = (r, st')"
  show thesis
  proof (cases "case err of Some (OsError _) \<Rightarrow> True | _ \<Rightarrow> False")
    case True
    then obtain e where "err = Some (OsError e)" by (auto split: option.splits os_error.splits)
    then show thesis using chk run check_failed by auto
  next
    case False
    show thesis
    proof (cases nm)
      case nm: True
      then have "publish_target M order os rid req cap (st\<lparr>nsMounts := m1\<rparr>) = (r, st')" using run False by simp
      then show thesis
      proof (cases rule: publish_target_cases)
        case notmount': notmount
        then show thesis using notmount[OF _ cap] chk nm by simp
      next
        case (unplanned flags e)
        then show thesis using that(5)[OF _ cap] chk nm by simp
      next
        case (mount flags p st2 m2)
        then show thesis using that(6)[OF _ cap] chk nm by simp
      qed
    qed (use chk run False present in auto)
  qed
qed

text \<open>A mounter that keeps a table of source, target, file system and options, and never fails.\<close>

type_synonym mount_entry = "string \<times> string \<times> string \<times> string list"

definition table_mounter :: "mount_entry list mounter" where
  "table_mounter =
     \<lparr>mIsLikelyNotMountPoint = (\<lambda>t tbl. ((\<not> list_ex (\<lambda>e. fst (snd e) = t) tbl, None), tbl)),
      mMakeDir = (\<lambda>t tbl. (None, tbl)),
      mMount = (\<lambda>src t fs opts tbl. (None, tbl @ [(src, t, fs, opts)])),
      mMountEITBasedFileShare = (\<lambda>src t fs enc r tbl. (('''', None), tbl @ [(src, t, fs, [enc])])),
      mUnmount = (\<lambda>t tbl. (None, filter (\<lambda>e. fst (snd e) \<noteq> t) tbl)),
      mCleanupMountPoint = (\<lambda>t tbl. (None, filter (\<lambda>e. fst (snd e) \<noteq> t) tbl)),
      mRemove = (\<lambda>t tbl. (None, tbl))\<rparr>"

definition demo_context :: "string \<Rightarrow> string \<Rightarrow> (string, string) fmap" where
  "demo_context profile eit =
     fmap_of_list [(NFSServerPath, ''10.240.0.5:/share''), (ProfileLabel, profile), (FileShareIDLabel, ''v1''), (IsEITEnabled, eit)]"

definition demo_publish :: "string \<Rightarrow> string \<Rightarrow> publish_request" where
  "demo_publish profile eit =
     \<lparr>pubVolumeID = ''v1#a1'', pubContext = demo_context profile eit, pubTarget = ''/pod1'',
      pubCap = Some \<lparr>capMode = Some MULTI_NODE_MULTI_WRITER, capType = MountType [''vers=4.1'']\<rparr>\<rparr>"

definition demo_node :: "'m \<Rightarrow> 'm node_state" where
  "demo_node m = \<lparr>nsMounts = m, nsMgr = Some demo_sm, nsWorld = demo_world\<rparr>"

lemma demo_context_get [simp]:
  "map_get (demo_context profile eit) NFSServerPath = ''10.240.0.5:/share''"
  "map_get (demo_context profile eit) ProfileLabel = profile"
  "map_get (demo_context profile eit) FileShareIDLabel = ''v1''"
  "map_get (demo_context profile eit) IsEITEnabled = eit"
  by (simp_all add: demo_context_def map_get_def NFSServerPath_def ProfileLabel_def FileShareIDLabel_def IsEITEnabled_def)

lemma demo_source: "splitNFSSource ''10.240.0.5:/share'' = Inr \<lparr>Server = ''10.240.0.5'', ExportPath = ''/share''\<rparr>"
  by code_simp

lemma demo_cap_ok: "areVolumeCapabilitiesSupported [\<lparr>capMode = Some MULTI_NODE_MULTI_WRITER, capType = t\<rparr>] [MULTI_NODE_MULTI_WRITER]"
  by (simp add: areVolumeCapabilitiesSupported_def GetMode_def)

lemma EnsureTunnel_holds:
  assumes "EnsureTunnel os v srv r (sm, w) = (Inr p, sm', w')"
  shows "v \<noteq> ''''" "fmlookup (allocatedPorts sm') v = Some p" "GetTunnelPort sm' v = (p, True)"
proof -
  show v: "v \<noteq> ''''" using assms by (cases rule: EnsureTunnel_cases) auto
  show "fmlookup (allocatedPorts sm') v = Some p"
    using assms by (cases rule: EnsureTunnel_cases) (auto simp: same_maps_def restore_port_def)
  then show "GetTunnelPort sm' v = (p, True)" using v by (simp add: GetTunnelPort_def)
qed

text \<open>The mount that the labels of a volume context call for.\<close>

definition call_for :: "publish_request \<Rightarrow> stunnel_manager option \<Rightarrow> string list \<Rightarrow> mount_call \<Rightarrow> bool" where
  "call_for req mgr flags c \<longleftrightarrow>
     (if map_get (pubContext req) IsEITEnabled = TrueStr \<and> map_get (pubContext req) ProfileLabel = RFSProfile
      then \<exists>nfs sm port. splitNFSSource (map_get (pubContext req) NFSServerPath) = Inr nfs \<and> mgr = Some sm \<and>
             GetTunnelPort sm (map_get (pubContext req) FileShareIDLabel) = (port, True) \<and>
             c = CMount (''127.0.0.1:'' @ ExportPath nfs) (pubTarget req) ''nfs4'' (flags @ [''port='' @ Itoa port])
      else if map_get (pubContext req) IsEITEnabled = TrueStr \<and> map_get (pubContext req) ProfileLabel = DP2Profile
      then c = CMountEIT (map_get (pubContext req) NFSServerPath) (pubTarget req) ''ibmshare'' ''ipsec''
      else c = CMount (map_get (pubContext req) NFSServerPath) (pubTarget req) ''nfs'' flags)"

lemma publish_calls:
  assumes "NodePublishVolume (traced_mounter M) order modes os rid req st = (r, st')"
  shows "mounts_in (nsMounts st') = mounts_in (nsMounts st) \<or>
    (\<exists>cap flags c. pubCap req = Some cap \<and> capType cap = MountType flags \<and>
       mounts_in (nsMounts st') = mounts_in (nsMounts st) @ [c] \<and> call_for req (nsMgr st') flags c)"
  using assms
proof (cases rule: NodePublishVolume_cases)
  case (unplanned cap err m1 flags e)
  have "nsMounts st' = m1" using plan_mount_mounts[OF unplanned(5)] by simp
  then show ?thesis using unplanned(1) by (auto simp: record_call_eq)
next
  case (mount cap err m1 flags p st2 m2)
  have chk: "mounts_in m1 = mounts_in (nsMounts st)" using mount(1) by (auto simp: record_call_eq)
  have "nsMounts st2 = m1" using plan_mount_mounts[OF mount(4)] by simp
  then have "mounts_in m2 = mounts_in (nsMounts st) \<or> mounts_in m2 = mounts_in (nsMounts st) @ [plan_call (pubTarget req) p]"
    using processMount_mounts[OF mount(5)] chk by auto
  then show ?thesis
  proof
    assume m2: "mounts_in m2 = mounts_in (nsMounts st) @ [plan_call (pubTarget req) p]"
    from mount(4) show ?thesis
    proof (cases rule: plan_mount_cases)
      case (tunnel nfs sm sm' w' port)
      then show ?thesis
        using m2 mount(2,3,6) EnsureTunnel_holds(3)[OF tunnel(5)]
        by (auto simp: call_for_def plan_call_def nfs4FsType_def eitFsType_def)
    qed (use m2 mount(2,3,6) in \<open>auto simp: call_for_def plan_call_def eitFsType_def defaultFsType_def IPSEC_def RFSProfile_def DP2Profile_def\<close>)
  qed (use mount(6) in simp)
qed (auto simp: record_call_eq)

text \<open>C3: one NodePublishVolume call requests at most one mount, on the target path of the request, and how depends on
  the labels of the volume alone. A share of the rfs profile with encryption in transit is mounted as nfs4 from
  127.0.0.1 through the port that the stunnel manager holds for the share, a dp2 share with encryption in transit
  through the mount helper with IPsec: neither is ever mounted in the clear, whatever fails. Every other volume is
  mounted as plain nfs from its server.\<close>

theorem NodePublishVolume_mounts:
  assumes "NodePublishVolume (traced_mounter M) order modes os rid req st = (r, st')"
  shows "mounts_in (nsMounts st') = mounts_in (nsMounts st) \<or>
    (\<exists>cap flags c. pubCap req = Some cap \<and> capType cap = MountType flags \<and>
       mounts_in (nsMounts st') = mounts_in (nsMounts st) @ [c] \<and>
       (if map_get (pubContext req) IsEITEnabled = TrueStr \<and> map_get (pubContext req) ProfileLabel = RFSProfile
        then \<exists>nfs sm port. splitNFSSource (map_get (pubContext req) NFSServerPath) = Inr nfs \<and> nsMgr st' = Some sm \<and>
               GetTunnelPort sm (map_get (pubContext req) FileShareIDLabel) = (port, True) \<and>
               c = CMount (''127.0.0.1:'' @ ExportPath nfs) (pubTarget req) ''nfs4'' (flags @ [''port='' @ Itoa port])
        else if map_get (pubContext req) IsEITEnabled = TrueStr \<and> map_get (pubContext req) ProfileLabel = DP2Profile
        then c = CMountEIT (map_get (pubContext req) NFSServerPath) (pubTarget req) ''ibmshare'' ''ipsec''
        else c = CMount (map_get (pubContext req) NFSServerPath) (pubTarget req) ''nfs'' flags))"
  using publish_calls[OF assms] by (simp add: call_for_def)

lemmas demo_publish_simps = demo_publish_def demo_node_def NodePublishVolume_def demo_cap_ok table_mounter_def
  record_call_def plan_mount_def plan_tunnel_def processMount_def

lemma demo_rfs_published:
  "\<exists>st'. NodePublishVolume (traced_mounter table_mounter) mount_errors [MULTI_NODE_MULTI_WRITER] demo_os ''r''
      (demo_publish ''rfs'' ''true'') (demo_node ([], [])) = (Ok (), st') \<and> mounts_in (nsMounts st') \<noteq> []"
proof -
  obtain sm w where e: "EnsureTunnel demo_os ''v1'' ''10.240.0.5'' ''r'' (demo_sm, demo_world) = (Inr 11300, sm, w)"
    by (rule demo_ensure_of[of "''v1''" "''10.240.0.5''"]) simp_all
  show ?thesis
    by (simp add: demo_publish_simps e demo_source Let_def RFSProfile_def TrueStr_def nfs4FsType_def eitFsType_def)
qed

theorem NodePublishVolume_mounts_witness:
  "\<exists>st' sm port. NodePublishVolume (traced_mounter table_mounter) mount_errors [MULTI_NODE_MULTI_WRITER] demo_os ''r''
      (demo_publish ''rfs'' ''true'') (demo_node ([], [])) = (Ok (), st') \<and>
    nsMgr st' = Some sm \<and> GetTunnelPort sm ''v1'' = (port, True) \<and>
    mounts_in (nsMounts st') = [CMount ''127.0.0.1:/share'' ''/pod1'' ''nfs4'' [''vers=4.1'', ''port='' @ Itoa port]]"
proof -
  obtain st' where r: "NodePublishVolume (traced_mounter table_mounter) mount_errors [MULTI_NODE_MULTI_WRITER] demo_os ''r''
      (demo_publish ''rfs'' ''true'') (demo_node ([], [])) = (Ok (), st')" "mounts_in (nsMounts st') \<noteq> []"
    using demo_rfs_published by blast
  from NodePublishVolume_mounts[OF r(1)] r show ?thesis
    by (auto simp: demo_publish_def demo_node_def demo_source TrueStr_def RFSProfile_def)
qed

text \<open>NodePublishVolume dereferences nil exactly when every check of the request passes, the target is not mounted,
  and the volume capability is not of the mount kind (a block capability, or none): the access type is never checked.\<close>

lemma NodePublishVolume_panic:
  "fst (NodePublishVolume M order modes os rid req st) = Panic \<longleftrightarrow>
     pubVolumeID req \<noteq> '''' \<and> map_get (pubContext req) NFSServerPath \<noteq> '''' \<and> pubTarget req \<noteq> '''' \<and>
     (\<exists>cap. pubCap req = Some cap \<and> GetMode cap \<in> set modes \<and> capType cap \<in> {BlockType, NoAccessType}) \<and>
     (\<exists>err m1. mIsLikelyNotMountPoint M (pubTarget req) (nsMounts st) = ((True, err), m1) \<and> (\<nexists>e. err = Some (OsError e)))"
proof (cases "pubVolumeID req = '''' \<or> map_get (pubContext req) NFSServerPath = '''' \<or> pubTarget req = '''' \<or> pubCap req = None")
  case True
  then show ?thesis by (auto simp: NodePublishVolume_def Let_def)
next
  case False
  then obtain cap where cap: "pubCap req = Some cap" by auto
  have supported: "areVolumeCapabilitiesSupported [cap] modes \<longleftrightarrow> GetMode cap \<in> set modes"
    by (simp add: areVolumeCapabilitiesSupported_def list_ex_iff)
  obtain nm err m1 where chk: "mIsLikelyNotMountPoint M (pubTarget req) (nsMounts st) = ((nm, err), m1)"
    by (metis prod.exhaust)
  have mount: "fst (case plan_mount os rid src ctx flags s of
        (Ok p, st2) \<Rightarrow>
          (case processMount M order rid (planSource p) t (planFsType p) (planEncryption p) (planOptions p) (nsMounts st2) of
             (r, m2) \<Rightarrow> (r, st2\<lparr>nsMounts := m2\<rparr>))
      | (Err e, st2) \<Rightarrow> (Err e, st2)
      | (Panic, st2) \<Rightarrow> (Panic, st2)) \<noteq> Panic" for src ctx flags t and s :: "'a node_state"
    using plan_mount_no_panic[of os rid src ctx flags s] processMount_no_panic[of M order rid]
    by (simp split: prod.splits outcome.splits) (metis fst_conv)
  show ?thesis
    using False cap chk supported mount
    by (cases "capType cap") (auto simp: NodePublishVolume_def Let_def split: option.splits os_error.splits)
qed

section \<open>After a failed mount\<close>

text \<open>C32: when the mount request of a NodePublishVolume fails, the target is not left mounted unnoticed: the call reports
  that the mount point could not be validated or unmounted, or the last check said that nothing is mounted on the
  target and the target directory was removed after that check, as the last action.\<close>

theorem failed_mount_cleaned:
  assumes "NodePublishVolume (traced_mounter M) order modes os rid req st = (Err e, st')"
    "mounts_in (nsMounts st') \<noteq> mounts_in (nsMounts st)"
  shows "e \<in> {CSIError MountPointValidateError, CSIError UnmountFailed} \<or>
    (\<exists>calls s s1 x s2. nsMounts st' = (calls @ [CCheck (pubTarget req), CRemove (pubTarget req)], s2) \<and>
       mIsLikelyNotMountPoint M (pubTarget req) s = ((True, None), s1) \<and> mRemove M (pubTarget req) s1 = (x, s2))"
  using assms(1)
proof (cases rule: NodePublishVolume_cases)
  case (unplanned cap err m1 flags e')
  have "nsMounts st' = m1" using plan_mount_mounts[OF unplanned(5)] by simp
  then show ?thesis using unplanned(1) assms(2) by (auto simp: record_call_eq)
next
  case (mount cap err m1 flags p st2 m2)
  have chk: "mounts_in m1 = mounts_in (nsMounts st)" using mount(1) by (auto simp: record_call_eq)
  have "nsMounts st2 = m1" using plan_mount_mounts[OF mount(4)] by simp
  then have "e \<noteq> CSIError TargetPathCreateFailed \<or> mounts_in m2 \<noteq> mounts_in m1"
    using assms(2) chk mount(6) by simp
  then obtain er s3 where f: "mount_failed (traced_mounter M) order (pubTarget req) (planFsType p) er s3 = (Err e, m2)"
    using mount(5) \<open>nsMounts st2 = m1\<close> assms(2) mount(6) chk
    by (auto simp: processMount_def record_call_eq split: prod.splits option.splits)
  then show ?thesis
    by (cases rule: mount_failed_cases) (use mount(6) in \<open>auto simp: record_call_eq\<close>)
qed (use assms(2) in \<open>auto simp: record_call_eq\<close>)

definition failing_mounter :: "mount_entry list mounter" where
  "failing_mounter = table_mounter\<lparr>mMount := (\<lambda>src t fs opts tbl. (Some (OsError ''exit status 32''), tbl))\<rparr>"

theorem failed_mount_cleaned_witness:
  "\<exists>st' calls. NodePublishVolume (traced_mounter failing_mounter) mount_errors [MULTI_NODE_MULTI_WRITER] demo_os ''r''
      (demo_publish ''dp2'' '''') (demo_node ([], [])) = (Err (CSIError MountingTargetFailed), st') \<and>
    fst (nsMounts st') = calls @ [CCheck ''/pod1'', CRemove ''/pod1'']"
proof -
  obtain st' where r: "NodePublishVolume (traced_mounter failing_mounter) mount_errors [MULTI_NODE_MULTI_WRITER] demo_os ''r''
      (demo_publish ''dp2'' '''') (demo_node ([], [])) = (Err (CSIError MountingTargetFailed), st')"
    and m: "mounts_in (nsMounts st') \<noteq> mounts_in (nsMounts (demo_node ([], []) :: (mount_call list \<times> mount_entry list) node_state))"
    by (simp add: demo_publish_simps failing_mounter_def mount_failed_def Let_def RFSProfile_def DP2Profile_def TrueStr_def
        eitFsType_def defaultFsType_def)
  from failed_mount_cleaned[OF r m] r show ?thesis by (auto simp: demo_publish_def)
qed

text \<open>An encryption flag with a profile label that is neither rfs nor dp2 (or is missing) is not refused: the volume
  is published successfully and mounted as plain nfs.\<close>

lemma unknown_profile_in_clear:
  "\<exists>st'. NodePublishVolume (traced_mounter table_mounter) mount_errors [MULTI_NODE_MULTI_WRITER] demo_os ''r''
      (demo_publish '''' ''true'') (demo_node ([], [])) = (Ok (), st') \<and>
    mounts_in (nsMounts st') = [CMount ''10.240.0.5:/share'' ''/pod1'' ''nfs'' [''vers=4.1'']]"
  by (simp add: demo_publish_simps Let_def RFSProfile_def DP2Profile_def TrueStr_def eitFsType_def defaultFsType_def)

section \<open>Unpublishing\<close>

lemma getTokens_share: "CHR ''#'' \<notin> set v \<Longrightarrow> \<exists>ts. getTokens (v @ ''#'' @ a) = v # ts"
  using Contains_append[of v "''#''" a] by (simp add: getTokens_def VolumeIDSeperator_def Split_append)

text \<open>The unmount comes first; the tunnel is looked at only after it succeeded.\<close>

lemma NodeUnpublishVolume_eq:
  assumes "CHR ''#'' \<notin> set v" "t \<noteq> ''''" "nsMgr st = Some sm"
  shows "NodeUnpublishVolume M os rid (v @ ''#'' @ a) t st =
    (case mCleanupMountPoint M t (nsMounts st) of
       (Some e, m1) \<Rightarrow> (Err (CSIError UnmountFailed), st\<lparr>nsMounts := m1\<rparr>)
     | (None, m1) \<Rightarrow>
         (case RemoveTunnel os v rid (sm, nsWorld st) of
            (res, sm', w') \<Rightarrow> (case res of Inl e \<Rightarrow> Err (CSIError InternalError) | Inr _ \<Rightarrow> Ok (),
                              st\<lparr>nsMounts := m1, nsMgr := Some sm', nsWorld := w'\<rparr>)))"
proof -
  obtain ts where "getTokens (v @ ''#'' @ a) = v # ts" using getTokens_share assms(1) by blast
  then show ?thesis using assms(2,3) by (auto simp: NodeUnpublishVolume_def Let_def split: prod.splits option.splits)
qed

text \<open>C18: NodeUnpublishVolume of the volume with share \<open>v\<close>. If the unmount fails the tunnel is not touched. After a
  successful unmount the call reports success only if the share's tunnel is gone, with its service file, or is still
  used by another mount, and then nothing changed; if the tunnel could not be removed the call fails and ports and
  files are as before. The ports of other shares never change.\<close>

theorem NodeUnpublishVolume_spec:
  assumes "CHR ''#'' \<notin> set v" "v \<noteq> ''''" "t \<noteq> ''''" "nsMgr st = Some sm" "port_inv sm"
    "NodeUnpublishVolume M os rid (v @ ''#'' @ a) t st = (r, st')" "mCleanupMountPoint M t (nsMounts st) = (err, m1)"
  shows "nsMounts st' = m1 \<and>
    (if err \<noteq> None then r = Err (CSIError UnmountFailed) \<and> nsMgr st' = Some sm \<and> nsWorld st' = nsWorld st
     else \<exists>sm'. nsMgr st' = Some sm' \<and>
       (\<forall>u. u \<noteq> v \<longrightarrow> fmlookup (allocatedPorts sm') u = fmlookup (allocatedPorts sm) u) \<and>
       (r = Ok () \<and> (case fmlookup (allocatedPorts sm) v of
            None \<Rightarrow> st' = st\<lparr>nsMounts := m1\<rparr>
          | Some p \<Rightarrow> if isTunnelPortInUse (procMounts os) p then st' = st\<lparr>nsMounts := m1\<rparr>
                      else fmlookup (allocatedPorts sm') v = None \<and>
                           fmlookup (files (nsWorld st')) (config_path sm v) = None) \<or>
        r = Err (CSIError InternalError) \<and> allocatedPorts sm' = allocatedPorts sm \<and>
          files (nsWorld st') = files (nsWorld st)))"
proof -
  note call = assms(6)[unfolded NodeUnpublishVolume_eq[OF assms(1,3,4)]]
  show ?thesis
  proof (cases err)
    case (Some e)
    then show ?thesis using call assms(4,7) by auto
  next
    case None
    obtain res sm' w' where rt: "RemoveTunnel os v rid (sm, nsWorld st) = (res, sm', w')" by (metis prod.exhaust)
    have r: "r = (case res of Inl e \<Rightarrow> Err (CSIError InternalError) | Inr _ \<Rightarrow> Ok ())"
      and st': "st' = st\<lparr>nsMounts := m1, nsMgr := Some sm', nsWorld := w'\<rparr>"
      using call assms(7) None rt by auto
    have other: "\<forall>u. u \<noteq> v \<longrightarrow> fmlookup (allocatedPorts sm') u = fmlookup (allocatedPorts sm) u"
      using RemoveTunnel_other[OF assms(5) rt] by blast
    have same: "st\<lparr>nsMounts := m1, nsMgr := Some sm, nsWorld := nsWorld st\<rparr> = st\<lparr>nsMounts := m1\<rparr>"
      using assms(4) by (cases st) simp
    show ?thesis
      by (rule RemoveTunnel_cases[OF rt assms(5)]) (use assms(2,4) None other same in
        \<open>auto simp: r st' same_maps_def forget_port_def split: option.splits\<close>)
  qed
qed

theorem NodeUnpublishVolume_spec_witness:
  "\<exists>r st' sm'. NodeUnpublishVolume table_mounter demo_rm ''r'' ''v1#a1'' ''/pod1''
      \<lparr>nsMounts = [], nsMgr = Some demo_one, nsWorld = demo_world\<rparr> = (r, st') \<and> nsMgr st' = Some sm' \<and>
    (r = Ok () \<longrightarrow> fmlookup (allocatedPorts sm') ''v1'' = None)"
proof -
  let ?st = "\<lparr>nsMounts = [] :: mount_entry list, nsMgr = Some demo_one, nsWorld = demo_world\<rparr>"
  obtain r st' where c: "NodeUnpublishVolume table_mounter demo_rm ''r'' (''v1'' @ ''#'' @ ''a1'') ''/pod1'' ?st = (r, st')"
    by (metis prod.exhaust)
  have "fmlookup (allocatedPorts demo_one) ''v1'' = Some 11300" by (simp add: demo_one_def restore_port_def)
  moreover have "\<not> isTunnelPortInUse (procMounts demo_rm) 11300" by (simp add: demo_rm_def not_in_use_empty)
  moreover have "mCleanupMountPoint table_mounter ''/pod1'' (nsMounts ?st) = (None, [])" by (simp add: table_mounter_def)
  ultimately show ?thesis
    using NodeUnpublishVolume_spec[OF _ _ _ _ demo_one_inv c, of None "[]"] c by auto
qed

text \<open>A failed unpublish leaves the manager and the service files as they were.\<close>

lemma unpublish_failed_keeps:
  assumes "CHR ''#'' \<notin> set v" "t \<noteq> ''''" "nsMgr st = Some sm" "port_inv sm"
    "NodeUnpublishVolume M os rid (v @ ''#'' @ a) t st = (Err e, st1)"
  obtains sm1 where "nsMgr st1 = Some sm1" "same_maps sm sm1" "same_setup sm sm1" "files (nsWorld st1) = files (nsWorld st)"
proof (cases "mCleanupMountPoint M t (nsMounts st)")
  case (Pair err m1)
  obtain res sm' w' where rt: "RemoveTunnel os v rid (sm, nsWorld st) = (res, sm', w')" by (metis prod.exhaust)
  note call = assms(5)[unfolded NodeUnpublishVolume_eq[OF assms(1-3)]]
  show thesis
  proof (cases err)
    case (Some x)
    then show thesis using call Pair assms(3) that[of sm] by auto
  next
    case None
    then obtain f where "res = Inl f" and st1: "nsMgr st1 = Some sm'" "nsWorld st1 = w'"
      using call Pair rt by (cases res) auto
    then have "same_maps sm sm' \<and> same_setup sm sm' \<and> files w' = files (nsWorld st)"
      using RemoveTunnel_cases[OF rt assms(4)] same_maps_simps(3) same_setup_simps(5) by (metis Inl_Inr_False)
    then show thesis using that st1 by auto
  qed
qed

text \<open>A removal of an allocated tunnel succeeds on a system that works.\<close>

lemma RemoveTunnel_works:
  assumes "v \<noteq> ''''" "fmlookup (allocatedPorts sm) v = Some p" "\<not> isTunnelPortInUse (procMounts os) p"
    "pgrep os = PgrepOutput out" "\<not> Contains (TrimSpace out) [newline]" "Atoi (TrimSpace out) = Some pid" "kill os pid = KillOk" "removeOk os"
  shows "\<exists>sm' w'. RemoveTunnel os v r (sm, w) = (Inr (), sm', w')"
proof -
  have reload: "reloadStunnel (pgrep os) (kill os) w = (Inr (), w\<lparr>sighups := sighups w @ [pid]\<rparr>)" for w
    using reload_one[of out pid "kill os" w] assms(4-7) by simp
  show ?thesis
    using assms(1-3,8) by (auto simp: RemoveTunnel_def handleLastTunnelCleanup_def reload remove_config_def remove_path_def Let_def)
qed

text \<open>C19: unpublishing can be retried. However a NodeUnpublishVolume call failed for a share with a tunnel (the unmount, or
  any step of the removal of the tunnel), the share still has its port and every service file is still there; and a
  later call for the same target on a system that works (the unmount succeeds, no mount uses the port, exactly one
  stunnel process is found and signalled, and the service file can be unlinked) reports success, takes exactly this
  share's port away, and unlinks exactly its service file.\<close>

theorem unpublish_retry_succeeds:
  assumes "CHR ''#'' \<notin> set v" "v \<noteq> ''''" "t \<noteq> ''''" "nsMgr st = Some sm" "port_inv sm" "fmlookup (allocatedPorts sm) v = Some p"
    and failed: "NodeUnpublishVolume M os rid (v @ ''#'' @ a) t st = (Err e, st1)"
    and works: "fst (mCleanupMountPoint M t (nsMounts st1)) = None"
      "\<not> isTunnelPortInUse (procMounts os') p" "pgrep os' = PgrepOutput out" "\<not> Contains (TrimSpace out) [newline]"
      "Atoi (TrimSpace out) = Some pid" "kill os' pid = KillOk" "removeOk os'"
  shows "(\<exists>sm1. nsMgr st1 = Some sm1 \<and> fmlookup (allocatedPorts sm1) v = Some p) \<and> files (nsWorld st1) = files (nsWorld st) \<and>
    (\<exists>st2 sm2. NodeUnpublishVolume M os' rid' (v @ ''#'' @ a) t st1 = (Ok (), st2) \<and> nsMgr st2 = Some sm2 \<and>
       allocatedPorts sm2 = fmdrop v (allocatedPorts sm) \<and> fmlookup (files (nsWorld st2)) (config_path sm v) = None \<and>
       (\<forall>q. q \<noteq> config_path sm v \<longrightarrow> fmlookup (files (nsWorld st2)) q = fmlookup (files (nsWorld st)) q))"
proof (rule unpublish_failed_keeps[OF assms(1,3,4,5) failed])
  fix sm1
  assume keep: "nsMgr st1 = Some sm1" "same_maps sm sm1" "same_setup sm sm1" "files (nsWorld st1) = files (nsWorld st)"
  then have held: "fmlookup (allocatedPorts sm1) v = Some p" and path: "config_path sm1 v = config_path sm v" and inv: "port_inv sm1"
    using assms(6) port_inv_transfer[OF assms(5)] by (auto simp: same_maps_def same_setup_def config_path_def)
  obtain sm2 w2 where rt: "RemoveTunnel os' v rid' (sm1, nsWorld st1) = (Inr (), sm2, w2)"
    using RemoveTunnel_works[OF assms(2) held works(2-7)] by blast
  have "allocatedPorts sm2 = fmdrop v (allocatedPorts sm) \<and> fmlookup (files w2) (config_path sm v) = None \<and>
      (\<forall>q. q \<noteq> config_path sm v \<longrightarrow> fmlookup (files w2) q = fmlookup (files (nsWorld st)) q)"
    by (rule RemoveTunnel_cases[OF rt inv]) (use held path keep(2,4) works(2) assms(2) in \<open>auto simp: same_maps_def forget_port_def\<close>)
  moreover have "\<exists>st2. NodeUnpublishVolume M os' rid' (v @ ''#'' @ a) t st1 = (Ok (), st2) \<and> nsMgr st2 = Some sm2 \<and> nsWorld st2 = w2"
    using works(1) rt by (cases "mCleanupMountPoint M t (nsMounts st1)") (simp add: NodeUnpublishVolume_eq[OF assms(1,3) keep(1), simplified])
  ultimately show ?thesis using keep(1,4) held by blast
qed

theorem unpublish_retry_succeeds_witness:
  "\<exists>st1 st2. let st = \<lparr>nsMounts = [], nsMgr = Some demo_one, nsWorld = demo_world\<lparr>files := fmupd (config_path demo_one ''v1'') (File ''c'') (files demo_world)\<rparr>\<rparr>
   in NodeUnpublishVolume table_mounter (demo_rm\<lparr>pgrep := PgrepError\<rparr>) ''r'' ''v1#a1'' ''/pod1'' st = (Err (CSIError InternalError), st1) \<and>
     fmlookup (files (nsWorld st1)) (config_path demo_one ''v1'') = Some (File ''c'') \<and>
     NodeUnpublishVolume table_mounter demo_rm ''r'' ''v1#a1'' ''/pod1'' st1 = (Ok (), st2) \<and>
     fmlookup (files (nsWorld st2)) (config_path demo_one ''v1'') = None"
proof -
  let ?st = "\<lparr>nsMounts = [] :: mount_entry list, nsMgr = Some demo_one,
    nsWorld = demo_world\<lparr>files := fmupd (config_path demo_one ''v1'') (File ''c'') (files demo_world)\<rparr>\<rparr>"
  have "\<exists>st1. NodeUnpublishVolume table_mounter (demo_rm\<lparr>pgrep := PgrepError\<rparr>) ''r'' (''v1'' @ ''#'' @ ''a1'') ''/pod1'' ?st =
      (Err (CSIError InternalError), st1) \<and> nsMounts st1 = []"
    using NodeUnpublishVolume_eq[of "''v1''" "''/pod1''" ?st demo_one table_mounter "demo_rm\<lparr>pgrep := PgrepError\<rparr>" "''r''" "''a1''"]
    by (simp add: table_mounter_def demo_one_def demo_rm_def restore_port_def RemoveTunnel_def handleLastTunnelCleanup_def
        reloadStunnel_def not_in_use_empty Let_def fcard_finsert_disjoint)
  then obtain st1 where f: "NodeUnpublishVolume table_mounter (demo_rm\<lparr>pgrep := PgrepError\<rparr>) ''r'' (''v1'' @ ''#'' @ ''a1'') ''/pod1'' ?st =
      (Err (CSIError InternalError), st1)" and m: "nsMounts st1 = []" by blast
  have t: "TrimSpace ''42'' = ''42''" by code_simp
  have "Atoi ''42'' = Some 42" by code_simp
  moreover have "fmlookup (allocatedPorts demo_one) ''v1'' = Some 11300" by (simp add: demo_one_def restore_port_def)
  ultimately show ?thesis
    using unpublish_retry_succeeds[OF _ _ _ _ demo_one_inv _ f, of 11300 demo_rm "''42''" 42 "''r''"] f m
    by (auto simp: demo_rm_def table_mounter_def t not_in_use_empty newline_def Let_def)
qed

section \<open>Errors and information\<close>

text \<open>
  \<open>checkMountResponse\<close> ranges over a Go map: the order of its two entries matters only for a text that matches both.
\<close>

lemma checkMountResponse_order:
  assumes "mset order = mset mount_errors"
    "\<not> (contains_word (error_text err) ''exit status 1'' \<and> contains_word (error_text err) ''connect: no such file'')"
  shows "checkMountResponse order err = checkMountResponse mount_errors err"
proof -
  have "length order = 2" using mset_eq_length[OF assms(1)] by (simp add: mount_errors_def)
  then obtain a b where "order = [a, b]" by (auto simp: numeral_2_eq_2 length_Suc_conv)
  then have "order = [a, b]" "{#a, b#} = mset mount_errors" using assms(1) by simp_all
  then have "order = mount_errors \<or> order = rev mount_errors"
    by (auto simp: mount_errors_def add_eq_conv_ex)
  then show ?thesis using assms(2) by (auto simp: checkMountResponse_def mount_errors_def)
qed

text \<open>Once the node knows its metadata, it answers the same however the metadata service behaves later.\<close>

lemma NodeGetInfo_stable:
  "NodeGetInfo U svc env md = (Ok i, md') \<Longrightarrow> NodeGetInfo U svc' env' md' = (Ok i, md')"
  by (auto simp: NodeGetInfo_def split: option.splits if_splits)

text \<open>Usage is reported only for a path that exists: available, total and used bytes, then inodes.\<close>

lemma NodeGetVolumeStats_ok:
  "NodeGetVolumeStats stat info req = Ok us \<longleftrightarrow>
     (\<exists>v p i. req = Some (v, p) \<and> v \<noteq> '''' \<and> p \<noteq> '''' \<and> \<not> IsDevicePathNotExist stat p \<and> info p = Inr i \<and>
        map vuTotal us = [fiCapacity i, fiInodes i] \<and> map vuUsed us = [fiUsage i, fiInodesUsed i] \<and>
        map vuAvailable us = [fiAvailable i, fiInodesFree i] \<and> map vuUnit us = [BYTES, INODES])"
proof -
  have two: "us = [\<lparr>vuAvailable = a1, vuTotal = t1, vuUsed = u1, vuUnit = BYTES\<rparr>, \<lparr>vuAvailable = a2, vuTotal = t2, vuUsed = u2, vuUnit = INODES\<rparr>] \<longleftrightarrow>
      map vuTotal us = [t1, t2] \<and> map vuUsed us = [u1, u2] \<and> map vuAvailable us = [a1, a2] \<and> map vuUnit us = [BYTES, INODES]"
    for a1 a2 t1 t2 u1 u2
    by (cases us rule: list.exhaust; cases "tl us" rule: list.exhaust; auto)
  show ?thesis
    by (auto simp: NodeGetVolumeStats_def two[symmetric] split: option.splits prod.splits sum.splits if_splits)
qed

end
