(* ===== verification/Node_System.thy ===== *)
theory Node_System
  imports Node_Props
begin

text \<open>
  A node over time: publish and unpublish calls, one after the other, with the debounce timer firing in between, over
  a mounter of which only this is known: which mount requests are in effect changes as documented (\<open>mounter_ok\<close>), and
  \<open>/proc/mounts\<close> shows them (\<open>proc_shows\<close>). The invariant says that a share mounted through a tunnel keeps its
  tunnel. Calls for different target paths are not excluded from each other by the driver's lock per target path; the
  last section shows what that allows.
\<close>

section \<open>Mounts in effect\<close>

text \<open>
  \<open>mounted s\<close> is the set of mount requests in effect in a state of the mounter: source, target, file system and
  options. A mount request adds at most itself, nothing else adds anything.
\<close>

definition mounter_ok :: "'m mounter \<Rightarrow> ('m \<Rightarrow> mount_entry set) \<Rightarrow> bool" where
  "mounter_ok M mounted \<longleftrightarrow>
     (\<forall>t s. mounted (snd (mIsLikelyNotMountPoint M t s)) \<subseteq> mounted s) \<and>
     (\<forall>t s. mounted (snd (mMakeDir M t s)) \<subseteq> mounted s) \<and>
     (\<forall>src t fs opts s. mounted (snd (mMount M src t fs opts s)) \<subseteq> insert (src, t, fs, opts) (mounted s)) \<and>
     (\<forall>src t fs enc r s. mounted (snd (mMountEITBasedFileShare M src t fs enc r s)) \<subseteq> insert (src, t, fs, [enc]) (mounted s)) \<and>
     (\<forall>t s. mounted (snd (mUnmount M t s)) \<subseteq> mounted s) \<and>
     (\<forall>t s. mounted (snd (mCleanupMountPoint M t s)) \<subseteq> mounted s) \<and>
     (\<forall>t s. mounted (snd (mRemove M t s)) \<subseteq> mounted s)"

lemma mounter_okD:
  assumes "mounter_ok M mounted"
  shows "mIsLikelyNotMountPoint M t s = (c, s') \<Longrightarrow> mounted s' \<subseteq> mounted s"
    "mMakeDir M t s = (e, s') \<Longrightarrow> mounted s' \<subseteq> mounted s"
    "mMount M src t fs opts s = (e, s') \<Longrightarrow> mounted s' \<subseteq> insert (src, t, fs, opts) (mounted s)"
    "mMountEITBasedFileShare M src t fs enc r s = (x, s') \<Longrightarrow> mounted s' \<subseteq> insert (src, t, fs, [enc]) (mounted s)"
    "mUnmount M t s = (e, s') \<Longrightarrow> mounted s' \<subseteq> mounted s"
    "mCleanupMountPoint M t s = (e, s') \<Longrightarrow> mounted s' \<subseteq> mounted s"
    "mRemove M t s = (e, s') \<Longrightarrow> mounted s' \<subseteq> mounted s"
  using assms unfolding mounter_ok_def by (metis snd_conv)+

lemma table_mounter_ok: "mounter_ok table_mounter set"
  by (auto simp: mounter_ok_def table_mounter_def)

text \<open>\<open>/proc/mounts\<close> lists every nfs4 mount in effect on a line that the scanner reads, with its options.\<close>

definition proc_shows :: "mount_entry set \<Rightarrow> string \<Rightarrow> bool" where
  "proc_shows es data \<longleftrightarrow>
     (\<forall>(src, t, fs, opts) \<in> es. fs = nfs4FsType \<and> HasPrefix src ''127.0.0.1:'' \<longrightarrow>
        (\<exists>l \<in> set (scan_lines data). Contains l ''nfs4'' \<and> Contains l ''127.0.0.1:'' \<and> Contains l (last opts)))"

section \<open>Steps and invariant\<close>

inductive node_step ::
  "'m mounter \<Rightarrow> ('m \<Rightarrow> mount_entry set) \<Rightarrow> (string \<times> csi_code) list \<Rightarrow> access_mode list \<Rightarrow> 'm node_state \<Rightarrow> 'm node_state \<Rightarrow> bool"
  for M mounted order modes where
  publish: "NodePublishVolume M order modes os rid req st = (r, st') \<Longrightarrow> node_step M mounted order modes st st'"
| unpublish: "NodeUnpublishVolume M os rid vid t st = (r, st') \<Longrightarrow>
    (\<And>data. procMounts os = Some data \<Longrightarrow> proc_shows (mounted (nsMounts st')) data) \<Longrightarrow> node_step M mounted order modes st st'"
| debounce: "nsMgr st = Some sm \<Longrightarrow> debounce_expire pg kl (sm, nsWorld st) = (sm', w') \<Longrightarrow>
    node_step M mounted order modes st (st\<lparr>nsMgr := Some sm', nsWorld := w'\<rparr>)"

text \<open>The share whose tunnel listens on a port.\<close>

definition port_owner :: "'m node_state \<Rightarrow> int \<Rightarrow> string option" where
  "port_owner st p = (case nsMgr st of None \<Rightarrow> None | Some sm \<Rightarrow> fmlookup (portToVolume sm) p)"

text \<open>Every nfs4 mount in effect goes to 127.0.0.1 and through a port whose tunnel exists.\<close>

definition tunnelled :: "mount_entry set \<Rightarrow> 'm node_state \<Rightarrow> bool" where
  "tunnelled es st \<longleftrightarrow>
     (\<forall>(src, t, fs, opts) \<in> es. fs = nfs4FsType \<longrightarrow>
        HasPrefix src ''127.0.0.1:'' \<and> (\<exists>p v. last opts = ''port='' @ Itoa p \<and> port_owner st p = Some v))"

definition node_inv :: "('m \<Rightarrow> mount_entry set) \<Rightarrow> 'm node_state \<Rightarrow> bool" where
  "node_inv mounted st \<longleftrightarrow> tunnelled (mounted (nsMounts st)) st \<and> (\<forall>sm. nsMgr st = Some sm \<longrightarrow> port_inv sm)"

lemma tunnelled_mono: "tunnelled es st \<Longrightarrow> es' \<subseteq> es \<Longrightarrow> tunnelled es' st"
  unfolding tunnelled_def by blast

lemma tunnelled_insert: "tunnelled {e} st \<Longrightarrow> tunnelled es st \<Longrightarrow> tunnelled (insert e es) st"
  unfolding tunnelled_def by simp

lemma tunnelled_owner:
  "tunnelled es st \<Longrightarrow> (\<And>p v. port_owner st p = Some v \<Longrightarrow> port_owner st' p = Some v) \<Longrightarrow> tunnelled es st'"
  unfolding tunnelled_def by fast

section \<open>What the calls do to ports and mounts\<close>

lemma EnsureTunnel_owner:
  assumes "EnsureTunnel os v srv r (sm, w) = (res, sm', w')" "fmlookup (portToVolume sm) p = Some u"
  shows "fmlookup (portToVolume sm') p = Some u"
  using assms by (cases rule: EnsureTunnel_cases) (auto simp: same_maps_def restore_port_def findAvailablePort_Inr)

lemma RemoveTunnel_owner:
  assumes "port_inv sm" "RemoveTunnel os v r (sm, w) = (res, sm', w')" "fmlookup (portToVolume sm) p = Some u"
    "u = v \<Longrightarrow> isTunnelPortInUse (procMounts os) p"
  shows "fmlookup (portToVolume sm') p = Some u"
proof (rule RemoveTunnel_cases[OF assms(2) assms(1)])
  show ?thesis if "sm' = sm" using that assms(3) by simp
  show ?thesis if "same_maps sm sm'" using that assms(3) by (simp add: same_maps_def)
next
  fix q
  assume q: "fmlookup (allocatedPorts sm) v = Some q" "\<not> isTunnelPortInUse (procMounts os) q"
    and gone: "same_maps (forget_port v q sm) sm'"
  have "p \<noteq> q"
  proof
    assume "p = q"
    then have "u = v" using assms(3) q(1) port_inv_iff[OF assms(1), of q v] by simp
    then show False using assms(4) q(2) \<open>p = q\<close> by simp
  qed
  then show ?thesis using gone assms(3) by (simp add: same_maps_def forget_port_def)
qed

lemma debounce_expire_maps:
  "debounce_expire pg kl (sm, w) = (sm', w') \<Longrightarrow> same_maps sm sm' \<and> same_setup sm sm'"
  by (auto simp: debounce_expire_def debounce_callback_def same_maps_def same_setup_def split: option.splits if_splits)

lemma mount_failed_mounted:
  assumes "mounter_ok M mounted" "mount_failed M order t fs err s = (r, s')"
  shows "mounted s' \<subseteq> mounted s"
proof -
  note D = mounter_okD[OF assms(1)]
  have rm: "mounted (snd (mRemove M t x)) \<subseteq> mounted x" for x using D(7)[of t x] by (metis surjective_pairing)
  obtain b e s1 where c1: "mIsLikelyNotMountPoint M t s = ((b, e), s1)" by (metis prod.exhaust)
  obtain e2 s2 where u: "mUnmount M t s1 = (e2, s2)" by (metis prod.exhaust)
  obtain b3 e3 s3 where c3: "mIsLikelyNotMountPoint M t s2 = ((b3, e3), s3)" by (metis prod.exhaust)
  have "s' \<in> {s1, s2, s3, snd (mRemove M t s1), snd (mRemove M t s3)}"
    using assms(2) c1 u c3 by (auto simp: mount_failed_def Let_def split: option.splits bool.splits)
  then show ?thesis using D(1)[OF c1] D(5)[OF u] D(1)[OF c3] rm[of s1] rm[of s3] by (elim insertE emptyE) blast+
qed

lemma processMount_mounted:
  assumes "mounter_ok M mounted" "processMount M order rid src t fs enc opts s = (r, s')"
  shows "mounted s' \<subseteq> insert (src, t, fs, if fs = eitFsType then [enc] else opts) (mounted s)"
proof -
  note D = mounter_okD[OF assms(1)]
  obtain e s1 where mk: "mMakeDir M t s = (e, s1)" by (metis prod.exhaust)
  let ?mount = "if fs \<noteq> eitFsType then mMount M src t fs opts s1
      else (case mMountEITBasedFileShare M src t fs enc rid s1 of ((_, err), s2) \<Rightarrow> (err, s2))"
  obtain err s2 where m: "?mount = (err, s2)" by (metis prod.exhaust)
  have s2: "mounted s2 \<subseteq> insert (src, t, fs, if fs = eitFsType then [enc] else opts) (mounted s1)"
    using m D(3,4) by (auto split: if_splits prod.splits)
  have "s' = s1 \<or> mounted s' \<subseteq> mounted s2"
    using assms mk m mount_failed_mounted[OF assms(1)] by (auto simp: processMount_def split: option.splits)
  then show ?thesis using D(2)[OF mk] s2 by blast
qed

text \<open>What a step keeps: the owner of every port, and the invariant of the port maps.\<close>

definition keeps_ports :: "'m node_state \<Rightarrow> 'm node_state \<Rightarrow> bool" where
  "keeps_ports st st' \<longleftrightarrow> (\<forall>p v. port_owner st p = Some v \<longrightarrow> port_owner st' p = Some v) \<and>
     ((\<forall>sm. nsMgr st = Some sm \<longrightarrow> port_inv sm) \<longrightarrow> (\<forall>sm. nsMgr st' = Some sm \<longrightarrow> port_inv sm))"

lemma keeps_ports_mounts [simp]: "keeps_ports st st" "keeps_ports (st\<lparr>nsMounts := m\<rparr>) st' = keeps_ports st st'"
  "keeps_ports st (st'\<lparr>nsMounts := m\<rparr>) = keeps_ports st st'"
  by (simp_all add: keeps_ports_def port_owner_def)

lemma plan_mount_keeps:
  assumes "plan_mount os rid src ctx flags st = (res, st')"
  shows "keeps_ports st st'"
proof -
  have ensure: "keeps_ports st (st\<lparr>nsMgr := Some sm', nsWorld := w'\<rparr>)"
    if "nsMgr st = Some sm" "EnsureTunnel os v srv rid (sm, nsWorld st) = (x, sm', w')" for v srv x sm sm' w'
    using that EnsureTunnel_owner[OF that(2)] EnsureTunnel_port_inv[OF _ that(2)] by (simp add: keeps_ports_def port_owner_def)
  show ?thesis
    using assms ensure unfolding plan_mount_def plan_tunnel_def Let_def
    by (auto split: if_splits option.splits sum.splits prod.splits)
qed

text \<open>A plan for an nfs4 mount goes through the port that the manager holds for the share.\<close>

lemma plan_mount_owner:
  assumes "plan_mount os rid src ctx flags st = (Ok p, st')" "\<forall>sm. nsMgr st = Some sm \<longrightarrow> port_inv sm" "planFsType p = nfs4FsType"
  shows "HasPrefix (planSource p) ''127.0.0.1:'' \<and>
    (\<exists>q. last (planOptions p) = ''port='' @ Itoa q \<and> port_owner st' q = Some (map_get ctx FileShareIDLabel))"
  using assms(1)
proof (cases rule: plan_mount_cases)
  case (tunnel nfs sm sm' w' port)
  have "port_inv sm'" using EnsureTunnel_port_inv[OF _ tunnel(5)] tunnel(4) assms(2) by simp
  then have "port_owner st' port = Some (map_get ctx FileShareIDLabel)"
    using EnsureTunnel_holds(2)[OF tunnel(5)] port_inv_iff tunnel(6) by (simp add: port_owner_def)
  then show ?thesis using tunnel(7) by auto
qed (use assms(3) in \<open>simp_all add: nfs4FsType_def eitFsType_def defaultFsType_def\<close>)

lemma plan_mount_tunnelled:
  assumes "plan_mount os rid src ctx flags st = (Ok p, st')" "\<forall>sm. nsMgr st = Some sm \<longrightarrow> port_inv sm"
  shows "tunnelled {(planSource p, t, planFsType p, if planFsType p = eitFsType then [planEncryption p] else planOptions p)} st'"
  using plan_mount_owner[OF assms] by (auto simp: tunnelled_def nfs4FsType_def eitFsType_def)

lemma publish_keeps:
  assumes "NodePublishVolume M order modes os rid req st = (r, st')"
  shows "keeps_ports st st'"
  using assms by (cases rule: NodePublishVolume_cases) (auto dest: plan_mount_keeps)

lemma publish_mounted:
  assumes "mounter_ok M mounted" "NodePublishVolume M order modes os rid req st = (r, st')" "\<forall>sm. nsMgr st = Some sm \<longrightarrow> port_inv sm"
    "e \<in> mounted (nsMounts st')"
  shows "e \<in> mounted (nsMounts st) \<or> tunnelled {e} st'"
  using assms(2)
proof (cases rule: NodePublishVolume_cases)
  case (unplanned cap err m1 flags x)
  then show ?thesis using mounter_okD(1)[OF assms(1) unplanned(1)] plan_mount_mounts[OF unplanned(5)] assms(4) by auto
next
  case (mount cap err m1 flags q st2 m2)
  have "e \<in> mounted (nsMounts st) \<or>
      e = (planSource q, pubTarget req, planFsType q, if planFsType q = eitFsType then [planEncryption q] else planOptions q)"
    using processMount_mounted[OF assms(1) mount(5)] plan_mount_mounts[OF mount(4)] mounter_okD(1)[OF assms(1) mount(1)]
      assms(4) mount(6) by auto
  then show ?thesis using plan_mount_tunnelled[OF mount(4), of "pubTarget req"] assms(3) mount(6)
    by (auto simp: tunnelled_def port_owner_def)
qed (use assms(4) in \<open>auto dest: mounter_okD(1)[OF assms(1), THEN subsetD]\<close>)

text \<open>A port that a mount in effect goes through is in use.\<close>

lemma mounted_port_in_use:
  assumes "\<And>data. procMounts os = Some data \<Longrightarrow> proc_shows es data" "(src, t, nfs4FsType, opts) \<in> es"
    "HasPrefix src ''127.0.0.1:''" "last opts = ''port='' @ Itoa p"
  shows "isTunnelPortInUse (procMounts os) p"
proof (cases "procMounts os")
  case (Some data)
  then obtain l where "l \<in> set (scan_lines data)" "mount_uses_port p l"
    using assms unfolding proc_shows_def mount_uses_port_def by fastforce
  then show ?thesis using Some by (auto simp: isTunnelPortInUse_def filter_empty_conv)
qed (simp add: isTunnelPortInUse_def)

lemma unpublish_cases:
  assumes "NodeUnpublishVolume M os rid vid t st = (r, st')"
  obtains (idle) "st' = st"
  | (unmount) e m1 where "mCleanupMountPoint M t (nsMounts st) = (e, m1)" "st' = st\<lparr>nsMounts := m1\<rparr>"
  | (tunnel) m1 sm v x sm' w' where "mCleanupMountPoint M t (nsMounts st) = (None, m1)" "nsMgr st = Some sm"
      "RemoveTunnel os v rid (sm, nsWorld st) = (x, sm', w')" "st' = st\<lparr>nsMounts := m1, nsMgr := Some sm', nsWorld := w'\<rparr>"
proof (cases "length vid = 0 \<or> length t = 0")
  case True
  then show ?thesis using assms idle by (auto simp: NodeUnpublishVolume_def split: if_splits)
next
  case False
  obtain e m1 where c: "mCleanupMountPoint M t (nsMounts st) = (e, m1)" by (metis prod.exhaust)
  show ?thesis
  proof (cases "e = None \<and> nsMgr st \<noteq> None \<and> getTokens vid \<noteq> []")
    case True
    then obtain sm v ts where sm: "nsMgr st = Some sm" "getTokens vid = v # ts" by (auto simp: neq_Nil_conv)
    obtain x sm' w' where "RemoveTunnel os v rid (sm, nsWorld st) = (x, sm', w')" by (metis prod.exhaust)
    then show ?thesis using assms False c True sm tunnel by (auto simp: NodeUnpublishVolume_def Let_def)
  next
    case other: False
    then have "st' = st\<lparr>nsMounts := m1\<rparr>"
      using assms False c by (auto simp: NodeUnpublishVolume_def Let_def split: option.splits list.splits)
    then show ?thesis using unmount c by blast
  qed
qed

text \<open>One step keeps the owner of every port that a mount still in effect afterwards goes through.\<close>

lemma step_owner:
  assumes "node_step M mounted order modes st st'" "node_inv mounted st" "port_owner st p = Some v"
    "(src, t, nfs4FsType, opts) \<in> mounted (nsMounts st')" "HasPrefix src ''127.0.0.1:''" "last opts = ''port='' @ Itoa p"
  shows "port_owner st' p = Some v"
  using assms(1)
proof cases
  case (publish os rid req r)
  then show ?thesis using publish_keeps assms(3) unfolding keeps_ports_def by blast
next
  case (unpublish os rid vid t' r)
  from unpublish(1) show ?thesis
  proof (cases rule: unpublish_cases)
    case (tunnel m1 sm u x sm' w')
    have "isTunnelPortInUse (procMounts os) p"
      using mounted_port_in_use[of os "mounted (nsMounts st')"] unpublish(2) assms(4-6) by blast
    then have "fmlookup (portToVolume sm') p = Some v"
      using RemoveTunnel_owner[OF _ tunnel(3)] tunnel(2) assms(2,3) by (simp add: node_inv_def port_owner_def)
    then show ?thesis using tunnel(4) by (simp add: port_owner_def)
  qed (use assms(3) in \<open>auto simp: port_owner_def\<close>)
next
  case (debounce sm pg kl sm' w')
  then show ?thesis using debounce_expire_maps assms(3) by (fastforce simp: port_owner_def same_maps_def)
qed

lemma step_port_inv:
  assumes "node_step M mounted order modes st st'" "\<forall>sm. nsMgr st = Some sm \<longrightarrow> port_inv sm" "nsMgr st' = Some sm'"
  shows "port_inv sm'"
  using assms(1)
proof cases
  case (publish os rid req r)
  then show ?thesis using publish_keeps assms(2,3) unfolding keeps_ports_def by blast
next
  case (unpublish os rid vid t' r)
  from unpublish(1) show ?thesis
    by (cases rule: unpublish_cases) (use assms(2,3) RemoveTunnel_port_inv in auto)
next
  case (debounce sm pg kl sm2 w')
  then show ?thesis using debounce_expire_maps port_inv_transfer assms(2,3) by fastforce
qed

lemma step_mounted:
  assumes "mounter_ok M mounted" "node_step M mounted order modes st st'" "node_inv mounted st" "e \<in> mounted (nsMounts st')"
  shows "e \<in> mounted (nsMounts st) \<or> tunnelled {e} st'"
  using assms(2)
proof cases
  case (publish os rid req r)
  then show ?thesis using publish_mounted assms(1,3,4) unfolding node_inv_def by blast
next
  case (unpublish os rid vid t' r)
  from unpublish(1) show ?thesis
    by (cases rule: unpublish_cases) (use assms(4) in \<open>auto dest: mounter_okD(6)[OF assms(1), THEN subsetD]\<close>)
qed (use assms(4) in simp)

lemma step_inv:
  assumes "mounter_ok M mounted" "node_step M mounted order modes st st'" "node_inv mounted st"
  shows "node_inv mounted st'"
  unfolding node_inv_def
proof
  show "\<forall>sm. nsMgr st' = Some sm \<longrightarrow> port_inv sm" using step_port_inv[OF assms(2)] assms(3) unfolding node_inv_def by blast
  show "tunnelled (mounted (nsMounts st')) st'"
    unfolding tunnelled_def
  proof safe
    fix src t fs opts
    assume e: "(src, t, nfs4FsType, opts) \<in> mounted (nsMounts st')"
    have "HasPrefix src ''127.0.0.1:'' \<and> (\<exists>p v. last opts = ''port='' @ Itoa p \<and> port_owner st' p = Some v)"
      using step_mounted[OF assms e]
    proof
      assume "(src, t, nfs4FsType, opts) \<in> mounted (nsMounts st)"
      then obtain p v where p: "HasPrefix src ''127.0.0.1:''" "last opts = ''port='' @ Itoa p" "port_owner st p = Some v"
        using assms(3) unfolding node_inv_def tunnelled_def by fast
      then show ?thesis using step_owner[OF assms(2,3) p(3) e p(1,2)] by blast
    qed (simp add: tunnelled_def)
    then show "HasPrefix src ''127.0.0.1:''" "\<exists>p v. last opts = ''port='' @ Itoa p \<and> port_owner st' p = Some v" by blast+
  qed
qed

interpretation node: step_system "node_step M mounted order modes" "\<lambda>st. mounter_ok M mounted \<and> node_inv mounted st" for M mounted order modes
  by unfold_locales (auto intro: step_inv)

lemma steps_inv: "mounter_ok M mounted \<Longrightarrow> (node_step M mounted order modes)\<^sup>*\<^sup>* st st' \<Longrightarrow> node_inv mounted st \<Longrightarrow> node_inv mounted st'"
  using node.run_keeps by blast

section \<open>Properties\<close>

lemma start_inv: "nsMgr st = Some sm \<Longrightarrow> port_inv sm \<Longrightarrow> mounted (nsMounts st) = {} \<Longrightarrow> node_inv mounted st"
  by (simp add: node_inv_def tunnelled_def)

lemma demo_rfs_mounted:
  "\<exists>st'. NodePublishVolume table_mounter mount_errors [MULTI_NODE_MULTI_WRITER] demo_os ''r''
      (demo_publish ''rfs'' ''true'') (demo_node []) = (Ok (), st') \<and>
    nsMounts st' = [(''127.0.0.1:/share'', ''/pod1'', nfs4FsType, [''vers=4.1'', ''port='' @ Itoa 11300])] \<and>
    port_owner st' 11300 = Some ''v1''"
proof -
  obtain sm w where e: "EnsureTunnel demo_os ''v1'' ''10.240.0.5'' ''r'' (demo_sm, demo_world) = (Inr 11300, sm, w)"
    by (rule demo_ensure_of[of "''v1''" "''10.240.0.5''"]) simp_all
  have "fmlookup (portToVolume sm) 11300 = Some ''v1''"
    using EnsureTunnel_holds(2)[OF e] port_inv_iff[OF EnsureTunnel_port_inv[OF demo_inv e]] by simp
  then show ?thesis
    by (simp add: demo_publish_simps e demo_source Let_def RFSProfile_def TrueStr_def nfs4FsType_def eitFsType_def port_owner_def)
qed

text \<open>C2: from a node with nothing mounted, after any sequence of publish and unpublish calls with any outcomes of the
  mounter and the system calls, every share that is mounted as nfs4 is mounted from 127.0.0.1 through a port that the
  stunnel manager holds for a share: a mount never outlives its tunnel.\<close>

theorem mounted_shares_keep_tunnels:
  assumes "mounter_ok M mounted" "nsMgr st = Some sm" "port_inv sm" "mounted (nsMounts st) = {}"
    "(node_step M mounted order modes)\<^sup>*\<^sup>* st st'" "(src, t, nfs4FsType, opts) \<in> mounted (nsMounts st')"
  shows "HasPrefix src ''127.0.0.1:'' \<and>
    (\<exists>sm' p v. nsMgr st' = Some sm' \<and> fmlookup (allocatedPorts sm') v = Some p \<and> last opts = ''port='' @ Itoa p)"
proof -
  have inv: "node_inv mounted st'" using steps_inv[OF assms(1,5)] start_inv[of st sm mounted] assms(2-4) by blast
  then obtain p v where p: "HasPrefix src ''127.0.0.1:''" "last opts = ''port='' @ Itoa p" "port_owner st' p = Some v"
    using assms(6) unfolding node_inv_def tunnelled_def by fast
  then obtain sm' where "nsMgr st' = Some sm'" "fmlookup (portToVolume sm') p = Some v"
    by (auto simp: port_owner_def split: option.splits)
  moreover have "port_inv sm'" using inv calculation by (simp add: node_inv_def)
  ultimately show ?thesis using p port_inv_iff by blast
qed

theorem mounted_shares_keep_tunnels_witness:
  "\<exists>st' sm' p v. (node_step table_mounter set mount_errors [MULTI_NODE_MULTI_WRITER])\<^sup>*\<^sup>* (demo_node []) st' \<and>
    nsMgr st' = Some sm' \<and> fmlookup (allocatedPorts sm') v = Some p \<and> ''port='' @ Itoa 11300 = ''port='' @ Itoa p"
proof -
  obtain st' where r: "NodePublishVolume table_mounter mount_errors [MULTI_NODE_MULTI_WRITER] demo_os ''r''
      (demo_publish ''rfs'' ''true'') (demo_node []) = (Ok (), st')"
    "nsMounts st' = [(''127.0.0.1:/share'', ''/pod1'', nfs4FsType, [''vers=4.1'', ''port='' @ Itoa 11300])]"
    using demo_rfs_mounted by blast
  then have steps: "(node_step table_mounter set mount_errors [MULTI_NODE_MULTI_WRITER])\<^sup>*\<^sup>* (demo_node []) st'"
    by (intro r_into_rtranclp publish)
  have "(''127.0.0.1:/share'', ''/pod1'', nfs4FsType, [''vers=4.1'', ''port='' @ Itoa 11300]) \<in> set (nsMounts st')"
    using r(2) by simp
  from mounted_shares_keep_tunnels[OF table_mounter_ok _ demo_inv _ steps this] show ?thesis
    using steps by (auto simp: demo_node_def)
qed

text \<open>On a node reached by any such sequence, the next step never hands the port of a mounted share to another share:
  the share that owns the port of a mount that is still in effect after the step is the one that owned it before.\<close>

lemma mounted_port_not_reassigned:
  assumes "mounter_ok M mounted" "nsMgr st0 = Some sm" "port_inv sm" "mounted (nsMounts st0) = {}"
    "(node_step M mounted order modes)\<^sup>*\<^sup>* st0 st" "node_step M mounted order modes st st'"
    "(src, t, nfs4FsType, opts) \<in> mounted (nsMounts st)" "(src, t, nfs4FsType, opts) \<in> mounted (nsMounts st')"
    "last opts = ''port='' @ Itoa p" "port_owner st p = Some v"
  shows "port_owner st' p = Some v"
proof -
  have inv: "node_inv mounted st" using steps_inv[OF assms(1,5)] start_inv[of st0 sm mounted] assms(2-4) by blast
  then have "HasPrefix src ''127.0.0.1:''" using assms(7) unfolding node_inv_def tunnelled_def by fast
  then show ?thesis using step_owner[OF assms(6) inv assms(10,8)] assms(9) by blast
qed

lemma mounted_port_not_reassigned_example:
  "\<exists>st st' v. (node_step table_mounter set mount_errors [MULTI_NODE_MULTI_WRITER])\<^sup>*\<^sup>* (demo_node []) st \<and>
    node_step table_mounter set mount_errors [MULTI_NODE_MULTI_WRITER] st st' \<and>
    port_owner st 11300 = Some v \<and> port_owner st' 11300 = Some v"
proof -
  let ?step = "node_step table_mounter set mount_errors [MULTI_NODE_MULTI_WRITER]"
  let ?e = "(''127.0.0.1:/share'', ''/pod1'', nfs4FsType, [''vers=4.1'', ''port='' @ Itoa 11300])"
  obtain st where r: "NodePublishVolume table_mounter mount_errors [MULTI_NODE_MULTI_WRITER] demo_os ''r''
      (demo_publish ''rfs'' ''true'') (demo_node []) = (Ok (), st)" "nsMounts st = [?e]"
    and v: "port_owner st 11300 = Some ''v1''"
    using demo_rfs_mounted by blast
  have step: "?step (demo_node []) st" using r(1) by (rule publish)
  obtain x st' where u: "NodeUnpublishVolume table_mounter (demo_rm\<lparr>procMounts := None\<rparr>) ''r'' ''v2#a2'' ''/pod2'' st = (x, st')"
    by (metis prod.exhaust)
  have step': "?step st st'" using u by (rule unpublish) simp
  have e: "?e \<in> set (nsMounts st)" using r(2) by simp
  from u have e': "?e \<in> set (nsMounts st')"
    by (cases rule: unpublish_cases) (use r(2) in \<open>auto simp: table_mounter_def\<close>)
  have steps: "?step\<^sup>*\<^sup>* (demo_node []) st" using step by (rule r_into_rtranclp)
  show ?thesis
    using mounted_port_not_reassigned[OF table_mounter_ok _ demo_inv _ steps step' e e' _ v] steps step' v
    by (auto simp: demo_node_def)
qed

section \<open>Two calls for one share\<close>

text \<open>A node on which the share v1 is mounted on one target through its tunnel.\<close>

definition race_node :: "mount_entry list node_state" where
  "race_node = \<lparr>nsMounts = [(''127.0.0.1:/share'', ''/pod1'', nfs4FsType, [''port='' @ Itoa 11300])],
     nsMgr = Some demo_one, nsWorld = demo_world\<rparr>"

lemma race_removed:
  "\<exists>sm w. RemoveTunnel demo_rm ''v1'' ''r2'' (demo_one, demo_world) = (Inr (), sm, w) \<and>
    allocatedPorts sm = fmempty \<and> portToVolume sm = fmempty \<and> initialPort sm = 11300 \<and> portRange sm = 300"
proof -
  have t: "TrimSpace ''42'' = ''42''" by code_simp
  have "Atoi ''42'' = Some 42" by code_simp
  then have reload: "reloadStunnel (PgrepOutput ''42'') (\<lambda>_. KillOk) w = (Inr (), w\<lparr>sighups := sighups w @ [42]\<rparr>)" for w
    by (intro reload_one) (simp_all add: t newline_def)
  have empty: "fmdrop k (fmupd k v fmempty) = fmempty" for k :: 'a and v :: 'b by (rule fmlookup_eqI) simp
  show ?thesis
    by (simp add: RemoveTunnel_def handleLastTunnelCleanup_def demo_rm_def reload remove_config_def remove_path_def Let_def
        demo_one_def restore_port_def forget_port_def stop_timer_def not_in_use_empty fcard_finsert_disjoint empty)
qed

text \<open>C33: the lock of a target path does not protect the tunnel of a share. A publish of v1 on a second target has asked
  for the tunnel and got port 11300; before it mounts, an unpublish of v1 on the first target unmounts, sees no mount
  that uses the port, and removes the tunnel; a publish of another share v2 is given the same port. The first publish
  then mounts the export of v1 through the port of v2's tunnel and reports success.\<close>

theorem publish_unpublish_race:
  "\<exists>p p' st1 st2 m.
     plan_mount demo_os ''r1'' ''10.240.0.5:/share'' (demo_context ''rfs'' ''true'') [] race_node = (Ok p, race_node) \<and>
     NodeUnpublishVolume table_mounter demo_rm ''r2'' ''v1#a1'' ''/pod1'' race_node = (Ok (), st1) \<and> nsMounts st1 = [] \<and>
     plan_mount demo_os ''r3'' ''10.240.0.6:/other'' (fmupd FileShareIDLabel ''v2'' (demo_context ''rfs'' ''true'')) [] st1 = (Ok p', st2) \<and>
     processMount table_mounter mount_errors ''r1'' (planSource p) ''/pod2'' (planFsType p) (planEncryption p) (planOptions p)
       (nsMounts st2) = (Ok (), m) \<and>
     m = [(''127.0.0.1:/share'', ''/pod2'', ''nfs4'', [''port='' @ Itoa 11300])] \<and> port_owner st2 11300 = Some ''v2''"
proof -
  obtain sm w where rm: "RemoveTunnel demo_rm ''v1'' ''r2'' (demo_one, demo_world) = (Inr (), sm, w)"
    and sm: "allocatedPorts sm = fmempty" "portToVolume sm = fmempty" "initialPort sm = 11300" "portRange sm = 300"
    using race_removed by blast
  have "findAvailablePort (bindable demo_os) sm = Inr 11300" using sm by (simp add: findAvailablePort_Inr)
  then obtain sm2 w2 where e: "EnsureTunnel demo_os ''v2'' ''10.240.0.6'' ''r3'' (sm, w) = (Inr 11300, sm2, w2)"
    and own: "fmlookup (portToVolume sm2) 11300 = Some ''v2''"
    using sm by (simp add: EnsureTunnel_def ensure_locked_new schedule_sels)
  have src: "splitNFSSource ''10.240.0.6:/other'' = Inr \<lparr>Server = ''10.240.0.6'', ExportPath = ''/other''\<rparr>" by code_simp
  let ?p = "\<lparr>planSource = ''127.0.0.1:/share'', planFsType = nfs4FsType, planEncryption = [], planOptions = [''port='' @ Itoa 11300]\<rparr>"
  let ?st1 = "\<lparr>nsMounts = [] :: mount_entry list, nsMgr = Some sm, nsWorld = w\<rparr>"
  let ?st2 = "?st1\<lparr>nsMgr := Some sm2, nsWorld := w2\<rparr>"
  have hit: "EnsureTunnel demo_os ''v1'' ''10.240.0.5'' ''r1'' (demo_one, demo_world) = (Inr 11300, demo_one, demo_world)"
    by (simp add: EnsureTunnel_def demo_one_def restore_port_def)
  have labels: "RFSProfile = ''rfs''" "TrueStr = ''true''" by (simp_all add: RFSProfile_def TrueStr_def)
  have plan1: "plan_mount demo_os ''r1'' ''10.240.0.5:/share'' (demo_context ''rfs'' ''true'') [] race_node = (Ok ?p, race_node)"
    by (simp add: plan_mount_def plan_tunnel_def Let_def labels demo_source race_node_def hit)
  have unpub: "NodeUnpublishVolume table_mounter demo_rm ''r2'' ''v1#a1'' ''/pod1'' race_node = (Ok (), ?st1)"
    using NodeUnpublishVolume_eq[of "''v1''" "''/pod1''" race_node demo_one table_mounter demo_rm "''r2''" "''a1''"] rm
    by (simp add: race_node_def table_mounter_def)
  have plan2: "\<exists>p'. plan_mount demo_os ''r3'' ''10.240.0.6:/other'' (fmupd FileShareIDLabel ''v2'' (demo_context ''rfs'' ''true'')) [] ?st1 = (Ok p', ?st2)"
    by (simp add: plan_mount_def plan_tunnel_def Let_def labels src e)
      (simp add: ProfileLabel_def FileShareIDLabel_def IsEITEnabled_def)
  have "processMount table_mounter mount_errors ''r1'' (planSource ?p) ''/pod2'' (planFsType ?p) (planEncryption ?p) (planOptions ?p)
      (nsMounts ?st2) = (Ok (), [(''127.0.0.1:/share'', ''/pod2'', ''nfs4'', [''port='' @ Itoa 11300])])"
    by (simp add: processMount_def table_mounter_def nfs4FsType_def eitFsType_def)
  moreover have "port_owner ?st2 11300 = Some ''v2''" using own by (simp add: port_owner_def)
  ultimately show ?thesis using plan1 unpub plan2 by (metis (no_types, lifting) node_state.select_convs(1))
qed

end
