(* ===== verification/Node_Restart.thy ===== *)
theory Node_Restart
  imports Node_System Stunnel_Recovery
begin

text \<open>
  The life of a node across restarts of the node server. Mounts and service files survive a restart, the port maps of
  the manager do not: they are read back from the files. The steps are those of \<open>Node_System\<close>, with publish calls
  whose service file is written completely or not at all, and a restart at any time.
\<close>

section \<open>Steps\<close>

definition clean_write :: "ensure_os \<Rightarrow> bool" where
  "clean_write os \<longleftrightarrow> rollbackRemoveOk os \<and> (case writeResult os of WriteError (Some c) \<Rightarrow> False | _ \<Rightarrow> True)"

inductive life_step ::
  "'m mounter \<Rightarrow> ('m \<Rightarrow> mount_entry set) \<Rightarrow> (string \<times> csi_code) list \<Rightarrow> access_mode list \<Rightarrow> 'm node_state \<Rightarrow> 'm node_state \<Rightarrow> bool"
  for M mounted order modes where
  life_publish: "NodePublishVolume M order modes os rid req st = (r, st') \<Longrightarrow> clean_write os \<Longrightarrow>
    good_volume_id (map_get (pubContext req) FileShareIDLabel) \<Longrightarrow> life_step M mounted order modes st st'"
| life_unpublish: "NodeUnpublishVolume M os rid vid t st = (r, st') \<Longrightarrow>
    (\<And>data. procMounts os = Some data \<Longrightarrow> proc_shows (mounted (nsMounts st')) data) \<Longrightarrow> life_step M mounted order modes st st'"
| life_debounce: "nsMgr st = Some sm \<Longrightarrow> debounce_expire pg kl (sm, nsWorld st) = (sm', w') \<Longrightarrow>
    life_step M mounted order modes st (st\<lparr>nsMgr := Some sm', nsWorld := w'\<rparr>)"
| life_restart: "NewStunnelManager False env statOk no_faults False (files (nsWorld st)) = Inr sm' \<Longrightarrow>
    life_step M mounted order modes st (st\<lparr>nsMgr := Some sm'\<rparr>)"

section \<open>Files and maps\<close>

text \<open>The manager of a node: its maps are consistent, its files agree with them, and its range is the default one.\<close>

definition mgr_ok :: "'m node_state \<Rightarrow> bool" where
  "mgr_ok st \<longleftrightarrow> (\<exists>sm. nsMgr st = Some sm \<and> disk_ok (sm, nsWorld st) \<and> servicesDir sm = DefaultServicesDir \<and>
     initialPort sm = InitialPort \<and> portRange sm = PortRange \<and> debugLevel sm = DefaultDebugLevel)"

lemma mgr_ok_mounts [simp]: "mgr_ok (st\<lparr>nsMounts := m\<rparr>) = mgr_ok st"
  "mgr_ok (st\<lparr>nsMounts := m, nsMgr := sm, nsWorld := w\<rparr>) = mgr_ok (st\<lparr>nsMgr := sm, nsWorld := w\<rparr>)"
  by (simp_all add: mgr_ok_def)

lemma mgr_okI:
  assumes "mgr_ok st" "nsMgr st = Some sm" "same_setup sm sm'" "disk_ok (sm', w')"
  shows "mgr_ok (st\<lparr>nsMgr := Some sm', nsWorld := w'\<rparr>)"
  using assms by (auto simp: mgr_ok_def same_setup_def)

lemma EnsureTunnel_mgr_ok:
  assumes "mgr_ok st" "nsMgr st = Some sm" "EnsureTunnel os v srv r (sm, nsWorld st) = (x, sm', w')" "clean_write os" "good_volume_id v"
  shows "mgr_ok (st\<lparr>nsMgr := Some sm', nsWorld := w'\<rparr>)"
proof (rule mgr_okI[OF assms(1,2)])
  have "clean_op (Ensure (os, srv, r) v)" using assms(4,5) by (simp add: clean_op_def clean_write_def)
  moreover have "disk_ok (sm, nsWorld st)" using assms(1,2) by (simp add: mgr_ok_def)
  ultimately show "same_setup sm sm'" "disk_ok (sm', w')"
    using alloc_step_disk_ok[of "(sm, nsWorld st)" "Ensure (os, srv, r) v"] assms(3) by (simp_all add: tunnel_ensure_def)
qed

lemma RemoveTunnel_mgr_ok:
  assumes "mgr_ok st" "nsMgr st = Some sm" "RemoveTunnel os v r (sm, nsWorld st) = (x, sm', w')"
  shows "mgr_ok (st\<lparr>nsMgr := Some sm', nsWorld := w'\<rparr>)"
proof (rule mgr_okI[OF assms(1,2)])
  have "disk_ok (sm, nsWorld st)" using assms(1,2) by (simp add: mgr_ok_def)
  then show "same_setup sm sm'" "disk_ok (sm', w')"
    using alloc_step_disk_ok[of "(sm, nsWorld st)" "Remove (os, r) v"] assms(3) by (simp_all add: tunnel_remove_def clean_op_def)
qed

lemma plan_mount_mgr_ok:
  assumes "mgr_ok st" "plan_mount os rid src ctx flags st = (res, st')" "clean_write os" "good_volume_id (map_get ctx FileShareIDLabel)"
  shows "mgr_ok st'"
  using assms EnsureTunnel_mgr_ok[OF assms(1) _ _ assms(3,4)] unfolding plan_mount_def plan_tunnel_def Let_def
  by (auto split: if_splits option.splits sum.splits prod.splits)

text \<open>A restart reads back the maps that were lost.\<close>

lemma restart_maps:
  assumes "mgr_ok st" "nsMgr st = Some sm" "NewStunnelManager False env stat no_faults False (files (nsWorld st)) = Inr sm'"
  shows "same_maps sm sm'" "mgr_ok (st\<lparr>nsMgr := Some sm'\<rparr>)"
proof -
  obtain ca host where new: "sm' = snd (recoverExistingTunnels no_faults False (files (nsWorld st)) (fresh_manager ca host))"
    using assms(3) by (auto simp: NewStunnelManager_def split: sum.splits if_splits)
  let ?sm = "sm\<lparr>caFile := ca, checkHost := host\<rparr>"
  have ok: "disk_ok (sm, nsWorld st)" and d: "servicesDir sm = DefaultServicesDir" "initialPort sm = InitialPort"
    "portRange sm = PortRange" "debugLevel sm = DefaultDebugLevel"
    using assms(1,2) by (auto simp: mgr_ok_def)
  have fp: "file_port ?sm fs v = file_port sm fs v" for fs v
    by (simp add: file_port_def cong: option.case_cong node.case_cong)
  have "port_inv ?sm" "disk_inv ?sm (files (nsWorld st))" "sane_range ?sm"
    using ok by (simp_all add: disk_ok_def port_inv_def disk_inv_def fp sane_range_def)
  moreover have "same_setup ?sm (fresh_manager ca host)" using d by (simp add: same_setup_def fresh_manager_def)
  ultimately have r: "same_maps ?sm sm'" "same_setup ?sm sm'"
    using recover_restores[of ?sm "files (nsWorld st)" "fresh_manager ca host"] new by (auto simp: fresh_manager_def)
  then show "same_maps sm sm'" by (simp add: same_maps_def)
  have "disk_ok (sm', nsWorld st)"
    using \<open>port_inv ?sm\<close> \<open>disk_inv ?sm _\<close> \<open>sane_range ?sm\<close> r port_inv_transfer disk_inv_transfer sane_range_same
    by (fastforce simp: disk_ok_def)
  then show "mgr_ok (st\<lparr>nsMgr := Some sm'\<rparr>)" using r(2) d by (simp add: mgr_ok_def same_setup_def)
qed

section \<open>The invariant across restarts\<close>

definition life_inv :: "('m \<Rightarrow> mount_entry set) \<Rightarrow> 'm node_state \<Rightarrow> bool" where
  "life_inv mounted st \<longleftrightarrow> node_inv mounted st \<and> mgr_ok st"

lemma publish_mgr_ok:
  assumes "mgr_ok st" "NodePublishVolume M order modes os rid req st = (r, st')" "clean_write os"
    "good_volume_id (map_get (pubContext req) FileShareIDLabel)"
  shows "mgr_ok st'"
  using assms(2)
  by (cases rule: NodePublishVolume_cases) (use assms(1) in \<open>auto dest: plan_mount_mgr_ok[OF _ _ assms(3,4), rotated]\<close>)

lemma life_step_inv:
  assumes "mounter_ok M mounted" "life_step M mounted order modes st st'" "life_inv mounted st"
  shows "life_inv mounted st'"
  using assms(2)
proof cases
  case (life_publish os rid req r)
  have "node_step M mounted order modes st st'" using life_publish(1) by (rule publish)
  then show ?thesis using step_inv[OF assms(1)] publish_mgr_ok[OF _ life_publish] assms(3) by (auto simp: life_inv_def)
next
  case (life_unpublish os rid vid t r)
  have "node_step M mounted order modes st st'" using life_unpublish by (rule unpublish)
  moreover from life_unpublish(1) have "mgr_ok st'"
    by (cases rule: unpublish_cases) (use assms(3) RemoveTunnel_mgr_ok[of st] in \<open>auto simp: life_inv_def\<close>)
  ultimately show ?thesis using step_inv[OF assms(1)] assms(3) by (auto simp: life_inv_def)
next
  case (life_debounce sm pg kl sm' w')
  have "node_step M mounted order modes st st'" unfolding life_debounce(1) using life_debounce(2,3) by (rule debounce)
  moreover have "files w' = files (nsWorld st)"
    using life_debounce(3) by (auto simp: debounce_expire_def debounce_callback_def reloadStunnel_def Let_def
        split: option.splits if_splits pgrep_result.splits kill_result.splits)
  then have "mgr_ok st'"
    unfolding life_debounce(1)
    using assms(3) life_debounce(2) debounce_expire_maps[OF life_debounce(3)] port_inv_transfer disk_inv_transfer sane_range_same
    by (intro mgr_okI[OF _ life_debounce(2)]) (auto simp: life_inv_def mgr_ok_def disk_ok_def)
  ultimately show ?thesis using step_inv[OF assms(1)] assms(3) by (auto simp: life_inv_def)
next
  case (life_restart env stat sm')
  obtain sm where sm: "nsMgr st = Some sm" using assms(3) by (auto simp: life_inv_def mgr_ok_def)
  have ok: "mgr_ok st" "node_inv mounted st" using assms(3) by (simp_all add: life_inv_def)
  note new = restart_maps[OF ok(1) sm life_restart(2)]
  have "port_owner st' p = port_owner st p" for p
    using sm new(1) by (simp add: life_restart(1) port_owner_def same_maps_def)
  then have "node_inv mounted st'"
    using ok(2) new(2) by (auto simp: life_restart(1) node_inv_def tunnelled_def mgr_ok_def disk_ok_def)
  then show ?thesis using new(2) by (simp add: life_inv_def life_restart(1))
qed

interpretation life: step_system "life_step M mounted order modes" "\<lambda>st. mounter_ok M mounted \<and> life_inv mounted st" for M mounted order modes
  by unfold_locales (auto intro: life_step_inv)

lemma life_steps_inv: "mounter_ok M mounted \<Longrightarrow> (life_step M mounted order modes)\<^sup>*\<^sup>* st st' \<Longrightarrow> life_inv mounted st \<Longrightarrow> life_inv mounted st'"
  using life.run_keeps by blast

text \<open>The invariant says what it is for: a share that is mounted as nfs4 goes through a port that the manager holds for a
  share whose service file on disk names this port, so that stunnel serves it and a further restart finds it again.\<close>

lemma life_inv_served:
  assumes "life_inv mounted st" "(src, t, nfs4FsType, opts) \<in> mounted (nsMounts st)"
  shows "\<exists>sm p v. nsMgr st = Some sm \<and> fmlookup (allocatedPorts sm) v = Some p \<and> last opts = ''port='' @ Itoa p \<and>
    file_port sm (files (nsWorld st)) v = Some p"
proof -
  obtain p v where p: "last opts = ''port='' @ Itoa p" "port_owner st p = Some v"
    using assms unfolding life_inv_def node_inv_def tunnelled_def by fast
  obtain sm where sm: "nsMgr st = Some sm" "port_inv sm" "disk_inv sm (files (nsWorld st))"
    using assms(1) by (auto simp: life_inv_def mgr_ok_def disk_ok_def)
  have v: "fmlookup (allocatedPorts sm) v = Some p" using p(2) sm(1) port_inv_iff[OF sm(2)] by (simp add: port_owner_def)
  then have "file_port sm (files (nsWorld st)) v = Some p" using sm(3) by (auto simp: disk_inv_def)
  then show ?thesis using v sm(1) p(1) by blast
qed

lemma demo_mgr_ok: "mgr_ok (demo_node m)"
  using demo_disk_ok by (simp add: mgr_ok_def demo_node_def demo_sm_def fresh_manager_def)

lemma ubuntu_manager:
  assumes "Getenv env ''OS_TYPE'' = ''Ubuntu''"
  shows "\<exists>sm. NewStunnelManager False env (\<lambda>_. True) os d fs = Inr sm"
  using assms by (simp add: NewStunnelManager_def detectCABundle_def getClusterEnv_def Let_def UbuntuCAPath_def
      ProductionCheckHost_def StagingCheckHost_def)

end
