(* ===== verification/Torn_Write.thy ===== *)
theory Torn_Write
  imports Stunnel_Recovery "HOL-Library.Sublist"
begin

text \<open>
  Service files that were cut off. The driver writes a service file in place, so a crash can leave any prefix of it. What
  recovery reads from such a file is the port that was being written, or nothing: a shorter number is below the range of
  ports. Recovery after a crash during a write is therefore recovery after the tunnel was set up, or before it was.
\<close>

section \<open>Prefixes of a number\<close>

lemma prefix_digits_of:
  assumes "prefix t (digits_of n)" "t \<noteq> []" "t \<noteq> digits_of n"
  shows "\<exists>m. t = digits_of m \<and> m \<le> n div 10"
  using assms
proof (induction n rule: digits_of.induct)
  case (1 n)
  show ?case
  proof (cases "n < 10")
    case True
    then have "prefix t [digit_char n]" using "1.prems"(1) by (simp add: digits_of.simps[of n])
    then show ?thesis using "1.prems"(2,3) True by (auto simp: digits_of.simps[of n] prefix_Cons)
  next
    case False
    then have d: "digits_of n = digits_of (n div 10) @ [digit_char (n mod 10)]" by (simp add: digits_of.simps[of n])
    then have t: "prefix t (digits_of (n div 10))" using "1.prems"(1,3) by auto
    show ?thesis
    proof (cases "t = digits_of (n div 10)")
      case eq: False
      then obtain m where "t = digits_of m" "m \<le> n div 10 div 10" using "1.IH"[OF False t "1.prems"(2)] by blast
      then show ?thesis by (intro exI[of _ m]) simp
    qed blast
  qed
qed

lemma prefix_Itoa:
  assumes "prefix t (Itoa p)" "0 \<le> p" "t \<noteq> []" "t \<noteq> Itoa p"
  obtains q where "t = Itoa q" "0 \<le> q" "q \<le> p div 10"
proof -
  obtain m where "t = digits_of m" "m \<le> nat p div 10" using prefix_digits_of[of t "nat p"] assms by (auto simp: Itoa_def)
  then show thesis by (intro that[of "int m"]) (simp_all add: Itoa_def zle_int[symmetric] zdiv_int assms(2))
qed

section \<open>Prefixes of a service file\<close>

lemma torn_accept_word:
  assumes "prefix t ''accept = 127.0.0.1:''"
  shows "scan_accept ini rng n [t] \<noteq> Some (Inr q)"
proof -
  have "t \<in> set (prefixes ''accept = 127.0.0.1:'')" using assms by (simp only: in_set_prefixes)
  moreover have "list_all (\<lambda>t. case scan_accept ini rng n [t] of Some (Inr _) \<Rightarrow> False | _ \<Rightarrow> True) (prefixes ''accept = 127.0.0.1:'')"
    by code_simp
  ultimately have "case scan_accept ini rng n [t] of Some (Inr _) \<Rightarrow> False | _ \<Rightarrow> True"
    unfolding list_all_iff by (rule bspec[rotated])
  then show ?thesis by (auto split: option.splits)
qed

text \<open>A line that starts with another character than \<open>accept\<close> does is skipped, whatever follows.\<close>

lemma TrimRightSpace_prefix: "prefix (TrimRightSpace s) s"
proof (induction s rule: TrimRightSpace.induct)
  case (1 s)
  show ?case
  proof (cases "find (HasSuffix s) space_runes")
    case (Some w)
    then show ?thesis using "1.IH"[OF Some] take_is_prefix prefix_order.trans by (subst TrimRightSpace.simps) fastforce
  qed (subst TrimRightSpace.simps, simp)
qed

lemma scan_accept_other:
  assumes "graphic c" "c \<noteq> CHR ''a''"
  shows "scan_accept ini rng n ((c # s) # rest) = scan_accept ini rng (Suc n) rest"
proof -
  have "prefix (TrimSpace (c # s)) (c # s)" using TrimRightSpace_prefix assms(1) by (simp add: TrimSpace_def TrimLeftSpace_graphic)
  then have "\<not> HasPrefix (TrimSpace (c # s)) ''accept''" using assms(2) by (auto simp: prefix_Cons HasPrefix_iff)
  then show ?thesis by (simp add: Let_def)
qed

lemma scan_lines_single:
  assumes "newline \<notin> set a" "length a \<le> max_line"
  shows "scan_lines a = (if a = [] then [] else [dropCR a])"
  using assms Split_no_sep[OF assms(1)] by (auto simp: scan_lines_def raw_lines_def Let_def)

text \<open>A line that was cut off is still a line without a newline, and not longer.\<close>

lemma scan_lines_prefix:
  assumes "prefix t a" "newline \<notin> set a" "length a \<le> max_line"
  shows "scan_lines t = (if t = [] then [] else [dropCR t])"
  using assms set_mono_prefix[OF assms(1)] prefix_length_le[OF assms(1)] by (intro scan_lines_single) auto

lemma dropCR_Cons: "c \<noteq> CHR 0x0D \<Longrightarrow> \<exists>s'. dropCR (c # s) = c # s'"
  by (auto simp: dropCR_def)

lemma torn_first_lines:
  assumes "prefix t (c # a)" "newline \<notin> set (c # a)" "length (c # a) \<le> max_line" "graphic c" "c \<noteq> CHR ''a''"
  shows "scan_accept ini rng n (scan_lines t) = None"
proof (cases t)
  case (Cons d s)
  then have "d = c" using assms(1) by simp
  moreover have "c \<noteq> CHR 0x0D" using assms(4) by (auto simp: graphic_def)
  ultimately obtain s' where "dropCR t = c # s'" using dropCR_Cons[of c s] Cons by auto
  then show ?thesis using scan_lines_prefix[OF assms(1-3)] Cons scan_accept_other[OF assms(4,5), of ini rng n s' "[]"] by simp
qed (simp add: scan_lines_def)

lemma torn_accept_line:
  assumes "prefix t (''accept = 127.0.0.1:'' @ Itoa p)" "0 \<le> p" "p < 2 ^ 63" "p < 10 * ini"
    "scan_accept ini rng n (scan_lines t) = Some (Inr q)"
  shows "q = p"
proof -
  have "newline \<notin> set (''accept = 127.0.0.1:'' @ Itoa p)" "CHR 0x0D \<notin> set (''accept = 127.0.0.1:'' @ Itoa p)"
    using Itoa_line[OF assms(2)] by (auto simp: newline_def)
  moreover have "length (''accept = 127.0.0.1:'' @ Itoa p) \<le> max_line" using length_Itoa[OF assms(2,3)] by (simp add: max_line_def)
  ultimately have lines: "scan_lines t = (if t = [] then [] else [t])"
    using scan_lines_prefix[OF assms(1)] set_mono_prefix[OF assms(1)] dropCR_id[of t] last_in_set[of t] by fastforce
  with assms(5) have scan: "scan_accept ini rng n [t] = Some (Inr q)" by (auto split: if_splits)
  from assms(1) consider "prefix t ''accept = 127.0.0.1:''" | d where "t = ''accept = 127.0.0.1:'' @ d" "prefix d (Itoa p)"
    unfolding prefix_append by blast
  then show ?thesis
  proof cases
    case 1
    then show ?thesis using torn_accept_word[of t ini rng n q] scan by simp
  next
    case (2 d)
    consider "d = []" | "d = Itoa p" | "d \<noteq> []" "d \<noteq> Itoa p" by blast
    then show ?thesis
    proof cases
      case 1
      then show ?thesis using torn_accept_word[of t ini rng n q] scan 2(1) by simp
    next
      case full: 2
      then show ?thesis using scan scan_accept_address[OF assms(2,3), of ini rng n "[]"] 2(1) by (auto split: if_splits)
    next
      case 3
      obtain m where m: "d = Itoa m" "0 \<le> m" "m \<le> p div 10" by (rule prefix_Itoa[OF 2(2) assms(2) 3])
      then have "m < ini" "m < 2 ^ 63" using assms(3,4) by linarith+
      then show ?thesis using scan scan_accept_address[of m ini rng n "[]"] m 2(1) by (auto split: if_splits)
    qed
  qed
qed


text \<open>What recovery reads from any prefix of a service file.\<close>

lemma torn_config_port:
  assumes "prefix t (buildTunnelConfig sm v srv p)" "newline \<notin> set v" "length v + 2 \<le> max_line" "0 \<le> p" "p < 2 ^ 63"
    "ini \<le> p" "p < ini + rng" "p < 10 * ini" "scan_accept ini rng 0 (scan_lines t) = Some (Inr q)"
  shows "q = p"
proof -
  let ?l1 = "''['' @ v @ '']''" and ?l3 = "''accept = 127.0.0.1:'' @ Itoa p"
  obtain rest where cfg: "buildTunnelConfig sm v srv p = ?l1 @ newline # ''client = yes'' @ newline # ?l3 @ newline # rest"
    unfolding buildTunnelConfig_def by auto
  have l1: "newline \<notin> set ?l1" "length ?l1 \<le> max_line" using assms(2,3) by (auto simp: newline_def)
  have l2: "newline \<notin> set ''client = yes''" "length ''client = yes'' \<le> max_line" by (simp_all add: newline_def max_line_def)
  have l3: "newline \<notin> set ?l3" "length ?l3 \<le> max_line" "dropCR ?l3 = ?l3"
    using Itoa_line[OF assms(4)] length_Itoa[OF assms(4,5)] by (auto simp: newline_def max_line_def intro!: dropCR_id)
  have skip1: "scan_accept ini rng 0 (scan_lines (?l1 @ newline # u)) = scan_accept ini rng 1 (scan_lines u)" for u
    using scan_lines_append[OF l1, of u] scan_accept_other[of "CHR ''[''" ini rng 0 "v @ '']''" "scan_lines u"] by (simp add: dropCR_def graphic_def)
  have skip2: "scan_accept ini rng n (scan_lines (''client = yes'' @ newline # u)) = scan_accept ini rng (Suc n) (scan_lines u)" for n u
    using scan_lines_append[OF l2, of u] scan_accept_other[of "CHR ''c''" ini rng n "''lient = yes''" "scan_lines u"] by (simp add: dropCR_def graphic_def)
  from assms(1) consider "prefix t ?l1" | u where "t = ?l1 @ newline # u" "prefix u ''client = yes''"
    | u where "t = ?l1 @ newline # ''client = yes'' @ newline # u" "prefix u ?l3"
    | u where "t = ?l1 @ newline # ''client = yes'' @ newline # ?l3 @ newline # u"
    unfolding cfg by (auto simp: prefix_append prefix_Cons)
  then show ?thesis
  proof cases
    case 1
    then show ?thesis using torn_first_lines[of t "CHR ''[''" "v @ '']''" ini rng 0] l1 assms(9) by (simp add: graphic_def)
  next
    case (2 u)
    then show ?thesis using torn_first_lines[of u "CHR ''c''" "''lient = yes''" ini rng 1] l2 assms(9) skip1 by (simp add: graphic_def)
  next
    case (3 u)
    then show ?thesis using torn_accept_line[OF 3(2) assms(4,5,8), of rng 2 q] assms(9) skip1 skip2 by (simp add: numeral_2_eq_2)
  next
    case (4 u)
    then show ?thesis using assms(9) skip1 skip2 scan_lines_append[OF l3(1,2), of u] scan_accept_line[OF assms(4-7), of 2 "scan_lines u"] l3(3)
      by (simp add: numeral_2_eq_2 del: scan_accept.simps)
  qed
qed

section \<open>The directory after a crash during a write\<close>

lemma disk_inv_torn:
  assumes "disk_inv sm fs" "good_volume_id v" "sane_range sm" "fmlookup (allocatedPorts sm) v = None"
    "initialPort sm \<le> p" "p < initialPort sm + portRange sm" "p < 10 * initialPort sm" "prefix t (buildTunnelConfig sm v srv p)"
  shows "disk_inv sm (fmupd (config_path sm v) (File t) fs) \<or> disk_inv (restore_port v p sm) (fmupd (config_path sm v) (File t) fs)"
proof -
  let ?fs = "fmupd (config_path sm v) (File t) fs"
  have cd: "clean_dir (servicesDir sm)" and dir: "fmlookup fs (servicesDir sm) = Some Dir" and nos: "CHR ''/'' \<notin> set v"
    using assms(1,2) by (auto simp: disk_inv_def good_volume_id_def)
  note path = config_path_plain[OF cd nos]
  have dir': "fmlookup ?fs (servicesDir sm) = Some Dir" using dir by (simp add: path)
  have other: "file_port sm ?fs u = fmlookup (allocatedPorts sm) u" if "CHR ''/'' \<notin> set u" "u \<noteq> v" for u
    using that assms(1) file_port_other[of ?fs sm u fs] by (simp add: path disk_inv_def)
  have range: "0 \<le> p" "p < 2 ^ 63" using assms(3,5,6) by (auto simp: sane_range_def)
  have id: "newline \<notin> set v" "length v + 2 \<le> max_line" using assms(2) by (simp_all add: good_volume_id_def)
  have "file_port sm ?fs v = None \<or> file_port sm ?fs v = Some p"
    using torn_config_port[OF assms(8) id range assms(5-7)] by (auto simp: file_port_def path split: option.splits sum.splits)
  then show ?thesis
  proof
    assume none: "file_port sm ?fs v = None"
    have "file_port sm ?fs u = fmlookup (allocatedPorts sm) u" if "CHR ''/'' \<notin> set u" for u
      using other[OF that] none assms(4) by (cases "u = v") simp_all
    then show ?thesis using assms(1) dir' by (simp add: disk_inv_def)
  next
    assume some: "file_port sm ?fs v = Some p"
    have "file_port (restore_port v p sm) ?fs u = fmlookup (allocatedPorts (restore_port v p sm)) u" if "CHR ''/'' \<notin> set u" for u
      using other[OF that] some
      by (cases "u = v") (simp_all add: file_port_same[of sm "restore_port v p sm"], simp_all add: restore_port_def)
    then show ?thesis using assms(1) dir' nos by (auto simp: disk_inv_def restore_port_def split: if_splits)
  qed
qed

end
