(* ===== verification/Node_Crash.thy ===== *)
theory Node_Crash
  imports Node_Restart Torn_Write
begin

text \<open>
  Crashes of the node server in the middle of a call. What a crash leaves are the mounts and the service files as they are
  at that point; a new manager then reads the files. The points inside a call at which mounts or files differ from those
  before and after it are: after the check of the target, while the service file is being written, and inside the mount
  with its clean-up; an unpublish call unmounts first and unlinks the file last. The invariant of \<open>Node_Restart\<close> holds
  after every such crash.
\<close>

section \<open>Points inside a mount\<close>

text \<open>What the clean-up of a failed mount does to the mounter, in any order.\<close>

inductive cleanup_step :: "'m mounter \<Rightarrow> string \<Rightarrow> 'm \<Rightarrow> 'm \<Rightarrow> bool" for M t where
  looked: "mIsLikelyNotMountPoint M t s = (x, s') \<Longrightarrow> cleanup_step M t s s'"
| unmounted: "mUnmount M t s = (e, s') \<Longrightarrow> cleanup_step M t s s'"
| removed: "mRemove M t s = (e, s') \<Longrightarrow> cleanup_step M t s s'"

definition mount_call :: "'m mounter \<Rightarrow> string \<Rightarrow> mount_plan \<Rightarrow> string \<Rightarrow> 'm \<Rightarrow> os_error option \<times> 'm" where
  "mount_call M rid p t s =
     (if planFsType p \<noteq> eitFsType then mMount M (planSource p) t (planFsType p) (planOptions p) s
      else (case mMountEITBasedFileShare M (planSource p) t (planFsType p) (planEncryption p) rid s of ((_, err), s1) \<Rightarrow> (err, s1)))"

inductive mount_point :: "'m mounter \<Rightarrow> string \<Rightarrow> mount_plan \<Rightarrow> string \<Rightarrow> 'm \<Rightarrow> 'm \<Rightarrow> bool" for M rid p t s where
  before: "mount_point M rid p t s s"
| made_dir: "mMakeDir M t s = (e, s1) \<Longrightarrow> mount_point M rid p t s s1"
| mounting: "mMakeDir M t s = (None, s1) \<Longrightarrow> mount_call M rid p t s1 = (err, s2) \<Longrightarrow> mount_point M rid p t s s2"
| cleaning: "mMakeDir M t s = (None, s1) \<Longrightarrow> mount_call M rid p t s1 = (Some err, s2) \<Longrightarrow> (cleanup_step M t)\<^sup>*\<^sup>* s2 s3 \<Longrightarrow>
    mount_point M rid p t s s3"

text \<open>The points of \<open>processMount\<close>, its end included, are among them.\<close>

lemma mount_failed_cleanup:
  assumes "mount_failed M order t fs err s = (r, s')"
  shows "(cleanup_step M t)\<^sup>*\<^sup>* s s'"
proof -
  obtain b e s1 where c1: "mIsLikelyNotMountPoint M t s = ((b, e), s1)" by (metis prod.exhaust)
  obtain e2 s2 where u: "mUnmount M t s1 = (e2, s2)" by (metis prod.exhaust)
  obtain b3 e3 s3 where c3: "mIsLikelyNotMountPoint M t s2 = ((b3, e3), s3)" by (metis prod.exhaust)
  have rm: "cleanup_step M t x (snd (mRemove M t x))" for x using removed[of M t x "fst (mRemove M t x)"] by simp
  have "s' \<in> {s1, s2, s3, snd (mRemove M t s1), snd (mRemove M t s3)}"
    using assms c1 u c3 by (auto simp: mount_failed_def Let_def split: option.splits bool.splits)
  moreover have "(cleanup_step M t)\<^sup>*\<^sup>* s s1" "(cleanup_step M t)\<^sup>*\<^sup>* s1 s2" "(cleanup_step M t)\<^sup>*\<^sup>* s2 s3"
    using looked[OF c1] unmounted[OF u] looked[OF c3] by blast+
  ultimately show ?thesis using rm[of s1] rm[of s3] by (elim insertE emptyE) (auto intro: rtranclp_trans rtranclp.rtrancl_into_rtrancl)
qed

lemma processMount_call:
  "processMount M order rid (planSource p) t (planFsType p) (planEncryption p) (planOptions p) s =
     (case mMakeDir M t s of
        (Some e, s1) \<Rightarrow> (Err (CSIError TargetPathCreateFailed), s1)
      | (None, s1) \<Rightarrow>
          (case mount_call M rid p t s1 of
             (Some err, s2) \<Rightarrow> mount_failed M order t (planFsType p) err s2
           | (None, s2) \<Rightarrow> (Ok (), s2)))"
  by (simp only: processMount_def mount_call_def)

lemma processMount_point:
  assumes "processMount M order rid (planSource p) t (planFsType p) (planEncryption p) (planOptions p) s = (r, s')"
  shows "mount_point M rid p t s s'"
proof -
  obtain e s1 where mk: "mMakeDir M t s = (e, s1)" by (metis prod.exhaust)
  obtain err s2 where m: "mount_call M rid p t s1 = (err, s2)" by (metis prod.exhaust)
  have run: "(case e of Some x \<Rightarrow> (Err (CSIError TargetPathCreateFailed), s1)
      | None \<Rightarrow> (case err of Some err \<Rightarrow> mount_failed M order t (planFsType p) err s2 | None \<Rightarrow> (Ok (), s2))) = (r, s')"
    using assms mk m unfolding processMount_call by (cases e) simp_all
  show ?thesis
  proof (cases e)
    case (Some x)
    then show ?thesis using run made_dir[OF mk] by simp
  next
    case None
    then show ?thesis
      using run mounting[of M t s s1 rid p err s2] cleaning[of M t s s1 rid p _ s2 s'] mk m mount_failed_cleanup
      by (cases err) fastforce+
  qed
qed

lemma cleanup_mounted:
  assumes "mounter_ok M mounted" "(cleanup_step M t)\<^sup>*\<^sup>* s s'"
  shows "mounted s' \<subseteq> mounted s"
  using assms(2)
proof (induction rule: rtranclp_induct)
  case (step y z)
  from step(2) have "mounted z \<subseteq> mounted y" by cases (erule mounter_okD[OF assms(1)])+
  then show ?case using step.IH by blast
qed simp

lemma mount_point_mounted:
  assumes "mounter_ok M mounted" "mount_point M rid p t s s'"
  shows "mounted s' \<subseteq> insert (planSource p, t, planFsType p, if planFsType p = eitFsType then [planEncryption p] else planOptions p) (mounted s)"
proof -
  note D = mounter_okD[OF assms(1)]
  have call: "mounted s2 \<subseteq> insert (planSource p, t, planFsType p, if planFsType p = eitFsType then [planEncryption p] else planOptions p) (mounted s)"
    if "mMakeDir M t s = (None, s1)" "mount_call M rid p t s1 = (err, s2)" for s1 err s2
  proof -
    have "mounted s2 \<subseteq> insert (planSource p, t, planFsType p, if planFsType p = eitFsType then [planEncryption p] else planOptions p) (mounted s1)"
      using that(2) D(3,4) by (auto simp: mount_call_def split: if_splits prod.splits)
    then show ?thesis using D(2)[OF that(1)] by blast
  qed
  from assms(2) show ?thesis
    by cases (use D(2) call cleanup_mounted[OF assms(1)] in blast)+
qed


section \<open>Crashes\<close>

text \<open>The mounts and the files that a crash can leave behind.\<close>

inductive crash_leaves :: "'m mounter \<Rightarrow> 'm node_state \<Rightarrow> 'm \<Rightarrow> filesys \<Rightarrow> bool" for M st where
  between_calls: "crash_leaves M st (nsMounts st) (files (nsWorld st))"
| target_checked: "mIsLikelyNotMountPoint M t (nsMounts st) = (x, m1) \<Longrightarrow> crash_leaves M st m1 (files (nsWorld st))"
| writing: "mIsLikelyNotMountPoint M t (nsMounts st) = (x, m1) \<Longrightarrow> nsMgr st = Some sm \<Longrightarrow> good_volume_id v \<Longrightarrow>
    fmlookup (allocatedPorts sm) v = None \<Longrightarrow> findAvailablePort bind sm = Inr port \<Longrightarrow> prefix content (buildTunnelConfig sm v srv port) \<Longrightarrow>
    crash_leaves M st m1 (fmupd (config_path sm v) (File content) (files (nsWorld st)))"
| in_mount: "mIsLikelyNotMountPoint M t (nsMounts st) = (x, m1) \<Longrightarrow>
    plan_mount os rid src ctx flags (st\<lparr>nsMounts := m1\<rparr>) = (Ok p, st2) \<Longrightarrow> clean_write os \<Longrightarrow> good_volume_id (map_get ctx FileShareIDLabel) \<Longrightarrow>
    mount_point M rid p t (nsMounts st2) m2 \<Longrightarrow> crash_leaves M st m2 (files (nsWorld st2))"
| unmounting: "mCleanupMountPoint M t (nsMounts st) = (e, m1) \<Longrightarrow> crash_leaves M st m1 (files (nsWorld st))"

text \<open>A call, or a crash followed by a new server, which can read the services directory and its files.\<close>

inductive crash_step ::
  "'m mounter \<Rightarrow> ('m \<Rightarrow> mount_entry set) \<Rightarrow> (string \<times> csi_code) list \<Rightarrow> access_mode list \<Rightarrow> 'm node_state \<Rightarrow> 'm node_state \<Rightarrow> bool"
  for M mounted order modes where
  calls: "life_step M mounted order modes st st' \<Longrightarrow> crash_step M mounted order modes st st'"
| crash: "crash_leaves M st m fs \<Longrightarrow> NewStunnelManager False env statOk no_faults False fs = Inr sm' \<Longrightarrow>
    crash_step M mounted order modes st (st\<lparr>nsMounts := m, nsMgr := Some sm', nsWorld := (nsWorld st)\<lparr>files := fs\<rparr>\<rparr>)"

text \<open>Whatever a crash leaves, some manager would have been in step with it.\<close>

lemma life_inv_fewer:
  assumes "life_inv mounted st" "mounted m \<subseteq> mounted (nsMounts st)"
  shows "life_inv mounted (st\<lparr>nsMounts := m\<rparr>)"
proof -
  have "tunnelled (mounted m) st" using assms tunnelled_mono by (auto simp: life_inv_def node_inv_def)
  then show ?thesis using assms(1) by (auto simp: life_inv_def node_inv_def tunnelled_def port_owner_def)
qed

lemma life_inv_same:
  assumes "life_inv mounted st" "nsMounts st' = nsMounts st" "nsMgr st' = nsMgr st" "files (nsWorld st') = files (nsWorld st)"
  shows "life_inv mounted st'"
  using assms by (simp add: life_inv_def node_inv_def tunnelled_def port_owner_def mgr_ok_def disk_ok_def)

text \<open>A manager whose maps keep every port, on a directory it is in step with.\<close>

lemma life_inv_manager:
  assumes "life_inv mounted st" "nsMgr st = Some sm" "disk_ok (sm', w')" "same_setup sm sm'"
    "\<And>p v. fmlookup (portToVolume sm) p = Some v \<Longrightarrow> fmlookup (portToVolume sm') p = Some v"
  shows "life_inv mounted (st\<lparr>nsMgr := Some sm', nsWorld := w'\<rparr>)"
proof -
  have "mgr_ok (st\<lparr>nsMgr := Some sm', nsWorld := w'\<rparr>)"
    using assms(1) mgr_okI[OF _ assms(2,4,3)] by (simp add: life_inv_def)
  moreover have "tunnelled (mounted (nsMounts st)) (st\<lparr>nsMgr := Some sm', nsWorld := w'\<rparr>)"
  proof (rule tunnelled_owner)
    show "tunnelled (mounted (nsMounts st)) st" using assms(1) by (simp add: life_inv_def node_inv_def)
    show "port_owner (st\<lparr>nsMgr := Some sm', nsWorld := w'\<rparr>) p = Some v" if "port_owner st p = Some v" for p v
      using that assms(5) by (simp add: port_owner_def assms(2))
  qed
  ultimately show ?thesis using assms(3) by (simp add: life_inv_def node_inv_def disk_ok_def)
qed

lemma writing_inv:
  assumes "life_inv mounted st" "nsMgr st = Some sm" "good_volume_id v" "fmlookup (allocatedPorts sm) v = None"
    "findAvailablePort bind sm = Inr port" "prefix content (buildTunnelConfig sm v srv port)"
    "w = (nsWorld st)\<lparr>files := fmupd (config_path sm v) (File content) (files (nsWorld st))\<rparr>"
  shows "\<exists>sm'. life_inv mounted (st\<lparr>nsMgr := Some sm', nsWorld := w\<rparr>)"
proof -
  have ok: "disk_ok (sm, nsWorld st)" and r: "initialPort sm = InitialPort" "portRange sm = PortRange"
    using assms(1,2) by (auto simp: life_inv_def mgr_ok_def)
  then have inv: "port_inv sm" "disk_inv sm (files (nsWorld st))" "sane_range sm" by (simp_all add: disk_ok_def)
  have free: "initialPort sm \<le> port" "port < initialPort sm + portRange sm" "fmlookup (portToVolume sm) port = None"
    using assms(5) by (simp_all add: findAvailablePort_Inr)
  have "port < 10 * initialPort sm" using free r by (simp add: InitialPort_def PortRange_def)
  then have "disk_inv sm (files w) \<or> disk_inv (restore_port v port sm) (files w)"
    using disk_inv_torn[OF inv(2) assms(3) inv(3) assms(4) _ _ _ assms(6)] free assms(7) by simp
  then show ?thesis
  proof
    assume "disk_inv sm (files w)"
    then show ?thesis using life_inv_manager[OF assms(1,2), of sm w] inv by (auto simp: disk_ok_def)
  next
    assume d: "disk_inv (restore_port v port sm) (files w)"
    have "port_inv (restore_port v port sm)" using port_inv_restore[OF inv(1) assms(4) free(3,1,2)] .
    then have "disk_ok (restore_port v port sm, w)" using d inv(3) sane_range_same[of sm "restore_port v port sm"] by (simp add: disk_ok_def)
    then have "life_inv mounted (st\<lparr>nsMgr := Some (restore_port v port sm), nsWorld := w\<rparr>)"
      by (rule life_inv_manager[OF assms(1,2)]) (use free(3) in \<open>auto simp: same_setup_def restore_port_def\<close>)
    then show ?thesis by blast
  qed
qed


lemma in_mount_inv:
  assumes "mounter_ok M mounted" "life_inv mounted st" "plan_mount os rid src ctx flags st = (Ok p, st2)" "clean_write os"
    "good_volume_id (map_get ctx FileShareIDLabel)" "mount_point M rid p t (nsMounts st2) m"
  shows "life_inv mounted (st2\<lparr>nsMounts := m\<rparr>)"
proof -
  have inv: "node_inv mounted st" "mgr_ok st" using assms(2) by (simp_all add: life_inv_def)
  have ports: "\<forall>sm. nsMgr st = Some sm \<longrightarrow> port_inv sm" using inv(1) by (simp add: node_inv_def)
  let ?e = "(planSource p, t, planFsType p, if planFsType p = eitFsType then [planEncryption p] else planOptions p)"
  have keep: "keeps_ports st st2" using plan_mount_keeps[OF assms(3)] .
  have "mounted m \<subseteq> insert ?e (mounted (nsMounts st))"
    using mount_point_mounted[OF assms(1,6)] plan_mount_mounts[OF assms(3)] by simp
  moreover have "tunnelled (mounted (nsMounts st)) st2"
    using inv(1) keep tunnelled_owner[of "mounted (nsMounts st)" st st2] unfolding node_inv_def keeps_ports_def by blast
  moreover have "tunnelled {?e} st2" by (rule plan_mount_tunnelled[OF assms(3) ports])
  ultimately have "tunnelled (mounted m) st2" using tunnelled_insert tunnelled_mono by metis
  then have "tunnelled (mounted m) (st2\<lparr>nsMounts := m\<rparr>)" by (simp add: tunnelled_def port_owner_def)
  moreover have "mgr_ok st2" by (rule plan_mount_mgr_ok[OF inv(2) assms(3-5)])
  moreover have "\<forall>sm. nsMgr st2 = Some sm \<longrightarrow> port_inv sm" using keep ports unfolding keeps_ports_def by blast
  ultimately show ?thesis by (simp add: life_inv_def node_inv_def)
qed

lemma crash_leaves_inv:
  assumes "mounter_ok M mounted" "life_inv mounted st" "crash_leaves M st m fs"
  shows "\<exists>sm. life_inv mounted (st\<lparr>nsMounts := m, nsMgr := Some sm, nsWorld := (nsWorld st)\<lparr>files := fs\<rparr>\<rparr>)"
proof -
  have fewer: ?thesis if "mounted m \<subseteq> mounted (nsMounts st)" "fs = files (nsWorld st)"
  proof -
    obtain sm where "nsMgr st = Some sm" using assms(2) by (auto simp: life_inv_def mgr_ok_def)
    then show ?thesis using that(2) life_inv_same[OF life_inv_fewer[OF assms(2) that(1)]] by (intro exI[of _ sm]) simp
  qed
  from assms(3) show ?thesis
  proof cases
    case between_calls
    then show ?thesis by (intro fewer) simp_all
  next
    case target_checked
    then show ?thesis using mounter_okD(1)[OF assms(1)] by (intro fewer) simp_all
  next
    case unmounting
    then show ?thesis using mounter_okD(6)[OF assms(1)] by (intro fewer) simp_all
  next
    case (writing t x sm v bind port content srv)
    have "life_inv mounted (st\<lparr>nsMounts := m\<rparr>)" using mounter_okD(1)[OF assms(1) writing(2)] by (rule life_inv_fewer[OF assms(2)])
    from writing_inv[OF this _ writing(4-7) refl] obtain sm'
      where "life_inv mounted (st\<lparr>nsMounts := m, nsMgr := Some sm', nsWorld := (nsWorld st)\<lparr>files := fs\<rparr>\<rparr>)"
      using writing(1,3) by auto
    then show ?thesis by blast
  next
    case (in_mount t x m1 os rid src ctx flags p st2)
    have "life_inv mounted (st\<lparr>nsMounts := m1\<rparr>)" using mounter_okD(1)[OF assms(1) in_mount(2)] by (rule life_inv_fewer[OF assms(2)])
    from in_mount_inv[OF assms(1) this in_mount(3-6)] have inv: "life_inv mounted (st2\<lparr>nsMounts := m\<rparr>)" .
    then obtain sm where "nsMgr st2 = Some sm" by (auto simp: life_inv_def mgr_ok_def)
    then show ?thesis using life_inv_same[OF inv] in_mount(1) by (intro exI[of _ sm]) simp
  qed
qed

lemma crash_step_inv:
  assumes "mounter_ok M mounted" "crash_step M mounted order modes st st'" "life_inv mounted st"
  shows "life_inv mounted st'"
  using assms(2)
proof cases
  case calls
  then show ?thesis using life_step_inv[OF assms(1)] assms(3) by blast
next
  case (crash m fs env statOk sm')
  obtain sm where inv: "life_inv mounted (st\<lparr>nsMounts := m, nsMgr := Some sm, nsWorld := (nsWorld st)\<lparr>files := fs\<rparr>\<rparr>)" (is "life_inv mounted ?st")
    using crash_leaves_inv[OF assms(1,3) crash(2)] by blast
  have "life_step M mounted order modes ?st (?st\<lparr>nsMgr := Some sm'\<rparr>)" using crash(3) by (intro life_restart) simp
  from life_inv_same[OF life_step_inv[OF assms(1) this inv]] show ?thesis by (simp add: crash(1))
qed

interpretation crashes: step_system "crash_step M mounted order modes" "\<lambda>st. mounter_ok M mounted \<and> life_inv mounted st" for M mounted order modes
  by unfold_locales (auto intro: crash_step_inv)


section \<open>Properties\<close>

text \<open>C4: mounts survive restarts and crashes of the node server. From a node with nothing mounted and consistent files,
  after any sequence of publish and unpublish calls (service files being written completely or not at all unless the
  server dies), restarts, and crashes at any point of a call, a service file cut off at any byte included, every share
  that is mounted as nfs4 goes through a port that the current manager holds for a share whose service file on disk
  names this port, so that a further restart finds it again. The service files are assumed readable when a new manager
  starts.\<close>

theorem mounts_survive_crashes:
  assumes "mounter_ok M mounted" "mgr_ok st" "mounted (nsMounts st) = {}"
    "(crash_step M mounted order modes)\<^sup>*\<^sup>* st st'" "(src, t, nfs4FsType, opts) \<in> mounted (nsMounts st')"
  shows "\<exists>sm p v. nsMgr st' = Some sm \<and> fmlookup (allocatedPorts sm) v = Some p \<and> last opts = ''port='' @ Itoa p \<and>
    file_port sm (files (nsWorld st')) v = Some p"
proof -
  have "life_inv mounted st" using assms(2,3) start_inv[of st] by (auto simp: life_inv_def mgr_ok_def disk_ok_def)
  then have "life_inv mounted st'" using crashes.run_keeps[OF assms(4)] assms(1) by blast
  then show ?thesis using assms(5) by (rule life_inv_served)
qed

text \<open>A crash just before a publish call returns.\<close>

lemma publish_crash:
  assumes "NodePublishVolume M order modes os rid req st = (r, st')" "clean_write os" "good_volume_id (map_get (pubContext req) FileShareIDLabel)"
    "nsMounts st' \<noteq> snd (mIsLikelyNotMountPoint M (pubTarget req) (nsMounts st))" "nsMounts st' \<noteq> nsMounts st"
  shows "crash_leaves M st (nsMounts st') (files (nsWorld st'))"
  using assms(1)
proof (cases rule: NodePublishVolume_cases)
  case (mount cap err m1 flags q st2 m2)
  have "mount_point M rid q (pubTarget req) (nsMounts st2) m2" by (rule processMount_point[OF mount(5)])
  then show ?thesis using in_mount[OF mount(1,4) assms(2,3)] mount(6) by simp
qed (use assms(4,5) in \<open>auto dest: plan_mount_mounts\<close>)

theorem mounts_survive_crashes_witness:
  "\<exists>st sm' p v. (crash_step table_mounter set mount_errors [MULTI_NODE_MULTI_WRITER])\<^sup>*\<^sup>* (demo_node []) st \<and>
     nsMgr st = Some sm' \<and> nsMounts st = [(''127.0.0.1:/share'', ''/pod1'', nfs4FsType, [''vers=4.1'', ''port='' @ Itoa 11300])] \<and>
     fmlookup (allocatedPorts sm') v = Some p \<and> ''port='' @ Itoa 11300 = ''port='' @ Itoa p"
proof -
  let ?step = "crash_step table_mounter set mount_errors [MULTI_NODE_MULTI_WRITER]"
  obtain st where r: "NodePublishVolume table_mounter mount_errors [MULTI_NODE_MULTI_WRITER] demo_os ''r''
      (demo_publish ''rfs'' ''true'') (demo_node []) = (Ok (), st)"
    "nsMounts st = [(''127.0.0.1:/share'', ''/pod1'', nfs4FsType, [''vers=4.1'', ''port='' @ Itoa 11300])]"
    using demo_rfs_mounted by blast
  have left: "crash_leaves table_mounter (demo_node []) (nsMounts st) (files (nsWorld st))"
    by (rule publish_crash[OF r(1)]) (simp_all add: r(2) clean_write_def demo_publish_def good_id_intro newline_def table_mounter_def demo_node_def)
  obtain sm' where new: "NewStunnelManager False (fmupd ''OS_TYPE'' ''Ubuntu'' fmempty) (\<lambda>_. True) no_faults False (files (nsWorld st)) = Inr sm'"
    using ubuntu_manager[of "fmupd ''OS_TYPE'' ''Ubuntu'' fmempty" no_faults False "files (nsWorld st)"] by (auto simp: Getenv_def)
  define st' where "st' = (demo_node [])\<lparr>nsMounts := nsMounts st, nsMgr := Some sm', nsWorld := (nsWorld (demo_node [] :: mount_entry list node_state))\<lparr>files := files (nsWorld st)\<rparr>\<rparr>"
  have st': "?step (demo_node []) st'" "nsMgr st' = Some sm'" "nsMounts st' = nsMounts st"
    unfolding st'_def by (rule crash[OF left new], simp_all)
  then have steps: "?step\<^sup>*\<^sup>* (demo_node []) st'" by blast
  have "(''127.0.0.1:/share'', ''/pod1'', nfs4FsType, [''vers=4.1'', ''port='' @ Itoa 11300]) \<in> set (nsMounts st')" using r(2) st'(3) by simp
  from mounts_survive_crashes[OF table_mounter_ok demo_mgr_ok _ steps this] show ?thesis using steps st' r(2) by (auto simp: demo_node_def)
qed

end
