(* ===== verification/Node_Overlap.thy ===== *)
theory Node_Overlap
  imports Node_System
begin

text \<open>
  Node calls that overlap. The driver serialises calls by target path only, so between the moment a publish has its
  tunnel and the moment it mounts, calls for other targets run. Here a publish is two steps, an unpublish is an
  unmount and a removal of the tunnel, and all these interleave. The invariant of \<open>Node_System\<close> survives under one
  condition that the code does not enforce: no tunnel is removed while a publish of the same share is between its
  two steps. The run at the end of \<open>Node_System\<close> shows that the condition is needed.
\<close>

section \<open>Steps\<close>

text \<open>The publishes between their two steps: target, share and plan.\<close>

record 'm overlap =
  ovNode :: "'m node_state"
  ovPending :: "(string \<times> string \<times> mount_plan) list"

definition locked :: "'m overlap \<Rightarrow> string set" where
  "locked s = fst ` set (ovPending s)"

definition publishing :: "'m overlap \<Rightarrow> string set" where
  "publishing s = (\<lambda>x. fst (snd x)) ` set (ovPending s)"

inductive overlap_step ::
  "'m mounter \<Rightarrow> ('m \<Rightarrow> mount_entry set) \<Rightarrow> (string \<times> csi_code) list \<Rightarrow> 'm overlap \<Rightarrow> 'm overlap \<Rightarrow> bool"
  for M mounted order where
  pub_plan: "mIsLikelyNotMountPoint M t (nsMounts (ovNode s)) = ((True, err), m1) \<Longrightarrow> t \<notin> locked s \<Longrightarrow>
    plan_mount os rid src ctx flags ((ovNode s)\<lparr>nsMounts := m1\<rparr>) = (res, st2) \<Longrightarrow>
    overlap_step M mounted order s
      \<lparr>ovNode = st2,
       ovPending = (case res of Ok p \<Rightarrow> (t, map_get ctx FileShareIDLabel, p) # ovPending s | _ \<Rightarrow> ovPending s)\<rparr>"
| pub_mount: "(t, v, p) \<in> set (ovPending s) \<Longrightarrow>
    processMount M order rid (planSource p) t (planFsType p) (planEncryption p) (planOptions p) (nsMounts (ovNode s)) = (r, m2) \<Longrightarrow>
    overlap_step M mounted order s \<lparr>ovNode = (ovNode s)\<lparr>nsMounts := m2\<rparr>, ovPending = remove1 (t, v, p) (ovPending s)\<rparr>"
| unpub_unmount: "t \<notin> locked s \<Longrightarrow> mCleanupMountPoint M t (nsMounts (ovNode s)) = (e, m1) \<Longrightarrow>
    overlap_step M mounted order s (s\<lparr>ovNode := (ovNode s)\<lparr>nsMounts := m1\<rparr>\<rparr>)"
| unpub_remove: "nsMgr (ovNode s) = Some sm \<Longrightarrow> v \<notin> publishing s \<Longrightarrow>
    RemoveTunnel os v rid (sm, nsWorld (ovNode s)) = (x, sm', w') \<Longrightarrow>
    (\<And>data. procMounts os = Some data \<Longrightarrow> proc_shows (mounted (nsMounts (ovNode s))) data) \<Longrightarrow>
    overlap_step M mounted order s (s\<lparr>ovNode := (ovNode s)\<lparr>nsMgr := Some sm', nsWorld := w'\<rparr>\<rparr>)"
| timer: "nsMgr (ovNode s) = Some sm \<Longrightarrow> debounce_expire pg kl (sm, nsWorld (ovNode s)) = (sm', w') \<Longrightarrow>
    overlap_step M mounted order s (s\<lparr>ovNode := (ovNode s)\<lparr>nsMgr := Some sm', nsWorld := w'\<rparr>\<rparr>)"

section \<open>Invariant\<close>

definition pending_ok :: "(string \<times> string \<times> mount_plan) set \<Rightarrow> 'm node_state \<Rightarrow> bool" where
  "pending_ok ps st \<longleftrightarrow> (\<forall>(t, v, p) \<in> ps. planFsType p = nfs4FsType \<longrightarrow> HasPrefix (planSource p) ''127.0.0.1:'' \<and>
     (\<exists>q. last (planOptions p) = ''port='' @ Itoa q \<and> port_owner st q = Some v))"

definition overlap_inv :: "('m \<Rightarrow> mount_entry set) \<Rightarrow> 'm overlap \<Rightarrow> bool" where
  "overlap_inv mounted s \<longleftrightarrow> node_inv mounted (ovNode s) \<and> pending_ok (set (ovPending s)) (ovNode s)"

lemma pending_ok_owner:
  "pending_ok ps st \<Longrightarrow> (\<And>q v. port_owner st q = Some v \<Longrightarrow> v \<in> (\<lambda>x. fst (snd x)) ` ps \<Longrightarrow> port_owner st' q = Some v) \<Longrightarrow>
    pending_ok ps st'"
  unfolding pending_ok_def by (fastforce simp: image_iff)

lemma pending_ok_mounts [simp]: "pending_ok ps (st\<lparr>nsMounts := m\<rparr>) = pending_ok ps st"
  by (simp add: pending_ok_def port_owner_def)

lemma pending_ok_insert: "pending_ok {x} st \<Longrightarrow> pending_ok ps st \<Longrightarrow> pending_ok (insert x ps) st"
  by (simp add: pending_ok_def)

lemma pending_ok_mono: "pending_ok ps st \<Longrightarrow> qs \<subseteq> ps \<Longrightarrow> pending_ok qs st"
  unfolding pending_ok_def by blast

lemma node_inv_mounts:
  "node_inv mounted st \<Longrightarrow> mounted m \<subseteq> mounted (nsMounts st) \<Longrightarrow> node_inv mounted (st\<lparr>nsMounts := m\<rparr>)"
  using tunnelled_mono[of "mounted (nsMounts st)" st "mounted m"] by (auto simp: node_inv_def tunnelled_def port_owner_def)

lemma node_inv_keeps:
  assumes "node_inv mounted st" "keeps_ports st st'" "nsMounts st' = nsMounts st"
  shows "node_inv mounted st'"
  using assms tunnelled_owner[of "mounted (nsMounts st)" st st'] by (auto simp: node_inv_def keeps_ports_def)

lemma plan_inv:
  assumes "overlap_inv mounted s" "mounted m1 \<subseteq> mounted (nsMounts (ovNode s))"
    "plan_mount os rid src ctx flags ((ovNode s)\<lparr>nsMounts := m1\<rparr>) = (res, st2)"
  shows "node_inv mounted st2" "pending_ok (set (ovPending s)) st2"
    "res = Ok p \<Longrightarrow> pending_ok {(t, map_get ctx FileShareIDLabel, p)} st2"
proof -
  let ?st1 = "(ovNode s)\<lparr>nsMounts := m1\<rparr>"
  have inv: "node_inv mounted ?st1" "pending_ok (set (ovPending s)) ?st1"
    using assms(1) node_inv_mounts[OF _ assms(2)] by (simp_all add: overlap_inv_def)
  note keeps = plan_mount_keeps[OF assms(3)]
  show "node_inv mounted st2" using node_inv_keeps[OF inv(1) keeps plan_mount_mounts[OF assms(3)]] .
  show "pending_ok (set (ovPending s)) st2" using pending_ok_owner[OF inv(2)] keeps by (auto simp: keeps_ports_def)
  have "\<forall>sm. nsMgr ?st1 = Some sm \<longrightarrow> port_inv sm" using inv(1) by (simp add: node_inv_def)
  then show "pending_ok {(t, map_get ctx FileShareIDLabel, p)} st2" if "res = Ok p"
    using plan_mount_owner[of os rid src ctx flags ?st1 p st2] assms(3) that by (simp add: pending_ok_def)
qed

lemma mount_inv:
  assumes "mounter_ok M mounted" "overlap_inv mounted s" "(t, v, p) \<in> set (ovPending s)"
    "processMount M order rid (planSource p) t (planFsType p) (planEncryption p) (planOptions p) (nsMounts (ovNode s)) = (r, m2)"
  shows "node_inv mounted ((ovNode s)\<lparr>nsMounts := m2\<rparr>)"
proof -
  have "tunnelled {(planSource p, t, planFsType p, if planFsType p = eitFsType then [planEncryption p] else planOptions p)} (ovNode s)"
    using assms(2,3) by (fastforce simp: overlap_inv_def pending_ok_def tunnelled_def nfs4FsType_def eitFsType_def)
  then have "tunnelled (mounted m2) (ovNode s)"
    using processMount_mounted[OF assms(1,4)] assms(2) unfolding overlap_inv_def node_inv_def tunnelled_def by blast
  then show ?thesis using assms(2) by (simp add: overlap_inv_def node_inv_def tunnelled_def port_owner_def)
qed

lemma remove_inv:
  assumes "overlap_inv mounted s" "nsMgr (ovNode s) = Some sm" "v \<notin> publishing s"
    "RemoveTunnel os v rid (sm, nsWorld (ovNode s)) = (x, sm', w')"
    "\<And>data. procMounts os = Some data \<Longrightarrow> proc_shows (mounted (nsMounts (ovNode s))) data"
  defines "st' \<equiv> (ovNode s)\<lparr>nsMgr := Some sm', nsWorld := w'\<rparr>"
  shows "node_inv mounted st'" "pending_ok (set (ovPending s)) st'"
proof -
  have inv: "node_inv mounted (ovNode s)" "port_inv sm" using assms(1,2) by (simp_all add: overlap_inv_def node_inv_def)
  have own: "port_owner st' q = Some u" if "port_owner (ovNode s) q = Some u" "u = v \<Longrightarrow> isTunnelPortInUse (procMounts os) q" for q u
    using RemoveTunnel_owner[OF inv(2) assms(4)] that assms(2) by (simp add: port_owner_def st'_def)
  have "tunnelled (mounted (nsMounts (ovNode s))) st'"
    unfolding tunnelled_def
  proof (clarify, intro conjI)
    fix src t fs opts
    assume e: "(src, t, nfs4FsType, opts) \<in> mounted (nsMounts (ovNode s))"
    then obtain q u where q: "HasPrefix src ''127.0.0.1:''" "last opts = ''port='' @ Itoa q" "port_owner (ovNode s) q = Some u"
      using inv(1) unfolding node_inv_def tunnelled_def by fast
    then show "HasPrefix src ''127.0.0.1:''" by simp
    have "isTunnelPortInUse (procMounts os) q" using mounted_port_in_use[OF assms(5) e q(1,2)] .
    then show "\<exists>p v. last opts = ''port='' @ Itoa p \<and> port_owner st' p = Some v" using own q by blast
  qed
  then show "node_inv mounted st'" using RemoveTunnel_port_inv[OF inv(2) assms(4)] by (simp add: node_inv_def st'_def)
  show "pending_ok (set (ovPending s)) st'"
  proof (rule pending_ok_owner)
    show "pending_ok (set (ovPending s)) (ovNode s)" using assms(1) by (simp add: overlap_inv_def)
    show "port_owner st' q = Some u" if "port_owner (ovNode s) q = Some u" "u \<in> (\<lambda>x. fst (snd x)) ` set (ovPending s)" for q u
      using own that assms(3) by (auto simp: publishing_def)
  qed
qed

lemma overlap_step_inv:
  assumes "mounter_ok M mounted" "overlap_step M mounted order s s'" "overlap_inv mounted s"
  shows "overlap_inv mounted s'"
  using assms(2)
proof cases
  case (pub_plan t err m1 os rid src ctx flags res st2)
  note inv = plan_inv[OF assms(3) mounter_okD(1)[OF assms(1) pub_plan(2)] pub_plan(4)]
  show ?thesis
    unfolding pub_plan(1) overlap_inv_def using inv(1,2) inv(3)[of _ t]
    by (cases res) (auto intro: pending_ok_insert)
next
  case (pub_mount t v p rid r m2)
  have "pending_ok (set (remove1 (t, v, p) (ovPending s))) (ovNode s)"
    by (rule pending_ok_mono[OF _ set_remove1_subset]) (use assms(3) in \<open>simp add: overlap_inv_def\<close>)
  then show ?thesis using mount_inv[OF assms(1,3) pub_mount(2,3)] by (simp add: overlap_inv_def pub_mount(1))
next
  case (unpub_unmount t e m1)
  then show ?thesis
    using assms(3) node_inv_mounts[OF _ mounter_okD(6)[OF assms(1) unpub_unmount(3)]] by (simp add: overlap_inv_def)
next
  case (unpub_remove sm v os rid x sm' w')
  then show ?thesis using remove_inv[OF assms(3) unpub_remove(2-5)] by (simp add: overlap_inv_def)
next
  case (timer sm pg kl sm' w')
  let ?st' = "(ovNode s)\<lparr>nsMgr := Some sm', nsWorld := w'\<rparr>"
  have keeps: "keeps_ports (ovNode s) ?st'"
    using timer(2) debounce_expire_maps[OF timer(3)] port_inv_transfer by (auto simp: keeps_ports_def port_owner_def same_maps_def)
  then have "pending_ok (set (ovPending s)) ?st'"
    using assms(3) pending_ok_owner[of "set (ovPending s)" "ovNode s" ?st'] unfolding overlap_inv_def keeps_ports_def by blast
  then show ?thesis using node_inv_keeps[OF _ keeps, of mounted] assms(3) by (simp add: overlap_inv_def timer(1))
qed

section \<open>Properties\<close>

interpretation overlap: step_system "overlap_step M mounted order" "\<lambda>s. mounter_ok M mounted \<and> overlap_inv mounted s" for M mounted order
  by unfold_locales (auto intro: overlap_step_inv)

lemma overlap_steps_inv: "mounter_ok M mounted \<Longrightarrow> (overlap_step M mounted order)\<^sup>*\<^sup>* s s' \<Longrightarrow> overlap_inv mounted s \<Longrightarrow> overlap_inv mounted s'"
  using overlap.run_keeps by blast

text \<open>Overlapping calls are harmless as long as no tunnel is removed while a publish of its own share is under way.
  From a node with nothing mounted and no call under way, after any interleaving of the steps of publish and
  unpublish calls that respects this, with any outcomes, every share mounted as nfs4 goes through a port whose tunnel
  exists, and every publish under way still holds the port it is about to mount through, for its own share.\<close>

lemma overlapping_calls_keep_tunnels:
  assumes "mounter_ok M mounted" "nsMgr (ovNode s) = Some sm" "port_inv sm" "mounted (nsMounts (ovNode s)) = {}" "ovPending s = []"
    "(overlap_step M mounted order)\<^sup>*\<^sup>* s s'"
  shows "(\<forall>(src, t, fs, opts) \<in> mounted (nsMounts (ovNode s')). fs = nfs4FsType \<longrightarrow>
      (\<exists>p v. last opts = ''port='' @ Itoa p \<and> port_owner (ovNode s') p = Some v)) \<and>
    (\<forall>(t, v, plan) \<in> set (ovPending s'). planFsType plan = nfs4FsType \<longrightarrow>
      (\<exists>p. last (planOptions plan) = ''port='' @ Itoa p \<and> port_owner (ovNode s') p = Some v))"
proof -
  have "overlap_inv mounted s"
    using assms(2-5) start_inv[of "ovNode s" sm mounted] by (simp add: overlap_inv_def pending_ok_def)
  then have "overlap_inv mounted s'" using overlap_steps_inv[OF assms(1,6)] by simp
  then show ?thesis unfolding overlap_inv_def node_inv_def tunnelled_def pending_ok_def by blast
qed

lemma overlapping_calls_keep_tunnels_example:
  "\<exists>s' t v plan p. (overlap_step table_mounter set mount_errors)\<^sup>*\<^sup>* \<lparr>ovNode = demo_node [], ovPending = []\<rparr> s' \<and>
     (t, v, plan) \<in> set (ovPending s') \<and> last (planOptions plan) = ''port='' @ Itoa p \<and> port_owner (ovNode s') p = Some v"
proof -
  let ?s = "\<lparr>ovNode = demo_node [] :: mount_entry list node_state, ovPending = []\<rparr>"
  let ?ctx = "demo_context ''rfs'' ''true''"
  obtain sm w where e: "EnsureTunnel demo_os ''v1'' ''10.240.0.5'' ''r'' (demo_sm, demo_world) = (Inr 11300, sm, w)"
    by (rule demo_ensure_of[of "''v1''" "''10.240.0.5''"]) simp_all
  obtain p st2 where plan: "plan_mount demo_os ''r'' ''10.240.0.5:/share'' ?ctx [] (demo_node [] :: mount_entry list node_state) = (Ok p, st2)"
    and fs: "planFsType p = nfs4FsType"
    by (simp add: plan_mount_def plan_tunnel_def demo_node_def Let_def RFSProfile_def TrueStr_def demo_source e)
  have same: "(ovNode ?s)\<lparr>nsMounts := []\<rparr> = demo_node []" by (simp add: demo_node_def)
  have "overlap_step table_mounter set mount_errors ?s \<lparr>ovNode = st2, ovPending = [(''/pod1'', ''v1'', p)]\<rparr>"
    using pub_plan[of table_mounter "''/pod1''" ?s None "[]" demo_os "''r''" "''10.240.0.5:/share''" ?ctx "[]" "Ok p" st2 set mount_errors]
      plan unfolding same by (simp add: table_mounter_def locked_def demo_node_def)
  then have steps: "(overlap_step table_mounter set mount_errors)\<^sup>*\<^sup>* ?s \<lparr>ovNode = st2, ovPending = [(''/pod1'', ''v1'', p)]\<rparr>"
    by (rule r_into_rtranclp)
  have "nsMgr (ovNode ?s) = Some demo_sm" "set (nsMounts (ovNode ?s)) = {}" "ovPending ?s = []" by (simp_all add: demo_node_def)
  from overlapping_calls_keep_tunnels[OF table_mounter_ok this(1) demo_inv this(2,3) steps] show ?thesis
    using steps fs by fastforce
qed

end
