(* ===== verification/Node_Conc.thy ===== *)
theory Node_Conc
  imports Node_Overlap Stunnel_Conc
begin

text \<open>
  Node calls and the critical sections of the stunnel manager in one relation. \<open>Node_Overlap\<close> runs each EnsureTunnel
  and each RemoveTunnel in one piece; here they take the steps of \<open>Stunnel_Conc\<close>, so a publish may wait for the write
  lock while other publishes mount, and a removal may have given its port up and not yet unlinked the file. Any thread
  may take any step of the manager; what the node server adds are the mounts and who is publishing which share. The
  invariant needs the condition of \<open>Node_Overlap\<close>, that no tunnel is given up during a publish of its share, and that
  of \<open>Stunnel_Conc\<close>, that no removal rolls back.
\<close>

section \<open>Steps\<close>

text \<open>A publish under way: it asks the manager for a tunnel, or is about to mount by its plan.\<close>

datatype node_call =
    Ensuring (call_target: string) (call_share: string) nfs_source "string list"
  | Mounting (call_target: string) (call_share: string) mount_plan

record 'm node_conc =
  ncMounts :: 'm
  ncTunnels :: conc
  ncCalls :: "nat \<Rightarrow> node_call option"

definition targets :: "'m node_conc \<Rightarrow> string set" where
  "targets s = {call_target c | i c. ncCalls s i = Some c}"

definition shares :: "'m node_conc \<Rightarrow> string set" where
  "shares s = {call_share c | i c. ncCalls s i = Some c}"

definition calm :: "conc \<Rightarrow> bool" where
  "calm c \<longleftrightarrow> (\<forall>i. \<not> rolling_back (threads c i))"

definition keeps_alloc :: "conc \<Rightarrow> conc \<Rightarrow> bool" where
  "keeps_alloc c c' \<longleftrightarrow> (\<forall>v p. fmlookup (allocatedPorts (mgr c)) v = Some p \<longrightarrow> fmlookup (allocatedPorts (mgr c')) v = Some p)"

text \<open>The first critical section of a RemoveTunnel that gives a port up.\<close>

inductive gives_up :: "conc \<Rightarrow> string option \<Rightarrow> string \<Rightarrow> conc \<Rightarrow> bool" where
  "threads c i = Idle \<Longrightarrow> v \<noteq> '''' \<Longrightarrow> fmlookup (allocatedPorts (mgr c)) v = Some p \<Longrightarrow> \<not> isTunnelPortInUse mounts p \<Longrightarrow>
    gives_up c mounts v
      (goto i (if fcard (fmdom (allocatedPorts (mgr c))) = 1 then RemoveLast v p r else RemoveUnlink v p r False)
        (c\<lparr>mgr := forget_port v p (mgr c)\<rparr>))"

definition tunnel_plan :: "nfs_source \<Rightarrow> string list \<Rightarrow> int \<Rightarrow> mount_plan" where
  "tunnel_plan nfs options port =
     \<lparr>planSource = ''127.0.0.1:'' @ ExportPath nfs, planFsType = nfs4FsType, planEncryption = '''',
      planOptions = options @ [''port='' @ Itoa port]\<rparr>"

inductive node_conc_step ::
  "'m mounter \<Rightarrow> ('m \<Rightarrow> mount_entry set) \<Rightarrow> (string \<times> csi_code) list \<Rightarrow> 'm node_conc \<Rightarrow> 'm node_conc \<Rightarrow> bool"
  for M mounted order where
  check_target: "mIsLikelyNotMountPoint M t (ncMounts s) = (r, m1) \<Longrightarrow> node_conc_step M mounted order s (s\<lparr>ncMounts := m1\<rparr>)"
| ask_tunnel: "ncCalls s i = None \<Longrightarrow> t \<notin> targets s \<Longrightarrow> threads (ncTunnels s) i = Idle \<Longrightarrow> splitNFSSource src = Inr nfs \<Longrightarrow>
    node_conc_step M mounted order s (s\<lparr>ncCalls := (ncCalls s)(i \<mapsto> Ensuring t v nfs options)\<rparr>)"
| no_tunnel: "ncCalls s i = None \<Longrightarrow> t \<notin> targets s \<Longrightarrow> planFsType p \<in> {eitFsType, defaultFsType} \<Longrightarrow>
    node_conc_step M mounted order s (s\<lparr>ncCalls := (ncCalls s)(i \<mapsto> Mounting t v p)\<rparr>)"
| got_tunnel: "ncCalls s i = Some (Ensuring t v nfs options) \<Longrightarrow> threads (ncTunnels s) i = EnsureReturned v (Inr port) \<Longrightarrow>
    node_conc_step M mounted order s (s\<lparr>ncTunnels := goto i Idle (ncTunnels s),
      ncCalls := (ncCalls s)(i \<mapsto> Mounting t v (tunnel_plan nfs options port))\<rparr>)"
| got_error: "ncCalls s i = Some (Ensuring t v nfs options) \<Longrightarrow> threads (ncTunnels s) i = EnsureReturned v (Inl e) \<Longrightarrow>
    node_conc_step M mounted order s (s\<lparr>ncTunnels := goto i Idle (ncTunnels s), ncCalls := (ncCalls s)(i := None)\<rparr>)"
| mount: "ncCalls s i = Some (Mounting t v p) \<Longrightarrow>
    processMount M order rid (planSource p) t (planFsType p) (planEncryption p) (planOptions p) (ncMounts s) = (r, m2) \<Longrightarrow>
    node_conc_step M mounted order s (s\<lparr>ncMounts := m2, ncCalls := (ncCalls s)(i := None)\<rparr>)"
| unmount: "t \<notin> targets s \<Longrightarrow> mCleanupMountPoint M t (ncMounts s) = (e, m1) \<Longrightarrow>
    node_conc_step M mounted order s (s\<lparr>ncMounts := m1\<rparr>)"
| give_up: "gives_up (ncTunnels s) mounts v c \<Longrightarrow> v \<notin> shares s \<Longrightarrow>
    (\<And>data. mounts = Some data \<Longrightarrow> proc_shows (mounted (ncMounts s)) data) \<Longrightarrow>
    node_conc_step M mounted order s (s\<lparr>ncTunnels := c\<rparr>)"
| manager: "conc_step (ncTunnels s) c \<Longrightarrow> keeps_alloc (ncTunnels s) c \<Longrightarrow> calm c \<Longrightarrow>
    node_conc_step M mounted order s (s\<lparr>ncTunnels := c\<rparr>)"

text \<open>The last two rules leave no step of the manager out.\<close>

lemma ensure_locked_EnsureTunnel:
  assumes "ensure_locked os v srv r (sm, w) = (res, sm', w')" "v \<noteq> ''''" "srv \<noteq> ''''"
  shows "EnsureTunnel os v srv r (sm, w) = (res, sm', w')"
  using assms by (auto simp: EnsureTunnel_def ensure_locked_def split: option.splits)

lemma EnsureTunnel_keeps_alloc:
  assumes "EnsureTunnel os v srv r (sm, w) = (res, sm', w')" "fmlookup (allocatedPorts sm) u = Some p"
  shows "fmlookup (allocatedPorts sm') u = Some p"
  using assms by (cases rule: EnsureTunnel_cases) (auto simp: same_maps_def restore_port_def)

lemma conc_step_covered:
  assumes "conc_step c c'" "calls_ok c" "calm c"
  shows "keeps_alloc c c' \<or> (\<exists>mounts v. gives_up c mounts v c')"
  using assms
proof (induction rule: conc_step.induct)
  case (ensure_slow s t v srv r os res sm' w')
  then have "EnsureTunnel os v srv r (mgr s, env s) = (res, sm', w')"
    by (intro ensure_locked_EnsureTunnel) (auto simp: calls_ok_def)
  then show ?case using EnsureTunnel_keeps_alloc by (simp add: keeps_alloc_def)
next
  case (remove_forget s t v p mounts r)
  then show ?case using gives_up.intros by blast
next
  case (remove_last s t v p r os res sm' w')
  then show ?case using handleLast_frame[OF remove_last(2)] by (simp add: keeps_alloc_def same_maps_def)
next
  case (remove_unlink s t v p r isLast ok res fs')
  then show ?case by (simp add: keeps_alloc_def schedule_sels)
next
  case (remove_rollback s t v p e)
  then show ?case by (metis calm_def rolling_back.simps(1))
next
  case (debounce pg kl s sm' w')
  then show ?case using debounce_expire_frame[OF debounce(1)] by (simp add: keeps_alloc_def same_maps_def)
qed (simp_all add: keeps_alloc_def)

section \<open>Invariant\<close>

text \<open>The node as \<open>Node_System\<close> sees it.\<close>

definition node_of :: "'m node_conc \<Rightarrow> 'm node_state" where
  "node_of s = \<lparr>nsMounts = ncMounts s, nsMgr = Some (mgr (ncTunnels s)), nsWorld = env (ncTunnels s)\<rparr>"

lemma port_owner_node_of [simp]: "port_owner (node_of s) p = fmlookup (portToVolume (mgr (ncTunnels s))) p"
  by (simp add: port_owner_def node_of_def)

text \<open>A publish that was given a port has it as long as it is under way.\<close>

fun call_ok :: "conc \<Rightarrow> nat \<Rightarrow> node_call \<Rightarrow> bool" where
  "call_ok c i (Ensuring t v nfs options) \<longleftrightarrow>
     (\<forall>p. threads c i = EnsureReturned v (Inr p) \<longrightarrow> fmlookup (allocatedPorts (mgr c)) v = Some p)"
| "call_ok c i (Mounting t v p) \<longleftrightarrow> (planFsType p = nfs4FsType \<longrightarrow> HasPrefix (planSource p) ''127.0.0.1:'' \<and>
     (\<exists>q. last (planOptions p) = ''port='' @ Itoa q \<and> fmlookup (allocatedPorts (mgr c)) v = Some q))"

definition node_conc_inv :: "('m \<Rightarrow> mount_entry set) \<Rightarrow> 'm node_conc \<Rightarrow> bool" where
  "node_conc_inv mounted s \<longleftrightarrow> node_inv mounted (node_of s) \<and> calls_ok (ncTunnels s) \<and> calm (ncTunnels s) \<and>
     (\<forall>i call. ncCalls s i = Some call \<longrightarrow> call_ok (ncTunnels s) i call)"

lemma node_inv_mgr: "node_inv mounted (node_of s) \<Longrightarrow> port_inv (mgr (ncTunnels s))"
  by (simp add: node_inv_def node_of_def)

lemma node_of_mounts:
  assumes "node_inv mounted (node_of s)" "mounted m \<subseteq> mounted (ncMounts s)" "mgr (ncTunnels s') = mgr (ncTunnels s)" "ncMounts s' = m"
  shows "node_inv mounted (node_of s')"
proof -
  have "tunnelled (mounted m) (node_of s)"
    using assms(1,2) tunnelled_mono[of "mounted (ncMounts s)" "node_of s"] by (simp add: node_inv_def node_of_def)
  then have "tunnelled (mounted m) (node_of s')" by (rule tunnelled_owner) (simp add: assms(3))
  then show ?thesis using assms node_inv_mgr[OF assms(1)] by (simp add: node_inv_def node_of_def)
qed

lemma call_ok_idle: "call_ok c i call \<Longrightarrow> call_ok (goto j Idle c) i call"
  by (cases call) auto

text \<open>Steps of the manager that give nothing up.\<close>

lemma keeps_alloc_node:
  assumes "node_inv mounted (node_of s)" "keeps_alloc (ncTunnels s) c" "port_inv (mgr c)"
  shows "node_inv mounted (node_of (s\<lparr>ncTunnels := c\<rparr>))"
proof -
  have "tunnelled (mounted (ncMounts s)) (node_of (s\<lparr>ncTunnels := c\<rparr>))"
  proof (rule tunnelled_owner)
    show "tunnelled (mounted (ncMounts s)) (node_of s)" using assms(1) by (simp add: node_inv_def node_of_def)
    show "port_owner (node_of (s\<lparr>ncTunnels := c\<rparr>)) p = Some v" if "port_owner (node_of s) p = Some v" for p v
      using that assms(2) port_inv_iff[OF assms(3)] port_inv_iff[OF node_inv_mgr[OF assms(1)]] by (simp add: keeps_alloc_def)
  qed
  then show ?thesis using assms(3) by (simp add: node_inv_def node_of_def)
qed

text \<open>Where a thread that returns a port got it: it was there already, or it is allocated now.\<close>

lemma conc_step_returned:
  assumes "conc_step c c'" "threads c' i = EnsureReturned v (Inr p)" "calls_ok c"
  shows "threads c i = EnsureReturned v (Inr p) \<or> fmlookup (allocatedPorts (mgr c')) v = Some p"
  using assms
proof (induction rule: conc_step.induct)
  case (ensure_slow s t u srv r os res sm' w')
  show ?case
  proof (cases "i = t")
    case True
    then have "EnsureTunnel os u srv r (mgr s, env s) = (Inr p, sm', w')" "u = v"
      using ensure_slow ensure_locked_EnsureTunnel[OF ensure_slow(2)] by (auto simp: calls_ok_def)
    then show ?thesis using EnsureTunnel_holds(2) by simp
  qed (use ensure_slow(3) in simp)
qed (auto split: if_splits sum.splits)

lemma manager_calls:
  assumes "conc_step c c'" "keeps_alloc c c'" "calls_ok c" "call_ok c i call"
  shows "call_ok c' i call"
proof (cases call)
  case (Ensuring t v nfs options)
  have "fmlookup (allocatedPorts (mgr c')) v = Some p" if "threads c' i = EnsureReturned v (Inr p)" for p
    using conc_step_returned[OF assms(1) that assms(3)] assms(2,4) Ensuring by (auto simp: keeps_alloc_def)
  then show ?thesis using Ensuring by simp
qed (use assms(2,4) in \<open>auto simp: keeps_alloc_def\<close>)

text \<open>A removal that gives a port up: no mount goes through it, and no publish holds it.\<close>

lemma gives_up_forgets:
  assumes "gives_up c mounts v c'"
  obtains i p x where "fmlookup (allocatedPorts (mgr c)) v = Some p" "\<not> isTunnelPortInUse mounts p"
    "c' = goto i x (c\<lparr>mgr := forget_port v p (mgr c)\<rparr>)" "\<exists>r. x = RemoveLast v p r \<or> x = RemoveUnlink v p r False"
  using assms by cases (auto split: if_splits)

lemma give_up_node:
  assumes "node_inv mounted (node_of s)" "gives_up (ncTunnels s) mounts v c"
    "\<And>data. mounts = Some data \<Longrightarrow> proc_shows (mounted (ncMounts s)) data"
  shows "node_inv mounted (node_of (s\<lparr>ncTunnels := c\<rparr>))"
proof -
  obtain i p x where g: "fmlookup (allocatedPorts (mgr (ncTunnels s))) v = Some p" "\<not> isTunnelPortInUse mounts p"
    "c = goto i x ((ncTunnels s)\<lparr>mgr := forget_port v p (mgr (ncTunnels s))\<rparr>)"
    by (rule gives_up_forgets[OF assms(2)])
  let ?st' = "node_of (s\<lparr>ncTunnels := c\<rparr>)"
  have "tunnelled (mounted (ncMounts s)) ?st'"
    unfolding tunnelled_def
  proof (clarify, intro conjI)
    fix src t fs opts
    assume e: "(src, t, nfs4FsType, opts) \<in> mounted (ncMounts s)"
    then obtain q u where q: "HasPrefix src ''127.0.0.1:''" "last opts = ''port='' @ Itoa q" "port_owner (node_of s) q = Some u"
      using assms(1) unfolding node_inv_def tunnelled_def by (force simp: node_of_def)
    then show "HasPrefix src ''127.0.0.1:''" by simp
    have "isTunnelPortInUse mounts q"
      using mounted_port_in_use[of "demo_rm\<lparr>procMounts := mounts\<rparr>", OF _ e q(1,2)] assms(3) by simp
    then have "q \<noteq> p" using g(2) by auto
    then show "\<exists>p v. last opts = ''port='' @ Itoa p \<and> port_owner ?st' p = Some v"
      using q g(3) by (auto simp: forget_port_def)
  qed
  then show ?thesis
    using port_inv_forget[OF node_inv_mgr[OF assms(1)] g(1)] g(3) by (simp add: node_inv_def node_of_def)
qed

lemma give_up_calls:
  assumes "gives_up c mounts v c'" "call_ok c i call" "call_share call \<noteq> v"
  shows "call_ok c' i call"
proof -
  obtain j p x where g: "c' = goto j x (c\<lparr>mgr := forget_port v p (mgr c)\<rparr>)" "\<exists>r. x = RemoveLast v p r \<or> x = RemoveUnlink v p r False"
    by (rule gives_up_forgets[OF assms(1)])
  have "threads c' i = EnsureReturned u r \<Longrightarrow> threads c i = EnsureReturned u r" for u r
    using g by (auto split: if_splits)
  moreover have "fmlookup (allocatedPorts (mgr c')) u = fmlookup (allocatedPorts (mgr c)) u" if "u \<noteq> v" for u
    using g(1) that by (simp add: forget_port_def)
  ultimately show ?thesis using assms(2,3) by (cases call) auto
qed

lemma gives_up_threads:
  assumes "gives_up c mounts v c'" "calls_ok c" "calm c"
  shows "calls_ok c' \<and> calm c'"
proof -
  obtain j p x where g: "c' = goto j x (c\<lparr>mgr := forget_port v p (mgr c)\<rparr>)" "\<exists>r. x = RemoveLast v p r \<or> x = RemoveUnlink v p r False"
    by (rule gives_up_forgets[OF assms(1)])
  show ?thesis using assms(2,3) g by (auto simp: calls_ok_def calm_def split: if_splits)
qed

lemma mount_node:
  assumes "mounter_ok M mounted" "node_inv mounted (node_of s)" "call_ok (ncTunnels s) i (Mounting t v p)"
    "processMount M order rid (planSource p) t (planFsType p) (planEncryption p) (planOptions p) (ncMounts s) = (r, m2)"
    "ncMounts s' = m2" "ncTunnels s' = ncTunnels s"
  shows "node_inv mounted (node_of s')"
proof -
  have inv: "tunnelled (mounted (ncMounts s)) (node_of s)" using assms(2) by (simp add: node_inv_def node_of_def)
  have "tunnelled {(planSource p, t, planFsType p, if planFsType p = eitFsType then [planEncryption p] else planOptions p)} (node_of s)"
  proof (cases "planFsType p = nfs4FsType")
    case True
    then obtain q where "HasPrefix (planSource p) ''127.0.0.1:''" "last (planOptions p) = ''port='' @ Itoa q" "port_owner (node_of s) q = Some v"
      using assms(3) port_inv_iff[OF node_inv_mgr[OF assms(2)]] by auto
    moreover have "nfs4FsType \<noteq> eitFsType" by (simp add: nfs4FsType_def eitFsType_def)
    ultimately show ?thesis using True unfolding tunnelled_def by auto
  qed (simp add: tunnelled_def)
  then have "tunnelled (mounted m2) (node_of s)"
    by (intro tunnelled_mono[OF tunnelled_insert[OF _ inv] processMount_mounted[OF assms(1,4)]])
  then have "tunnelled (mounted m2) (node_of s')" by (rule tunnelled_owner) (simp add: assms(6))
  then show ?thesis using assms(5,6) node_inv_mgr[OF assms(2)] by (simp add: node_inv_def node_of_def)
qed

text \<open>The two kinds of steps in which the manager acts.\<close>

lemma give_up_inv:
  assumes "node_conc_inv mounted s" "gives_up (ncTunnels s) mounts v c" "v \<notin> shares s"
    "\<And>data. mounts = Some data \<Longrightarrow> proc_shows (mounted (ncMounts s)) data"
  shows "node_conc_inv mounted (s\<lparr>ncTunnels := c\<rparr>)"
proof -
  have inv: "node_inv mounted (node_of s)" "calls_ok (ncTunnels s)" "calm (ncTunnels s)"
    "\<And>i call. ncCalls s i = Some call \<Longrightarrow> call_ok (ncTunnels s) i call"
    using assms(1) by (simp_all add: node_conc_inv_def)
  have "call_ok c i call" if "ncCalls s i = Some call" for i call
    using give_up_calls[OF assms(2) inv(4)[OF that]] assms(3) that by (auto simp: shares_def)
  then show ?thesis
    using give_up_node[OF inv(1) assms(2,4)] gives_up_threads[OF assms(2) inv(2,3)] by (simp add: node_conc_inv_def)
qed

lemma manager_inv:
  assumes "node_conc_inv mounted s" "conc_step (ncTunnels s) c" "keeps_alloc (ncTunnels s) c" "calm c"
  shows "node_conc_inv mounted (s\<lparr>ncTunnels := c\<rparr>)"
proof -
  have inv: "node_inv mounted (node_of s)" "calls_ok (ncTunnels s)" "calm (ncTunnels s)"
    "\<And>i call. ncCalls s i = Some call \<Longrightarrow> call_ok (ncTunnels s) i call"
    using assms(1) by (simp_all add: node_conc_inv_def)
  have "port_inv (mgr c)"
    using conc_step_port_inv[OF assms(2) node_inv_mgr[OF inv(1)] inv(2)] inv(3) by (simp add: calm_def)
  then show ?thesis
    using keeps_alloc_node[OF inv(1) assms(3)] conc_step_calls_ok[OF assms(2) inv(2)] assms(4)
      manager_calls[OF assms(2,3) inv(2) inv(4)] by (simp add: node_conc_inv_def)
qed

lemma node_conc_step_inv:
  assumes "mounter_ok M mounted" "node_conc_step M mounted order s s'" "node_conc_inv mounted s"
  shows "node_conc_inv mounted s'"
proof -
  have inv: "node_inv mounted (node_of s)" "calls_ok (ncTunnels s)" "calm (ncTunnels s)"
    "\<And>i call. ncCalls s i = Some call \<Longrightarrow> call_ok (ncTunnels s) i call"
    using assms(3) by (simp_all add: node_conc_inv_def)
  have same: "node_inv mounted (node_of x)" if "mgr (ncTunnels x) = mgr (ncTunnels s)" "ncMounts x = ncMounts s" for x
    using node_of_mounts[OF inv(1) subset_refl that] .
  have idle: "calls_ok (goto i Idle (ncTunnels s))" "calm (goto i Idle (ncTunnels s))" for i
    using inv(2,3) by (simp_all add: calls_ok_def calm_def)
  show ?thesis
    using assms(2)
  proof cases
    case (check_target t r m1)
    then show ?thesis
      using node_of_mounts[OF inv(1) mounter_okD(1)[OF assms(1) check_target(2)], of s'] inv by (simp add: node_conc_inv_def)
  next
    case (unmount t e m1)
    then show ?thesis
      using node_of_mounts[OF inv(1) mounter_okD(6)[OF assms(1) unmount(3)], of s'] inv by (simp add: node_conc_inv_def)
  next
    case (ask_tunnel i t src nfs v options)
    then show ?thesis using same[of s'] inv by (auto simp: node_conc_inv_def)
  next
    case (no_tunnel i t p v)
    then show ?thesis using same[of s'] inv by (auto simp: node_conc_inv_def nfs4FsType_def eitFsType_def defaultFsType_def)
  next
    case (got_tunnel i t v nfs options port)
    then have "fmlookup (allocatedPorts (mgr (ncTunnels s))) v = Some port" using inv(4)[OF got_tunnel(2)] by simp
    then show ?thesis
      using got_tunnel(1) same[of s'] idle inv(4) call_ok_idle by (auto simp: node_conc_inv_def tunnel_plan_def)
  next
    case (got_error i t v nfs options e)
    then show ?thesis using same[of s'] idle inv(4) call_ok_idle by (auto simp: node_conc_inv_def)
  next
    case (mount i t v p rid r m2)
    then show ?thesis
      using mount_node[OF assms(1) inv(1) inv(4)[OF mount(2)] mount(3), of s'] inv by (auto simp: node_conc_inv_def)
  next
    case (give_up mounts v c)
    then show ?thesis using give_up_inv[OF assms(3)] by blast
  next
    case (manager c)
    then show ?thesis using manager_inv[OF assms(3)] by blast
  qed
qed

interpretation node_conc: step_system "node_conc_step M mounted order" "\<lambda>s. mounter_ok M mounted \<and> node_conc_inv mounted s" for M mounted order
  by unfold_locales (auto intro: node_conc_step_inv)

section \<open>Properties\<close>

text \<open>C14: mounts keep their tunnels under every interleaving of node calls with the critical sections of the manager, as
  long as no tunnel is given up during a publish of its own share and no removal has to roll back. From a node with
  nothing mounted and no call under way, every share mounted as nfs4 goes through a port that the manager holds for a
  share, no two shares have the same port, and a publish about to mount holds the port it mounts through.\<close>

theorem concurrent_node_calls_keep_tunnels:
  assumes "mounter_ok M mounted" "port_inv sm" "mounted m = {}"
    "(node_conc_step M mounted order)\<^sup>*\<^sup>* \<lparr>ncMounts = m, ncTunnels = conc_init sm w, ncCalls = (\<lambda>_. None)\<rparr> s"
  shows "(\<forall>(src, t, fs, opts) \<in> mounted (ncMounts s). fs = nfs4FsType \<longrightarrow>
      (\<exists>p v. last opts = ''port='' @ Itoa p \<and> fmlookup (allocatedPorts (mgr (ncTunnels s))) v = Some p)) \<and>
    (\<forall>u v p. fmlookup (allocatedPorts (mgr (ncTunnels s))) u = Some p \<longrightarrow>
      fmlookup (allocatedPorts (mgr (ncTunnels s))) v = Some p \<longrightarrow> u = v) \<and>
    (\<forall>i t v plan. ncCalls s i = Some (Mounting t v plan) \<longrightarrow> planFsType plan = nfs4FsType \<longrightarrow>
      (\<exists>p. last (planOptions plan) = ''port='' @ Itoa p \<and> fmlookup (allocatedPorts (mgr (ncTunnels s))) v = Some p))"
proof -
  have "node_conc_inv mounted \<lparr>ncMounts = m, ncTunnels = conc_init sm w, ncCalls = (\<lambda>_. None)\<rparr>"
    using assms(2,3) by (simp add: node_conc_inv_def node_inv_def node_of_def tunnelled_def calls_ok_def calm_def conc_init_def)
  then have "node_conc_inv mounted s" using node_conc.run_keeps[OF assms(4)] assms(1) by blast
  then have inv: "node_inv mounted (node_of s)" "port_inv (mgr (ncTunnels s))"
    "\<And>i call. ncCalls s i = Some call \<Longrightarrow> call_ok (ncTunnels s) i call"
    unfolding node_conc_inv_def using node_inv_mgr by blast+
  have "\<forall>(src, t, fs, opts) \<in> mounted (ncMounts s). fs = nfs4FsType \<longrightarrow>
      (\<exists>p v. last opts = ''port='' @ Itoa p \<and> fmlookup (allocatedPorts (mgr (ncTunnels s))) v = Some p)"
    using inv(1) unfolding node_inv_def tunnelled_def port_owner_node_of port_inv_iff[OF inv(2)] by (auto simp: node_of_def)
  moreover have "u = v" if "fmlookup (allocatedPorts (mgr (ncTunnels s))) u = Some p" "fmlookup (allocatedPorts (mgr (ncTunnels s))) v = Some p" for u v p
    using that port_inv_iff[OF inv(2), of p] by (metis option.inject)
  ultimately show ?thesis using inv(3) by fastforce
qed

text \<open>A publish that waits for the write lock, gets a tunnel and mounts.\<close>

theorem concurrent_node_calls_keep_tunnels_witness:
  "\<exists>s src t opts p v. (node_conc_step table_mounter set mount_errors)\<^sup>*\<^sup>*
      \<lparr>ncMounts = [], ncTunnels = conc_init demo_sm demo_world, ncCalls = (\<lambda>_. None)\<rparr> s \<and>
    (src, t, nfs4FsType, opts) \<in> set (ncMounts s) \<and>
    last opts = ''port='' @ Itoa p \<and> fmlookup (allocatedPorts (mgr (ncTunnels s))) v = Some p"
proof -
  let ?step = "node_conc_step table_mounter set mount_errors"
  let ?nfs = "\<lparr>Server = ''10.240.0.5'', ExportPath = ''/share''\<rparr>"
  let ?c0 = "conc_init demo_sm demo_world"
  let ?c1 = "goto 0 (EnsureWaiting ''v1'' ''10.240.0.5'' ''r'') ?c0"
  let ?m1 = "scheduleDebouncedSIGHUP ''r'' ((restore_port ''v1'' 11300 demo_sm)\<lparr>stunnelStarted := True\<rparr>)"
  obtain w1 where e: "ensure_locked demo_os ''v1'' ''10.240.0.5'' ''r'' (demo_sm, demo_world) = (Inr 11300, ?m1, w1)"
    using ensure_locked_new[OF _ demo_find] by simp
  let ?c2 = "goto 0 (EnsureReturned ''v1'' (Inr 11300)) (?c1\<lparr>mgr := ?m1, env := w1\<rparr>)"
  let ?call = "Ensuring ''/pod1'' ''v1'' ?nfs []"
  let ?plan = "tunnel_plan ?nfs [] 11300"
  let ?s0 = "\<lparr>ncMounts = [] :: mount_entry list, ncTunnels = ?c0, ncCalls = (\<lambda>_. None)\<rparr>"
  let ?s1 = "\<lparr>ncMounts = [], ncTunnels = ?c0, ncCalls = [0 \<mapsto> ?call]\<rparr>"
  let ?s2 = "\<lparr>ncMounts = [], ncTunnels = ?c1, ncCalls = [0 \<mapsto> ?call]\<rparr>"
  let ?s3 = "\<lparr>ncMounts = [], ncTunnels = ?c2, ncCalls = [0 \<mapsto> ?call]\<rparr>"
  let ?s4 = "\<lparr>ncMounts = [], ncTunnels = goto 0 Idle ?c2, ncCalls = [0 \<mapsto> Mounting ''/pod1'' ''v1'' ?plan]\<rparr>"
  let ?entry = "(planSource ?plan, ''/pod1'', planFsType ?plan, planOptions ?plan)"
  let ?s5 = "\<lparr>ncMounts = [?entry], ncTunnels = goto 0 Idle ?c2, ncCalls = (\<lambda>_. None)\<rparr>"
  have "?step ?s0 ?s1"
    using ask_tunnel[of ?s0 0 "''/pod1''" "''10.240.0.5:/share''" ?nfs table_mounter set mount_errors "''v1''" "[]"] demo_source
    by (simp add: targets_def conc_init_def)
  moreover have "?step ?s1 ?s2"
    using manager[of ?s1 ?c1 table_mounter set mount_errors] conc_step.ensure_miss[of ?c0 0 "''v1''" "''10.240.0.5''" "''r''"]
    by (simp add: conc_init_def calm_def keeps_alloc_def)
  moreover have "?step ?s2 ?s3"
    using manager[of ?s2 ?c2 table_mounter set mount_errors]
      conc_step.ensure_slow[of ?c1 0 "''v1''" "''10.240.0.5''" "''r''" demo_os "Inr 11300" ?m1 w1] e
    by (simp add: conc_init_def calm_def keeps_alloc_def)
  moreover have "?step ?s3 ?s4"
    using got_tunnel[of ?s3 0 "''/pod1''" "''v1''" ?nfs "[]" 11300 table_mounter set mount_errors] by simp
  moreover have "?step ?s4 ?s5"
    using mount[of ?s4 0 "''/pod1''" "''v1''" ?plan table_mounter mount_errors "''r''" "Ok ()" "[?entry]" set]
    by (simp add: processMount_def table_mounter_def tunnel_plan_def nfs4FsType_def eitFsType_def)
  ultimately have run: "?step\<^sup>*\<^sup>* ?s0 ?s5" by (meson converse_rtranclp_into_rtranclp r_into_rtranclp)
  have nfs4: "planFsType ?plan = nfs4FsType" by (simp add: tunnel_plan_def)
  have "?entry \<in> set (ncMounts ?s5)" by simp
  then obtain p v where "last (planOptions ?plan) = ''port='' @ Itoa p" "fmlookup (allocatedPorts (mgr (ncTunnels ?s5))) v = Some p"
    using conjunct1[OF concurrent_node_calls_keep_tunnels[OF table_mounter_ok demo_inv _ run]] nfs4 by fastforce
  with run nfs4 show ?thesis by (intro exI[of _ ?s5] exI[of _ "planSource ?plan"] exI[of _ "''/pod1''"] exI[of _ "planOptions ?plan"] exI[of _ p] exI[of _ v] conjI) simp_all
qed

end
