(* ===== verification/Config_Watcher.thy ===== *)
theory Config_Watcher
  imports Controller_Props
begin

text \<open>
  The watcher of \<open>pkg/ibmcsidriver/config_watcher.go\<close>: it copies the subnet list of the cluster's config map into the
  process environment, from which \<open>CreateVolume\<close> reads it. The informer that calls the handler belongs to
  \<open>client-go\<close>; an object that is not a config map is \<open>None\<close>.
\<close>

section \<open>The handler\<close>

record config_map =
  cmName :: string
  cmData :: "(string, string) fmap"

text \<open>\<open>os.Setenv\<close> with a non-empty name: a value with a NUL byte is refused.\<close>

definition Setenv :: "string \<Rightarrow> string \<Rightarrow> environ \<Rightarrow> environ option" where
  "Setenv k v env = (if CHR 0x00 \<in> set v then None else Some (fmupd k v env))"

definition updateSubnetList :: "config_map option \<Rightarrow> config_map option \<Rightarrow> environ \<Rightarrow> (unit, unit) outcome \<times> environ" where
  "updateSubnetList oldObj newObj env =
     (case newObj of
        None \<Rightarrow> (Panic, env)
      | Some newData \<Rightarrow>
          if TrimSpace (cmName newData) = ConfigmapName
          then (case oldObj of
                  None \<Rightarrow> (Panic, env)
                | Some oldData \<Rightarrow>
                    (let newSubnetList = map_get (cmData newData) ConfigmapDataKey;
                         oldSubnetList = map_get (cmData oldData) ConfigmapDataKey
                     in if newSubnetList \<noteq> '''' \<and> newSubnetList \<noteq> oldSubnetList
                        then (case Setenv ''VPC_SUBNET_IDS'' newSubnetList env of
                                None \<Rightarrow> (Ok (), env)
                              | Some env' \<Rightarrow> (Ok (), env'))
                        else (Ok (), env)))
          else (Ok (), env))"

section \<open>The watch\<close>

text \<open>
  What the informer reports. \<open>Start\<close> registers a handler for updates only; the functions for added and deleted objects
  are nil. The watch never stops.
\<close>

datatype informer_event = Added config_map | Updated config_map config_map | Deleted config_map

definition on_event :: "informer_event \<Rightarrow> environ \<Rightarrow> environ" where
  "on_event e env =
     (case e of
        Updated oldObj newObj \<Rightarrow> snd (updateSubnetList (Some oldObj) (Some newObj) env)
      | Added m \<Rightarrow> env
      | Deleted m \<Rightarrow> env)"

definition Start_watch :: "informer_event list \<Rightarrow> environ \<Rightarrow> environ" where
  "Start_watch es env = foldl (\<lambda>env e. on_event e env) env es"

lemma Start_watch_simps [simp]:
  "Start_watch [] env = env"
  "Start_watch (e # es) env = Start_watch es (on_event e env)"
  by (simp_all add: Start_watch_def)

lemma on_event_simps [simp]:
  "on_event (Added m) env = env"
  "on_event (Deleted m) env = env"
  "on_event (Updated oldObj newObj) env = snd (updateSubnetList (Some oldObj) (Some newObj) env)"
  by (simp_all add: on_event_def)

section \<open>A run of updates\<close>

text \<open>
  The informer reports each update with the object before and after it: the objects form a chain. The environment
  after a chain that starts at \<open>old\<close>.
\<close>

fun watch :: "config_map \<Rightarrow> config_map list \<Rightarrow> environ \<Rightarrow> environ" where
  "watch old [] env = env"
| "watch old (new # rest) env = watch new rest (snd (updateSubnetList (Some old) (Some new) env))"

fun update_chain :: "config_map \<Rightarrow> config_map list \<Rightarrow> informer_event list" where
  "update_chain old [] = []"
| "update_chain old (new # rest) = Updated old new # update_chain new rest"

lemma watch_Start: "watch old ms env = Start_watch (update_chain old ms) env"
  by (induction ms arbitrary: old env) simp_all

definition subnet_list :: "config_map \<Rightarrow> string" where
  "subnet_list m = map_get (cmData m) ConfigmapDataKey"

text \<open>The specification: the last list that is not empty.\<close>

definition latest_list :: "string \<Rightarrow> config_map list \<Rightarrow> string" where
  "latest_list d ms = last (filter (\<lambda>l. l \<noteq> '''') (d # map subnet_list ms))"

definition well_named :: "config_map \<Rightarrow> bool" where
  "well_named m \<longleftrightarrow> TrimSpace (cmName m) = ConfigmapName \<and> CHR 0x00 \<notin> set (subnet_list m)"

lemma updateSubnetList_named:
  assumes "well_named new"
  shows "updateSubnetList (Some old) (Some new) env =
    (Ok (), if subnet_list new \<noteq> '''' \<and> subnet_list new \<noteq> subnet_list old then fmupd ''VPC_SUBNET_IDS'' (subnet_list new) env else env)"
  using assms by (simp add: updateSubnetList_def well_named_def subnet_list_def Setenv_def Let_def)

lemma latest_list_Cons: "d \<noteq> '''' \<Longrightarrow> latest_list d (m # ms) = latest_list (if subnet_list m = '''' then d else subnet_list m) ms"
  by (simp add: latest_list_def)

lemma watch_latest:
  assumes "list_all well_named ms" "Getenv env ''VPC_SUBNET_IDS'' = d" "d \<noteq> ''''" "subnet_list old \<in> {'''', d}"
  shows "Getenv (watch old ms env) ''VPC_SUBNET_IDS'' = latest_list d ms \<and>
    (k \<noteq> ''VPC_SUBNET_IDS'' \<longrightarrow> Getenv (watch old ms env) k = Getenv env k)"
  using assms
proof (induction ms arbitrary: old env d)
  case Nil
  then show ?case by (simp add: latest_list_def)
next
  case (Cons m ms)
  let ?d = "if subnet_list m = '''' then d else subnet_list m"
  let ?env = "snd (updateSubnetList (Some old) (Some m) env)"
  have env: "Getenv ?env ''VPC_SUBNET_IDS'' = ?d" "k \<noteq> ''VPC_SUBNET_IDS'' \<Longrightarrow> Getenv ?env k = Getenv env k"
    using Cons.prems by (auto simp: updateSubnetList_named)
  have "Getenv (watch m ms ?env) ''VPC_SUBNET_IDS'' = latest_list ?d ms \<and>
      (k \<noteq> ''VPC_SUBNET_IDS'' \<longrightarrow> Getenv (watch m ms ?env) k = Getenv ?env k)"
    by (rule Cons.IH) (use Cons.prems env in auto)
  then show ?case using env(2) latest_list_Cons[OF Cons.prems(3)] by simp
qed

text \<open>C36: the watcher follows the config map. If the environment starts with the list of the first object, then after any
  chain of updates the next request for a subnet of CreateVolume is made with the last list that was not empty; an
  update that empties the list never clears it, and no other variable changes.\<close>

theorem watcher_feeds_CreateVolume:
  assumes "list_all well_named ms" "Getenv env ''VPC_SUBNET_IDS'' = subnet_list m0" "subnet_list m0 \<noteq> ''''"
    "volSubnetID v = ''''" "volPrimaryIP v = None"
  shows "pick_subnet S (watch m0 ms env) v s =
    (case sGetSubnet S \<lparr>snList = latest_list (subnet_list m0) ms, snZone = volAz v, snVPCID = Getenv env ''VPC_ID'',
                        snResourceGroup = volResourceGroup v\<rparr> s of
       ((subnetID, err), s1) \<Rightarrow>
         (if err \<noteq> None \<or> subnetID = '''' then Err (BackendError err) else Ok (v\<lparr>volSubnetID := subnetID\<rparr>), s1))"
proof -
  have w: "Getenv (watch m0 ms env) ''VPC_SUBNET_IDS'' = latest_list (subnet_list m0) ms"
    "Getenv (watch m0 ms env) ''VPC_ID'' = Getenv env ''VPC_ID''"
    using watch_latest[OF assms(1,2,3), of m0 "''VPC_ID''"] by simp_all
  have "latest_list (subnet_list m0) ms \<in> set (filter (\<lambda>l. l \<noteq> '''') (subnet_list m0 # map subnet_list ms))"
    unfolding latest_list_def using assms(3) by (intro last_in_set) simp
  then have "latest_list (subnet_list m0) ms \<noteq> ''''" unfolding set_filter by blast
  then show ?thesis using assms(4,5) w by (simp add: pick_subnet_def)
qed

definition demo_map :: "string \<Rightarrow> config_map" where
  "demo_map l = \<lparr>cmName = ''ibm-cloud-provider-data'', cmData = fmupd ConfigmapDataKey l fmempty\<rparr>"

lemma subnet_list_demo [simp]: "subnet_list (demo_map l) = l"
  by (simp add: subnet_list_def demo_map_def)

theorem watcher_feeds_CreateVolume_witness:
  "latest_list ''a'' [demo_map ''b'', demo_map ''''] = ''b'' \<and>
   pick_subnet demo_session (watch (demo_map ''a'') [demo_map ''b'', demo_map ''''] (fmupd ''VPC_SUBNET_IDS'' ''a'' fmempty)) empty_volume [] =
    (Ok (empty_volume\<lparr>volSubnetID := ''0717-sn''\<rparr>), [])"
proof -
  have t: "TrimSpace ''ibm-cloud-provider-data'' = ''ibm-cloud-provider-data''" by code_simp
  have named: "list_all well_named [demo_map ''b'', demo_map '''']"
    by (simp add: well_named_def) (simp add: demo_map_def t ConfigmapName_def)
  have "pick_subnet demo_session (watch (demo_map ''a'') [demo_map ''b'', demo_map ''''] (fmupd ''VPC_SUBNET_IDS'' ''a'' fmempty)) empty_volume [] =
    (Ok (empty_volume\<lparr>volSubnetID := ''0717-sn''\<rparr>), [])"
    by (subst watcher_feeds_CreateVolume[OF named]) (simp_all add: demo_session_def empty_volume_def del: watch.simps)
  then show ?thesis by (simp add: latest_list_def del: watch.simps)
qed

text \<open>A config map that is deleted and created again is not followed: the new object is reported as added, and later updates
  are compared with it. As long as they do not change the list again, CreateVolume keeps using the list of the
  deleted object.\<close>

lemma recreated_map_missed:
  assumes "list_all (\<lambda>m. well_named m \<and> subnet_list m = subnet_list m1) ms"
  shows "Getenv (Start_watch (Deleted m0 # Added m1 # update_chain m1 ms) env) k = Getenv env k"
proof -
  have w: "Getenv (watch old ms env) k = Getenv env k" if "subnet_list old = subnet_list m1" for old
    using assms that by (induction ms arbitrary: old env) (simp_all add: updateSubnetList_named)
  show ?thesis using w[of m1] by (simp add: watch_Start)
qed

lemma recreated_map_missed_example:
  "Getenv (Start_watch [Deleted (demo_map ''a''), Added (demo_map ''b''), Updated (demo_map ''b'') (demo_map ''b'')]
     (fmupd ''VPC_SUBNET_IDS'' ''a'' fmempty)) ''VPC_SUBNET_IDS'' = ''a''"
proof -
  have "TrimSpace ''ibm-cloud-provider-data'' = ''ibm-cloud-provider-data''" by code_simp
  then have "well_named (demo_map ''b'')" by (simp add: well_named_def) (simp add: demo_map_def ConfigmapName_def)
  then show ?thesis
    using recreated_map_missed[of "demo_map ''b''" "[demo_map ''b'']" "demo_map ''a''" "fmupd ''VPC_SUBNET_IDS'' ''a'' fmempty"] by simp
qed

end
