(* ===== verification/Driver.thy ===== *)
theory Driver
  imports Node
begin

text \<open>
  The driver object of \<open>pkg/ibmcsidriver/ibm_csi_driver.go\<close> and the identity service of \<open>identity.go\<close>: set up once per
  process, then read by the three services. The constructors of capability messages of \<open>ibm-csi-common\<close>, the
  metadata service and the provider are parameters; the logger is never nil. A capability message is represented by
  the enumeration value it wraps.
\<close>

section \<open>The driver\<close>

datatype controller_rpc =
    CREATE_DELETE_VOLUME
  | PUBLISH_UNPUBLISH_VOLUME
  | LIST_VOLUMES
  | GET_CAPACITY
  | CREATE_DELETE_SNAPSHOT
  | LIST_SNAPSHOTS
  | PUBLISH_READONLY
  | EXPAND_VOLUME
  | GET_VOLUME
  | MODIFY_VOLUME

datatype node_rpc = STAGE_UNSTAGE_VOLUME | GET_VOLUME_STATS | EXPAND_NODE_VOLUME

record node_server =
  nsvMetadata :: "node_metadata option"
  nsvStunnelMgr :: "stunnel_manager option"

text \<open>The driver extends the part of it that the controller reads.\<close>

record ibm_csi_driver = driver +
  drvName :: string
  drvVendorVersion :: string
  drvCscap :: "controller_rpc list"
  drvNscap :: "node_rpc list"
  drvIds :: bool
  drvNs :: "node_server option"
  drvCs :: bool

definition GetIBMCSIDriver :: ibm_csi_driver where
  "GetIBMCSIDriver =
     \<lparr>drvVcap = [], drvRfsEnabled = False, drvRegion = '''', drvName = '''', drvVendorVersion = '''', drvCscap = [],
      drvNscap = [], drvIds = False, drvNs = None, drvCs = False\<rparr>"

record cap_utils =
  NewVolumeCapabilityAccessMode :: "access_mode \<Rightarrow> access_mode"
  NewControllerServiceCapability :: "controller_rpc \<Rightarrow> controller_rpc"
  NewNodeServiceCapability :: "node_rpc \<Rightarrow> node_rpc"

definition cap_utils_ok :: "cap_utils \<Rightarrow> bool" where
  "cap_utils_ok C \<longleftrightarrow> (\<forall>m. NewVolumeCapabilityAccessMode C m = m) \<and> (\<forall>r. NewControllerServiceCapability C r = r) \<and>
     (\<forall>r. NewNodeServiceCapability C r = r)"

definition AddVolumeCapabilityAccessModes :: "cap_utils \<Rightarrow> access_mode list \<Rightarrow> ibm_csi_driver \<Rightarrow> ibm_csi_driver" where
  "AddVolumeCapabilityAccessModes C vc d = d\<lparr>drvVcap := foldl (\<lambda>vca c. vca @ [NewVolumeCapabilityAccessMode C c]) [] vc\<rparr>"

definition AddControllerServiceCapabilities :: "cap_utils \<Rightarrow> controller_rpc list \<Rightarrow> ibm_csi_driver \<Rightarrow> ibm_csi_driver" where
  "AddControllerServiceCapabilities C cl d = d\<lparr>drvCscap := foldl (\<lambda>csc c. csc @ [NewControllerServiceCapability C c]) [] cl\<rparr>"

definition AddNodeServiceCapabilities :: "cap_utils \<Rightarrow> node_rpc list \<Rightarrow> ibm_csi_driver \<Rightarrow> ibm_csi_driver" where
  "AddNodeServiceCapabilities C nl d = d\<lparr>drvNscap := foldl (\<lambda>nsc n. nsc @ [NewNodeServiceCapability C n]) [] nl\<rparr>"

definition NewNodeServer :: "node_metadata option \<Rightarrow> node_server" where
  "NewNodeServer metadata = \<lparr>nsvMetadata = metadata, nsvStunnelMgr = None\<rparr>"

section \<open>Setup\<close>

datatype setup_error = ProviderNotInitialized | MounterNotInitialized | DriverNameMissing | RegionMetadataFailed

text \<open>The capabilities and the servers, up to the region.\<close>

definition add_capabilities :: "cap_utils \<Rightarrow> ibm_csi_driver \<Rightarrow> ibm_csi_driver" where
  "add_capabilities C d =
     AddNodeServiceCapabilities C [GET_VOLUME_STATS]
      (AddControllerServiceCapabilities C
         [CREATE_DELETE_VOLUME, LIST_VOLUMES, CREATE_DELETE_SNAPSHOT, LIST_SNAPSHOTS, EXPAND_VOLUME]
        (AddVolumeCapabilityAccessModes C [SINGLE_NODE_WRITER, MULTI_NODE_MULTI_WRITER] d))"

text \<open>The files a node server finds when it starts, and what the system answers.\<close>

record start_os =
  statOk :: "string \<Rightarrow> bool"
  startFaults :: file_faults
  readDirFails :: bool
  startFiles :: filesys

definition init_stunnel :: "environ \<Rightarrow> start_os \<Rightarrow> ibm_csi_driver \<Rightarrow> ibm_csi_driver" where
  "init_stunnel env so d =
     (if Getenv env ''IS_NODE_SERVER'' = ''true''
      then (case NewStunnelManager False env (statOk so) (startFaults so) (readDirFails so) (startFiles so) of
              Inl e \<Rightarrow> d\<lparr>drvNs := map_option (\<lambda>ns. ns\<lparr>nsvStunnelMgr := None\<rparr>) (drvNs d)\<rparr>
            | Inr sm \<Rightarrow> d\<lparr>drvNs := map_option (\<lambda>ns. ns\<lparr>nsvStunnelMgr := Some sm\<rparr>) (drvNs d)\<rparr>)
      else d)"

text \<open>
  \<open>mounterNil\<close>: no mounter; \<open>newMetadata\<close>: what \<open>NewNodeMetadata\<close> returns, if it succeeds; \<open>profileOk\<close>: whether the
  session finds the rfs profile.
\<close>

definition SetupIBMCSIDriver ::
  "cap_utils \<Rightarrow> 's provider option \<Rightarrow> bool \<Rightarrow> node_metadata option \<Rightarrow> node_metadata option \<Rightarrow> ('s session \<Rightarrow> string \<Rightarrow> bool)
    \<Rightarrow> environ \<Rightarrow> start_os \<Rightarrow> string \<Rightarrow> string \<Rightarrow> ibm_csi_driver \<Rightarrow> setup_error option \<times> ibm_csi_driver" where
  "SetupIBMCSIDriver C provider mounterNil metadata newMetadata profileOk env so name vendorVersion d =
     (case provider of
        None \<Rightarrow> (Some ProviderNotInitialized, d)
      | Some P \<Rightarrow>
          if mounterNil then (Some MounterNotInitialized, d)
          else if name = '''' then (Some DriverNameMissing, d)
          else (let d1 = (add_capabilities C (d\<lparr>drvName := name, drvVendorVersion := vendorVersion\<rparr>))
                       \<lparr>drvIds := True, drvNs := Some (NewNodeServer metadata), drvCs := True\<rparr>
                in case newMetadata of
                     None \<Rightarrow> (Some RegionMetadataFailed, d1)
                   | Some md \<Rightarrow>
                       (let d2 = d1\<lparr>drvRegion := mdRegion md, drvRfsEnabled := False\<rparr>
                        in case GetProviderSession P of
                             Inl e \<Rightarrow> (None, d2)
                           | Inr session \<Rightarrow>
                               (let d3 = (if \<not> profileOk session RFSProfile then d2 else d2\<lparr>drvRfsEnabled := True\<rparr>)
                                in (None, init_stunnel env so d3)))))"

section \<open>Capabilities and identity\<close>

definition ControllerGetCapabilities :: "ibm_csi_driver \<Rightarrow> controller_rpc list" where
  "ControllerGetCapabilities d = drvCscap d"

definition NodeGetCapabilities :: "ibm_csi_driver \<Rightarrow> node_rpc list" where
  "NodeGetCapabilities d = drvNscap d"

definition GetPluginInfo :: "ibm_csi_driver option \<Rightarrow> (csi_error, string \<times> string) outcome" where
  "GetPluginInfo d =
     (case d of None \<Rightarrow> Err (CSIError DriverNotConfigured) | Some d \<Rightarrow> Ok (drvName d, drvVendorVersion d))"

datatype plugin_service = CONTROLLER_SERVICE | VOLUME_ACCESSIBILITY_CONSTRAINTS

definition GetPluginCapabilities :: "plugin_service list" where
  "GetPluginCapabilities = [CONTROLLER_SERVICE, VOLUME_ACCESSIBILITY_CONSTRAINTS]"

text \<open>The answer to a probe has no fields, in particular no \<open>ready\<close>, which CSI reads as ready.\<close>

definition Probe :: "(csi_error, unit) outcome" where
  "Probe = Ok ()"

section \<open>Properties of the setup\<close>

lemma foldl_snoc: "foldl (\<lambda>acc c. acc @ [f c]) acc xs = acc @ map f xs"
  by (induction xs arbitrary: acc) auto

lemma init_stunnel_sels [simp]:
  "drvVcap (init_stunnel env so d) = drvVcap d" "drvRfsEnabled (init_stunnel env so d) = drvRfsEnabled d"
  "drvRegion (init_stunnel env so d) = drvRegion d" "drvName (init_stunnel env so d) = drvName d"
  "drvVendorVersion (init_stunnel env so d) = drvVendorVersion d" "drvCscap (init_stunnel env so d) = drvCscap d"
  "drvNscap (init_stunnel env so d) = drvNscap d" "drvIds (init_stunnel env so d) = drvIds d" "drvCs (init_stunnel env so d) = drvCs d"
  by (simp_all add: init_stunnel_def split: sum.splits)

definition tunnels_enabled :: "'s provider \<Rightarrow> environ \<Rightarrow> start_os \<Rightarrow> stunnel_manager option" where
  "tunnels_enabled P env so =
     (case (GetProviderSession P, NewStunnelManager False env (statOk so) (startFaults so) (readDirFails so) (startFiles so)) of
        (Inr S, Inr sm) \<Rightarrow> if Getenv env ''IS_NODE_SERVER'' = ''true'' then Some sm else None
      | _ \<Rightarrow> None)"

text \<open>C34: the setup succeeds exactly when there are a provider, a mounter, a name and the metadata of the node. The driver
  then has its name, version and region, the two access modes, the advertised capabilities (of which none is of a
  call that the driver refuses, such as publishing at the controller or staging), and all three services; rfs is
  enabled exactly if a session was opened and knows the profile; the node service has a tunnel manager exactly if
  it is a node server, a session was opened, and the manager could be built.\<close>

theorem SetupIBMCSIDriver_spec:
  assumes "cap_utils_ok C" "SetupIBMCSIDriver C provider mounterNil metadata newMetadata profileOk env so name version d = (err, d')"
  shows "(err = None \<longleftrightarrow> provider \<noteq> None \<and> \<not> mounterNil \<and> name \<noteq> '''' \<and> newMetadata \<noteq> None) \<and>
    (err = None \<longrightarrow>
       GetPluginInfo (Some d') = Ok (name, version) \<and> drvRegion d' = mdRegion (the newMetadata) \<and>
       drvVcap d' = [SINGLE_NODE_WRITER, MULTI_NODE_MULTI_WRITER] \<and>
       ControllerGetCapabilities d' =
         [CREATE_DELETE_VOLUME, LIST_VOLUMES, CREATE_DELETE_SNAPSHOT, LIST_SNAPSHOTS, EXPAND_VOLUME] \<and>
       NodeGetCapabilities d' = [GET_VOLUME_STATS] \<and> drvIds d' \<and> drvCs d' \<and>
       (drvRfsEnabled d' \<longleftrightarrow> (\<exists>S. GetProviderSession (the provider) = Inr S \<and> profileOk S RFSProfile)) \<and>
       drvNs d' = Some \<lparr>nsvMetadata = metadata, nsvStunnelMgr = tunnels_enabled (the provider) env so\<rparr>)"
proof (cases "provider = None \<or> mounterNil \<or> name = '''' \<or> newMetadata = None")
  case True
  then show ?thesis using assms(2) by (auto simp: SetupIBMCSIDriver_def Let_def split: if_splits option.splits)
next
  case False
  then obtain P md where p: "provider = Some P" "newMetadata = Some md" by auto
  have caps: "map (NewVolumeCapabilityAccessMode C) xs = xs" "map (NewControllerServiceCapability C) ys = ys"
    "map (NewNodeServiceCapability C) zs = zs" for xs ys zs
    using assms(1) by (simp_all add: cap_utils_ok_def map_idI)
  have added: "drvVcap (add_capabilities C e) = [SINGLE_NODE_WRITER, MULTI_NODE_MULTI_WRITER]"
    "drvCscap (add_capabilities C e) = [CREATE_DELETE_VOLUME, LIST_VOLUMES, CREATE_DELETE_SNAPSHOT, LIST_SNAPSHOTS, EXPAND_VOLUME]"
    "drvNscap (add_capabilities C e) = [GET_VOLUME_STATS]" "drvName (add_capabilities C e) = drvName e"
    "drvVendorVersion (add_capabilities C e) = drvVendorVersion e" for e
    unfolding add_capabilities_def AddVolumeCapabilityAccessModes_def AddControllerServiceCapabilities_def
      AddNodeServiceCapabilities_def foldl_snoc caps by simp_all
  let ?d1 = "(add_capabilities C (d\<lparr>drvName := name, drvVendorVersion := version\<rparr>))
    \<lparr>drvIds := True, drvNs := Some (NewNodeServer metadata), drvCs := True, drvRegion := mdRegion md\<rparr>"
  consider e where "GetProviderSession P = Inl e" "d' = ?d1\<lparr>drvRfsEnabled := False\<rparr>"
    | S where "GetProviderSession P = Inr S" "d' = init_stunnel env so (?d1\<lparr>drvRfsEnabled := profileOk S RFSProfile\<rparr>)"
    using assms(2) False p by (cases "GetProviderSession P") (auto simp: SetupIBMCSIDriver_def Let_def)
  moreover have "err = None"
    using assms(2) False p by (auto simp: SetupIBMCSIDriver_def Let_def split: sum.splits)
  moreover have "drvNs (init_stunnel env so (?d1\<lparr>drvRfsEnabled := b\<rparr>)) =
      Some \<lparr>nsvMetadata = metadata, nsvStunnelMgr = tunnels_enabled P env so\<rparr>" if "GetProviderSession P = Inr S" for b S
    using that by (simp add: init_stunnel_def tunnels_enabled_def NewNodeServer_def split: sum.splits)
  ultimately show ?thesis
    using False p
    by cases (simp_all add: added GetPluginInfo_def ControllerGetCapabilities_def NodeGetCapabilities_def
        tunnels_enabled_def NewNodeServer_def)
qed

definition demo_caps :: cap_utils where
  "demo_caps = \<lparr>NewVolumeCapabilityAccessMode = (\<lambda>m. m), NewControllerServiceCapability = (\<lambda>r. r), NewNodeServiceCapability = (\<lambda>r. r)\<rparr>"

lemma demo_caps_ok: "cap_utils_ok demo_caps"
  by (simp add: demo_caps_def cap_utils_ok_def)

definition demo_metadata :: node_metadata where
  "demo_metadata = \<lparr>mdRegion = ''us-south'', mdZone = ''us-south-1'', mdWorkerID = ''w1''\<rparr>"

text \<open>A node server on Ubuntu whose CA bundle exists and whose services directory is empty.\<close>

definition demo_node_env :: environ where
  "demo_node_env = fmap_of_list [(''IS_NODE_SERVER'', ''true''), (''OS_TYPE'', ''Ubuntu'')]"

definition demo_start :: start_os where
  "demo_start = \<lparr>statOk = (\<lambda>_. True), startFaults = no_faults, readDirFails = False,
     startFiles = fmempty\<rparr>"

theorem SetupIBMCSIDriver_spec_witness:
  "\<exists>d'. SetupIBMCSIDriver demo_caps (Some \<lparr>GetConfig = demo_config, GetClusterID = ''c'', GetProviderSession = Inl (Message ''e'') :: provider_error + unit session\<rparr>)
      False None (Some demo_metadata) (\<lambda>_ _. True) demo_node_env demo_start ''n'' ''1'' GetIBMCSIDriver = (None, d') \<and>
    drvVcap d' = [SINGLE_NODE_WRITER, MULTI_NODE_MULTI_WRITER] \<and> \<not> drvRfsEnabled d'"
proof -
  let ?P = "\<lparr>GetConfig = demo_config, GetClusterID = ''c'', GetProviderSession = Inl (Message ''e'') :: provider_error + unit session\<rparr>"
  obtain err d' where s: "SetupIBMCSIDriver demo_caps (Some ?P) False None (Some demo_metadata) (\<lambda>_ _. True) demo_node_env demo_start
      ''n'' ''1'' GetIBMCSIDriver = (err, d')" by (metis prod.exhaust)
  from SetupIBMCSIDriver_spec[OF demo_caps_ok s] s show ?thesis by simp
qed

text \<open>A node server that cannot open a provider session when it starts has no tunnel manager, although one could be
  built and the setup reports success: every publish of an encrypted rfs share on that node fails with an internal
  error until the process is restarted.\<close>

lemma no_session_no_tunnels:
  "\<exists>d ns. SetupIBMCSIDriver demo_caps (Some \<lparr>GetConfig = demo_config, GetClusterID = ''c'', GetProviderSession = Inl e :: provider_error + 's session\<rparr>)
       False None (Some demo_metadata) profileOk demo_node_env demo_start CSIDriverName ''1'' GetIBMCSIDriver = (None, d) \<and>
     (\<exists>sm. NewStunnelManager False demo_node_env (statOk demo_start) (startFaults demo_start) (readDirFails demo_start)
        (startFiles demo_start) = Inr sm) \<and>
     drvNs d = Some ns \<and>
     (\<nexists>p st (st' :: 'm node_state). nsMgr st = nsvStunnelMgr ns \<and> map_get ctx ProfileLabel = RFSProfile \<and> map_get ctx IsEITEnabled = TrueStr \<and>
        plan_mount os rid source ctx flags st = (Ok p, st'))"
proof -
  have "Getenv demo_node_env ''OS_TYPE'' = ''Ubuntu''" by (simp add: demo_node_env_def Getenv_def)
  then have "\<exists>sm. NewStunnelManager False demo_node_env (statOk demo_start) (startFaults demo_start) (readDirFails demo_start)
       (startFiles demo_start) = Inr sm"
    by (simp add: NewStunnelManager_def detectCABundle_def getClusterEnv_def demo_start_def Let_def UbuntuCAPath_def
        ProductionCheckHost_def StagingCheckHost_def recoverExistingTunnels_def)
  moreover have "CSIDriverName \<noteq> []" by (simp add: CSIDriverName_def)
  ultimately show ?thesis
    by (auto simp: SetupIBMCSIDriver_def Let_def NewNodeServer_def plan_mount_def plan_tunnel_def)
qed

end
