(* ===== verification/Go_Url.thy ===== *)
theory Go_Url
  imports Go_Strings
begin

text \<open>
  How \<open>url.Parse\<close> of Go's \<open>net/url\<close> reads the endpoint of the server: fragment and query are cut off, then scheme,
  authority and path are separated, and percent escapes are decoded. Only the parts of the result that the server reads
  are kept. The rules for a host in square brackets differ between the releases of Go; they are the argument \<open>ip\<close>.
\<close>

section \<open>Characters and escapes\<close>

definition url_letter :: "char \<Rightarrow> bool" where
  "url_letter c \<longleftrightarrow> (let n = of_char c :: nat in 65 \<le> n \<and> n \<le> 90 \<or> 97 \<le> n \<and> n \<le> 122)"

text \<open>Control bytes are refused anywhere before the fragment.\<close>

definition ctl_byte :: "char \<Rightarrow> bool" where
  "ctl_byte c \<longleftrightarrow> (of_char c :: nat) < 32 \<or> (of_char c :: nat) = 127"

definition unhex :: "char \<Rightarrow> nat option" where
  "unhex c =
     (let n = of_char c in
      if 48 \<le> n \<and> n \<le> 57 then Some (n - 48)
      else if 97 \<le> n \<and> n \<le> 102 then Some (n - 87)
      else if 65 \<le> n \<and> n \<le> 70 then Some (n - 55)
      else None)"

datatype encoding = encodePath | encodeHost | encodeUserPassword | encodeFragment

text \<open>The ASCII characters a host may contain as they are.\<close>

definition host_char :: "char \<Rightarrow> bool" where
  "host_char c \<longleftrightarrow> url_letter c \<or> is_digit c \<or> c \<in> set ''!$&()*+,;=:[]<>-_.~'' \<or> c = CHR 0x22 \<or> c = CHR 0x27"

text \<open>In a host only bytes outside ASCII and the percent sign itself may be escaped.\<close>

fun unescape :: "encoding \<Rightarrow> string \<Rightarrow> string option" where
  "unescape mode [] = Some []"
| "unescape mode (c # s) =
     (if c = CHR ''%'' then
        (case s of
           a # b # t \<Rightarrow>
             (case (unhex a, unhex b) of
                (Some h, Some l) \<Rightarrow>
                  if mode = encodeHost \<and> h < 8 \<and> \<not> (a = CHR ''2'' \<and> b = CHR ''5'') then None
                  else map_option (\<lambda>r. char_of (16 * h + l) # r) (unescape mode t)
              | _ \<Rightarrow> None)
         | _ \<Rightarrow> None)
      else if mode = encodeHost \<and> (of_char c :: nat) < 128 \<and> \<not> host_char c then None
      else map_option (\<lambda>r. c # r) (unescape mode s))"

section \<open>Scheme, authority, path\<close>

definition Cut :: "string \<Rightarrow> char \<Rightarrow> string \<times> string" where
  "Cut s c = (takeWhile (\<lambda>x. x \<noteq> c) s, drop 1 (dropWhile (\<lambda>x. x \<noteq> c) s))"

text \<open>The loop over the bytes before a colon; \<open>None\<close> is the error of a missing scheme.\<close>

fun scheme_loop :: "string \<Rightarrow> string \<Rightarrow> string \<Rightarrow> (string \<times> string) option" where
  "scheme_loop raw seen [] = Some ([], raw)"
| "scheme_loop raw seen (c # rest) =
     (if url_letter c then scheme_loop raw (seen @ [c]) rest
      else if is_digit c \<or> c \<in> set ''+-.'' then
        (if seen = [] then Some ([], raw) else scheme_loop raw (seen @ [c]) rest)
      else if c = CHR '':'' then (if seen = [] then None else Some (seen, rest))
      else Some ([], raw))"

definition getScheme :: "string \<Rightarrow> (string \<times> string) option" where
  "getScheme raw = scheme_loop raw [] raw"

definition validOptionalPort :: "string \<Rightarrow> bool" where
  "validOptionalPort port \<longleftrightarrow> (case port of [] \<Rightarrow> True | c # ds \<Rightarrow> c = CHR '':'' \<and> list_all is_digit ds)"

definition parseHost :: "(string \<Rightarrow> string option) \<Rightarrow> string \<Rightarrow> string option" where
  "parseHost ip host =
     (if CHR ''['' \<in> set host then ip host
      else if LastIndex host '':'' \<noteq> -1 \<and> \<not> validOptionalPort (drop (nat (LastIndex host '':'')) host) then None
      else unescape encodeHost host)"

definition validUserinfo :: "string \<Rightarrow> bool" where
  "validUserinfo s \<longleftrightarrow> list_all (\<lambda>c. url_letter c \<or> is_digit c \<or> c \<in> set ''-._:~!$&()*+,;=%@'' \<or> c = CHR 0x27) s"

definition parseAuthority :: "(string \<Rightarrow> string option) \<Rightarrow> string \<Rightarrow> string option" where
  "parseAuthority ip authority =
     (let i = LastIndex authority ''@''
      in if i < 0 then parseHost ip authority
         else (case parseHost ip (drop (nat i + 1) authority) of
                 None \<Rightarrow> None
               | Some host \<Rightarrow>
                   (let userinfo = take (nat i) authority;
                        (user, password) = Cut userinfo CHR '':''
                    in if validUserinfo userinfo \<and> unescape encodeUserPassword user \<noteq> None \<and>
                          unescape encodeUserPassword password \<noteq> None
                       then Some host else None)))"

record url =
  urlScheme :: string
  urlHost :: string
  urlPath :: string

text \<open>A path without a leading slash after a scheme is opaque: the result has neither host nor path.\<close>

definition parse_url :: "(string \<Rightarrow> string option) \<Rightarrow> string \<Rightarrow> url option" where
  "parse_url ip rawURL =
     (if list_ex ctl_byte rawURL then None
      else if rawURL = ''*'' then Some \<lparr>urlScheme = [], urlHost = [], urlPath = ''*''\<rparr>
      else case getScheme rawURL of
          None \<Rightarrow> None
        | Some (scheme0, rest0) \<Rightarrow>
            (let scheme = ToLower scheme0;
                 rest = (if HasSuffix rest0 ''?'' \<and> count_list rest0 CHR ''?'' = 1 then butlast rest0 else fst (Cut rest0 CHR ''?''))
             in if \<not> HasPrefix rest ''/'' \<and> scheme \<noteq> [] then Some \<lparr>urlScheme = scheme, urlHost = [], urlPath = []\<rparr>
                else if \<not> HasPrefix rest ''/'' \<and> CHR '':'' \<in> set (fst (Cut rest CHR ''/'')) then None
                else if (scheme \<noteq> [] \<or> \<not> HasPrefix rest ''///'') \<and> HasPrefix rest ''//'' then
                  (let a = drop 2 rest
                   in case parseAuthority ip (takeWhile (\<lambda>c. c \<noteq> CHR ''/'') a) of
                        None \<Rightarrow> None
                      | Some host \<Rightarrow>
                          map_option (\<lambda>path. \<lparr>urlScheme = scheme, urlHost = host, urlPath = path\<rparr>)
                            (unescape encodePath (dropWhile (\<lambda>c. c \<noteq> CHR ''/'') a)))
                else map_option (\<lambda>path. \<lparr>urlScheme = scheme, urlHost = [], urlPath = path\<rparr>) (unescape encodePath rest)))"

definition Parse :: "(string \<Rightarrow> string option) \<Rightarrow> string \<Rightarrow> url option" where
  "Parse ip rawURL =
     (let (u, frag) = Cut rawURL CHR ''#''
      in case parse_url ip u of
           None \<Rightarrow> None
         | Some url \<Rightarrow> if frag \<noteq> [] \<and> unescape encodeFragment frag = None then None else Some url)"

section \<open>The endpoints in use\<close>

lemma Cut_absent: "c \<notin> set s \<Longrightarrow> Cut s c = (s, [])"
  by (induction s) (auto simp: Cut_def)

lemma unescape_plain: "CHR ''%'' \<notin> set s \<Longrightarrow> mode \<noteq> encodeHost \<or> list_all host_char s \<Longrightarrow> unescape mode s = Some s"
  by (induction s) auto

text \<open>A string without bytes that the parser treats specially, except the slash.\<close>

definition url_plain :: "string \<Rightarrow> bool" where
  "url_plain s \<longleftrightarrow> list_all (\<lambda>c. \<not> ctl_byte c \<and> c \<notin> set ''#?%'') s"

lemma url_plain_append [simp]: "url_plain (a @ b) \<longleftrightarrow> url_plain a \<and> url_plain b"
  by (auto simp: url_plain_def)

lemma url_plain_absent: "url_plain s \<Longrightarrow> CHR ''#'' \<notin> set s \<and> CHR ''?'' \<notin> set s \<and> CHR ''%'' \<notin> set s"
  by (auto simp: url_plain_def list_all_iff)

lemma getScheme_prefix:
  assumes "list_all url_letter sch" "sch \<noteq> []"
  shows "getScheme (sch @ CHR '':'' # rest) = Some (sch, rest)"
proof -
  have "scheme_loop raw seen (t @ CHR '':'' # rest) = (if seen @ t = [] then None else Some (seen @ t, rest))"
    if "list_all url_letter t" for raw seen t
    using that by (induction t arbitrary: seen) (auto simp: url_letter_def is_digit_def Let_def)
  from this[OF assms(1)] show ?thesis using assms(2) by (simp add: getScheme_def)
qed

text \<open>What remains of parsing once the string is known to be plain and to have a scheme of lower-case letters.\<close>

lemma Parse_plain:
  assumes "list_all url_letter sch" "sch \<noteq> []" "ToLower sch = sch" "url_plain sch" "url_plain rest" "HasPrefix rest ''/''"
  shows "Parse ip (sch @ CHR '':'' # rest) =
    (if HasPrefix rest ''//'' then
       map_option (\<lambda>host. \<lparr>urlScheme = sch, urlHost = host, urlPath = dropWhile (\<lambda>c. c \<noteq> CHR ''/'') (drop 2 rest)\<rparr>)
         (parseAuthority ip (takeWhile (\<lambda>c. c \<noteq> CHR ''/'') (drop 2 rest)))
     else Some \<lparr>urlScheme = sch, urlHost = [], urlPath = rest\<rparr>)"
proof -
  let ?u = "sch @ CHR '':'' # rest"
  have colon: "url_plain [CHR '':'']" by code_simp
  have plain: "url_plain ?u" using assms(4,5) colon url_plain_append[of "[CHR '':'']" rest] by simp
  have absent: "CHR ''#'' \<notin> set ?u" "CHR ''?'' \<notin> set rest" "CHR ''%'' \<notin> set rest"
    using url_plain_absent[OF plain] url_plain_absent[OF assms(5)] by auto
  have noctl: "\<not> list_ex ctl_byte ?u" using plain by (auto simp: url_plain_def list_ex_iff list_all_iff)
  have star: "?u \<noteq> ''*''" using assms(2) by (cases sch) auto
  have noq: "\<not> HasSuffix rest ''?''" using absent(2) by (auto simp: HasSuffix_iff)
  have suffix: "unescape encodePath (dropWhile (\<lambda>c. c \<noteq> CHR ''/'') (drop 2 rest)) = Some (dropWhile (\<lambda>c. c \<noteq> CHR ''/'') (drop 2 rest))"
    using absent(3) by (intro unescape_plain) (auto dest: set_dropWhileD in_set_dropD)
  have whole: "unescape encodePath rest = Some rest" using absent(3) by (intro unescape_plain) auto
  have "parse_url ip ?u = (if HasPrefix rest ''//'' then
       map_option (\<lambda>host. \<lparr>urlScheme = sch, urlHost = host, urlPath = dropWhile (\<lambda>c. c \<noteq> CHR ''/'') (drop 2 rest)\<rparr>)
         (parseAuthority ip (takeWhile (\<lambda>c. c \<noteq> CHR ''/'') (drop 2 rest)))
     else Some \<lparr>urlScheme = sch, urlHost = [], urlPath = rest\<rparr>)"
    unfolding parse_url_def getScheme_prefix[OF assms(1,2)]
    using noctl star noq assms(2,3,6) by (simp add: Let_def suffix whole Cut_absent[OF absent(2)] split: option.split)
  then show ?thesis
    by (simp only: Parse_def Cut_absent[OF absent(1)] prod.case Let_def) (simp split: option.split)
qed

text \<open>A unix socket at an absolute path, with and without an empty authority.\<close>

lemma parseAuthority_empty [simp]: "parseAuthority ip [] = Some []"
  by (simp add: parseAuthority_def parseHost_def LastIndex_def)

lemma unix_endpoint:
  assumes "url_plain p" "HasPrefix p ''/''"
  shows "\<not> HasPrefix p ''//'' \<Longrightarrow> Parse ip (''unix:'' @ p) = Some \<lparr>urlScheme = ''unix'', urlHost = [], urlPath = p\<rparr>"
    "Parse ip (''unix://'' @ p) = Some \<lparr>urlScheme = ''unix'', urlHost = [], urlPath = p\<rparr>"
proof -
  have sch: "list_all url_letter ''unix''" "''unix'' \<noteq> []" "ToLower ''unix'' = ''unix''" "url_plain ''unix''"
    by code_simp+
  show "\<not> HasPrefix p ''//'' \<Longrightarrow> Parse ip (''unix:'' @ p) = Some \<lparr>urlScheme = ''unix'', urlHost = [], urlPath = p\<rparr>"
    using Parse_plain[OF sch assms, of ip] by simp
  have slashes: "url_plain ''//''" by code_simp
  then have "url_plain (''//'' @ p)" using assms(1) url_plain_append by blast
  moreover obtain q where "p = CHR ''/'' # q" using assms(2) by (auto simp: HasPrefix_iff)
  ultimately show "Parse ip (''unix://'' @ p) = Some \<lparr>urlScheme = ''unix'', urlHost = [], urlPath = p\<rparr>"
    using Parse_plain[OF sch, of "''//'' @ p" ip] by simp
qed

text \<open>A relative path is read as opaque: the path of the result is empty.\<close>

lemma relative_unix_endpoint:
  assumes "url_plain p" "\<not> HasPrefix p ''/''"
  shows "Parse ip (''unix:'' @ p) = Some \<lparr>urlScheme = ''unix'', urlHost = [], urlPath = []\<rparr>"
proof -
  have sch: "list_all url_letter ''unix''" "''unix'' \<noteq> []" "ToLower ''unix'' = ''unix''" "url_plain ''unix:''"
    by code_simp+
  have plain: "url_plain (''unix:'' @ p)" using assms(1) sch(4) url_plain_append by blast
  have absent: "CHR ''#'' \<notin> set (''unix:'' @ p)" "CHR ''?'' \<notin> set p"
    using url_plain_absent[OF plain] url_plain_absent[OF assms(1)] by auto
  have noctl: "\<not> list_ex ctl_byte (''unix:'' @ p)" using plain by (auto simp: url_plain_def list_ex_iff list_all_iff)
  have noq: "\<not> HasSuffix p ''?''" using absent(2) by (auto simp: HasSuffix_iff)
  have gs: "getScheme (''unix:'' @ p) = Some (''unix'', p)" using getScheme_prefix[OF sch(1,2), of p] by simp
  have "parse_url ip (''unix:'' @ p) = Some \<lparr>urlScheme = ''unix'', urlHost = [], urlPath = []\<rparr>"
    unfolding parse_url_def gs using noctl noq assms(2) by (simp add: Let_def Cut_absent[OF absent(2)] sch(3))
  then show ?thesis by (simp only: Parse_def Cut_absent[OF absent(1)] prod.case Let_def) simp
qed

text \<open>A host with a port.\<close>

lemma tcp_endpoint:
  assumes "list_all (\<lambda>c. host_char c \<and> c \<notin> set ''[:'') h" "list_all is_digit ds"
  shows "Parse ip (''tcp://'' @ h @ '':'' @ ds) = Some \<lparr>urlScheme = ''tcp'', urlHost = h @ '':'' @ ds, urlPath = []\<rparr>"
proof -
  let ?a = "h @ '':'' @ ds"
  have sch: "list_all url_letter ''tcp''" "''tcp'' \<noteq> []" "ToLower ''tcp'' = ''tcp''" "url_plain ''tcp''" by code_simp+
  have special: "\<not> host_char CHR ''/''" "\<not> host_char CHR ''@''" "\<not> host_char CHR ''%''" "\<not> host_char CHR ''#''" "\<not> host_char CHR ''?''"
    by code_simp+
  have ctl: "\<not> host_char c" if "ctl_byte c" for c
  proof -
    have "list_all (\<lambda>c. \<not> ctl_byte c) ''!$&()*+,;=:[]<>-_.~''" "\<not> ctl_byte CHR 0x22" "\<not> ctl_byte CHR 0x27" by code_simp+
    then show ?thesis using that by (auto simp: host_char_def list_all_iff ctl_byte_def[of c] url_letter_def is_digit_def Let_def)
  qed
  have dig: "host_char c" if "is_digit c" for c using that by (simp add: host_char_def)
  have colon: "host_char CHR '':''" "\<not> is_digit CHR '':''" "\<not> is_digit CHR ''[''" by code_simp+
  have hc: "list_all host_char ?a" using assms colon(1) dig unfolding list_all_append by (auto elim!: list.pred_mono_strong)
  have nb: "CHR ''['' \<notin> set ?a" "CHR '':'' \<notin> set ds" using assms colon by (auto simp: list_all_iff)
  have na: "CHR ''/'' \<notin> set ?a" "CHR ''@'' \<notin> set ?a" "CHR ''%'' \<notin> set ?a" using hc special by (auto simp: list_all_iff)
  have "url_plain ?a" using hc special ctl by (auto simp: url_plain_def list_all_iff)
  moreover have "url_plain ''//''" by code_simp
  ultimately have plain: "url_plain (''//'' @ ?a)" using url_plain_append by blast
  have li: "LastIndex ?a '':'' = int (length h)" using LastIndex_char_append[OF nb(2)] by simp
  have "parseHost ip ?a = Some ?a"
    unfolding parseHost_def li using nb(1) assms(2) unescape_plain[OF na(3)] hc by (simp add: validOptionalPort_def)
  moreover have "LastIndex ?a ''@'' = -1" using LastIndex_nat_notin[OF na(2)] by (simp add: LastIndex_def)
  ultimately have "parseAuthority ip ?a = Some ?a" by (simp add: parseAuthority_def)
  moreover have "takeWhile (\<lambda>c. c \<noteq> CHR ''/'') ?a = ?a" "dropWhile (\<lambda>c. c \<noteq> CHR ''/'') ?a = []"
    using na(1) by (auto simp: takeWhile_eq_all_conv dropWhile_eq_Nil_conv)
  moreover have "Parse ip (''tcp://'' @ a) = Some \<lparr>urlScheme = ''tcp'', urlHost = a, urlPath = []\<rparr>"
    if "url_plain (''//'' @ a)" "parseAuthority ip a = Some a" "takeWhile (\<lambda>c. c \<noteq> CHR ''/'') a = a" "dropWhile (\<lambda>c. c \<noteq> CHR ''/'') a = []" for a
    using Parse_plain[OF sch that(1), of ip] that(2-4) by simp
  ultimately show ?thesis using plain by blast
qed

end
