(* ===== verification/Socket_Permission.thy ===== *)
theory Socket_Permission
  imports Node "HOL-Library.Sublist"
begin

text \<open>
  The permissions of the server's socket, \<open>pkg/ibmcsidriver/fileOps.go\<close>: the interface \<open>socketPermission\<close>, its
  implementation by the operating system, its generated test double
  (\<open>ibmcsidriverfakes/fake_socket_permission.go\<close>), and \<open>setupSidecar\<close>, which uses the interface. The contract between
  the two is a locale: each operation records its arguments and nothing else. Both implementations satisfy it, so
  what is shown of \<open>setupSidecar\<close> holds on the system and in the tests. The mutexes of the double have no effect on one
  caller; its stubs are functions of their arguments.
\<close>

section \<open>The interface and its client\<close>

record 's socket_permission =
  spChown :: "string \<Rightarrow> int \<Rightarrow> int \<Rightarrow> 's \<Rightarrow> os_error option \<times> 's"
  spChmod :: "string \<Rightarrow> int \<Rightarrow> 's \<Rightarrow> os_error option \<times> 's"

text \<open>0660.\<close>

definition filePermission :: int where
  "filePermission = 6 * 8 ^ 2 + 6 * 8"

datatype sidecar_error = BadGroup string | ChownFailed os_error | ChmodFailed os_error

definition setupSidecar :: "'s socket_permission \<Rightarrow> environ \<Rightarrow> string \<Rightarrow> 's \<Rightarrow> (sidecar_error + unit) \<times> 's" where
  "setupSidecar ops env addr s =
     (let groupSt = (if Getenv env ''SIDECAR_GROUP_ID'' = '''' then ''0'' else Getenv env ''SIDECAR_GROUP_ID'')
      in case Atoi groupSt of
           None \<Rightarrow> (Inl (BadGroup groupSt), s)
         | Some gid \<Rightarrow>
             (case spChown ops addr (-1) gid s of
                (Some e, s1) \<Rightarrow> (Inl (ChownFailed e), s1)
              | (None, s1) \<Rightarrow>
                  (case spChmod ops addr filePermission s1 of
                     (Some e, s2) \<Rightarrow> (Inl (ChmodFailed e), s2)
                   | (None, s2) \<Rightarrow> (Inr (), s2))))"

definition group_of :: "environ \<Rightarrow> string" where
  "group_of env = (if Getenv env ''SIDECAR_GROUP_ID'' = '''' then ''0'' else Getenv env ''SIDECAR_GROUP_ID'')"

text \<open>What a user of the interface may rely on: the arguments of the calls, per operation and in order.\<close>

locale permission_ops =
  fixes ops :: "'s socket_permission"
    and chowns :: "'s \<Rightarrow> (string \<times> int \<times> int) list"
    and chmods :: "'s \<Rightarrow> (string \<times> int) list"
  assumes chown_records: "spChown ops name uid gid s = (r, s') \<Longrightarrow> chowns s' = chowns s @ [(name, uid, gid)] \<and> chmods s' = chmods s"
    and chmod_records: "spChmod ops name mode s = (r, s') \<Longrightarrow> chmods s' = chmods s @ [(name, mode)] \<and> chowns s' = chowns s"
begin

text \<open>One change of group, and one restriction to owner and group, made only after the first succeeded.\<close>

lemma sidecar_calls:
  assumes "setupSidecar ops env addr s = (r, s')"
  shows "case r of
      Inr _ \<Rightarrow> \<exists>gid. Atoi (group_of env) = Some gid \<and> chowns s' = chowns s @ [(addr, -1, gid)] \<and> chmods s' = chmods s @ [(addr, filePermission)]
    | Inl (BadGroup g) \<Rightarrow> Atoi (group_of env) = None \<and> chowns s' = chowns s \<and> chmods s' = chmods s
    | Inl (ChownFailed e) \<Rightarrow> \<exists>gid. Atoi (group_of env) = Some gid \<and> chowns s' = chowns s @ [(addr, -1, gid)] \<and> chmods s' = chmods s
    | Inl (ChmodFailed e) \<Rightarrow> \<exists>gid. Atoi (group_of env) = Some gid \<and> chowns s' = chowns s @ [(addr, -1, gid)] \<and>
        chmods s' = chmods s @ [(addr, filePermission)]"
  using assms unfolding setupSidecar_def group_of_def Let_def
  by (auto split: option.splits prod.splits if_splits dest!: chown_records chmod_records)

end

section \<open>The operating system\<close>

text \<open>What the server does to the system, in order.\<close>

datatype server_action =
    ARemove string
  | AListen string string
  | AChown string int int
  | AChmod string int
  | ARegister bool bool bool
  | AExit int

text \<open>\<open>os.Chown\<close> and \<open>os.Chmod\<close>, with what they return.\<close>

record permission_os =
  osChown :: "string \<Rightarrow> int \<Rightarrow> int \<Rightarrow> os_error option"
  osChmod :: "string \<Rightarrow> int \<Rightarrow> os_error option"

definition opsSocketPermission :: "permission_os \<Rightarrow> server_action list socket_permission" where
  "opsSocketPermission os =
     \<lparr>spChown = (\<lambda>name uid gid log. (osChown os name uid gid, log @ [AChown name uid gid])),
      spChmod = (\<lambda>name mode log. (osChmod os name mode, log @ [AChmod name mode]))\<rparr>"

fun chown_args :: "server_action \<Rightarrow> (string \<times> int \<times> int) list" where
  "chown_args (AChown name uid gid) = [(name, uid, gid)]"
| "chown_args _ = []"

fun chmod_args :: "server_action \<Rightarrow> (string \<times> int) list" where
  "chmod_args (AChmod name mode) = [(name, mode)]"
| "chmod_args _ = []"

interpretation system: permission_ops "opsSocketPermission os" "\<lambda>log. concat (map chown_args log)" "\<lambda>log. concat (map chmod_args log)" for os
  by unfold_locales (auto simp: opsSocketPermission_def)

section \<open>The test double\<close>

datatype fake_arg = FStr string | FInt int

record FakeSocketPermission =
  ChmodStub :: "(string \<Rightarrow> int \<Rightarrow> os_error option) option"
  chmodArgsForCall :: "(string \<times> int) list"
  chmodReturns :: "os_error option"
  chmodReturnsOnCall :: "(int, os_error option) fmap"
  ChownStub :: "(string \<Rightarrow> int \<Rightarrow> int \<Rightarrow> os_error option) option"
  chownArgsForCall :: "(string \<times> int \<times> int) list"
  chownReturns :: "os_error option"
  chownReturnsOnCall :: "(int, os_error option) fmap"
  invocations :: "(string, fake_arg list list) fmap"

text \<open>The zero value; a nil map reads like an empty one.\<close>

definition new_fake :: FakeSocketPermission where
  "new_fake = \<lparr>ChmodStub = None, chmodArgsForCall = [], chmodReturns = None, chmodReturnsOnCall = fmempty,
     ChownStub = None, chownArgsForCall = [], chownReturns = None, chownReturnsOnCall = fmempty, invocations = fmempty\<rparr>"

definition recordInvocation :: "string \<Rightarrow> fake_arg list \<Rightarrow> FakeSocketPermission \<Rightarrow> FakeSocketPermission" where
  "recordInvocation key args fake =
     fake\<lparr>invocations := fmupd key ((case fmlookup (invocations fake) key of None \<Rightarrow> [] | Some xs \<Rightarrow> xs) @ [args]) (invocations fake)\<rparr>"

definition Chmod :: "string \<Rightarrow> int \<Rightarrow> FakeSocketPermission \<Rightarrow> os_error option \<times> FakeSocketPermission" where
  "Chmod arg1 arg2 fake =
     (let ret = fmlookup (chmodReturnsOnCall fake) (int (length (chmodArgsForCall fake)));
          fake1 = recordInvocation ''Chmod'' [FStr arg1, FInt arg2]
                    (fake\<lparr>chmodArgsForCall := chmodArgsForCall fake @ [(arg1, arg2)]\<rparr>)
      in (case ChmodStub fake of
            Some stub \<Rightarrow> stub arg1 arg2
          | None \<Rightarrow> (case ret of Some result1 \<Rightarrow> result1 | None \<Rightarrow> chmodReturns fake), fake1))"

definition ChmodCallCount :: "FakeSocketPermission \<Rightarrow> int" where
  "ChmodCallCount fake = int (length (chmodArgsForCall fake))"

definition ChmodCalls :: "(string \<Rightarrow> int \<Rightarrow> os_error option) option \<Rightarrow> FakeSocketPermission \<Rightarrow> FakeSocketPermission" where
  "ChmodCalls stub fake = fake\<lparr>ChmodStub := stub\<rparr>"

text \<open>An index out of range panics.\<close>

definition ChmodArgsForCall :: "int \<Rightarrow> FakeSocketPermission \<Rightarrow> (unit, string \<times> int) outcome" where
  "ChmodArgsForCall i fake =
     (if 0 \<le> i \<and> i < int (length (chmodArgsForCall fake)) then Ok (chmodArgsForCall fake ! nat i) else Panic)"

definition ChmodReturns :: "os_error option \<Rightarrow> FakeSocketPermission \<Rightarrow> FakeSocketPermission" where
  "ChmodReturns result1 fake = fake\<lparr>ChmodStub := None, chmodReturns := result1\<rparr>"

definition ChmodReturnsOnCall :: "int \<Rightarrow> os_error option \<Rightarrow> FakeSocketPermission \<Rightarrow> FakeSocketPermission" where
  "ChmodReturnsOnCall i result1 fake =
     fake\<lparr>ChmodStub := None, chmodReturnsOnCall := fmupd i result1 (chmodReturnsOnCall fake)\<rparr>"

definition Chown :: "string \<Rightarrow> int \<Rightarrow> int \<Rightarrow> FakeSocketPermission \<Rightarrow> os_error option \<times> FakeSocketPermission" where
  "Chown arg1 arg2 arg3 fake =
     (let ret = fmlookup (chownReturnsOnCall fake) (int (length (chownArgsForCall fake)));
          fake1 = recordInvocation ''Chown'' [FStr arg1, FInt arg2, FInt arg3]
                    (fake\<lparr>chownArgsForCall := chownArgsForCall fake @ [(arg1, arg2, arg3)]\<rparr>)
      in (case ChownStub fake of
            Some stub \<Rightarrow> stub arg1 arg2 arg3
          | None \<Rightarrow> (case ret of Some result1 \<Rightarrow> result1 | None \<Rightarrow> chownReturns fake), fake1))"

definition ChownCallCount :: "FakeSocketPermission \<Rightarrow> int" where
  "ChownCallCount fake = int (length (chownArgsForCall fake))"

definition ChownCalls :: "(string \<Rightarrow> int \<Rightarrow> int \<Rightarrow> os_error option) option \<Rightarrow> FakeSocketPermission \<Rightarrow> FakeSocketPermission" where
  "ChownCalls stub fake = fake\<lparr>ChownStub := stub\<rparr>"

definition ChownArgsForCall :: "int \<Rightarrow> FakeSocketPermission \<Rightarrow> (unit, string \<times> int \<times> int) outcome" where
  "ChownArgsForCall i fake =
     (if 0 \<le> i \<and> i < int (length (chownArgsForCall fake)) then Ok (chownArgsForCall fake ! nat i) else Panic)"

definition ChownReturns :: "os_error option \<Rightarrow> FakeSocketPermission \<Rightarrow> FakeSocketPermission" where
  "ChownReturns result1 fake = fake\<lparr>ChownStub := None, chownReturns := result1\<rparr>"

definition ChownReturnsOnCall :: "int \<Rightarrow> os_error option \<Rightarrow> FakeSocketPermission \<Rightarrow> FakeSocketPermission" where
  "ChownReturnsOnCall i result1 fake =
     fake\<lparr>ChownStub := None, chownReturnsOnCall := fmupd i result1 (chownReturnsOnCall fake)\<rparr>"

definition Invocations :: "FakeSocketPermission \<Rightarrow> (string, fake_arg list list) fmap" where
  "Invocations fake = invocations fake"

definition fake_ops :: "FakeSocketPermission socket_permission" where
  "fake_ops = \<lparr>spChown = Chown, spChmod = Chmod\<rparr>"

lemma recordInvocation_sels [simp]:
  "chmodArgsForCall (recordInvocation k a f) = chmodArgsForCall f" "chownArgsForCall (recordInvocation k a f) = chownArgsForCall f"
  "ChmodStub (recordInvocation k a f) = ChmodStub f" "ChownStub (recordInvocation k a f) = ChownStub f"
  "chmodReturns (recordInvocation k a f) = chmodReturns f" "chownReturns (recordInvocation k a f) = chownReturns f"
  "chmodReturnsOnCall (recordInvocation k a f) = chmodReturnsOnCall f"
  "chownReturnsOnCall (recordInvocation k a f) = chownReturnsOnCall f"
  by (simp_all add: recordInvocation_def)

interpretation fake: permission_ops fake_ops chownArgsForCall chmodArgsForCall
  by unfold_locales (auto simp: fake_ops_def Chown_def Chmod_def Let_def)

section \<open>The double answers like the system\<close>

lemma Chmod_after_Chown: "fst (Chmod a m (snd (Chown b u g f))) = fst (Chmod a m f)"
  by (auto simp: Chmod_def Chown_def Let_def split: option.splits)

text \<open>The test double stands for the system. If the calls of the double are set up to return what the system returns
  (by stubs, by returns per call or by plain returns), then \<open>setupSidecar\<close> has the same result on both, and the arguments
  that the double recorded are those of the system calls, so what the tests assert of the double holds of the driver.\<close>

lemma setupSidecar_double:
  assumes "\<forall>gid. fst (Chown addr (-1) gid f) = osChown os addr (-1) gid"
    "fst (Chmod addr filePermission f) = osChmod os addr filePermission"
    "setupSidecar fake_ops env addr f = (r, f')" "setupSidecar (opsSocketPermission os) env addr log = (r', log @ done)"
  shows "r = r' \<and> chownArgsForCall f' = chownArgsForCall f @ concat (map chown_args done) \<and>
    chmodArgsForCall f' = chmodArgsForCall f @ concat (map chmod_args done)"
proof -
  have same: "r = r'"
  proof (cases "Atoi (group_of env)")
    case None
    then show ?thesis using assms(3,4) by (auto simp: setupSidecar_def group_of_def Let_def split: option.splits prod.splits)
  next
    case (Some gid)
    obtain e f1 where c: "Chown addr (-1) gid f = (e, f1)" by (metis prod.exhaust)
    obtain e' f2 where m: "Chmod addr filePermission f1 = (e', f2)" by (metis prod.exhaust)
    have e: "e = osChown os addr (-1) gid" "e' = osChmod os addr filePermission"
      using assms(1,2) c m Chmod_after_Chown[of addr filePermission addr "-1" gid f] by (metis fst_conv, metis fst_conv snd_conv)
    show ?thesis
      using assms(3,4) Some unfolding setupSidecar_def group_of_def[symmetric] Let_def fake_ops_def opsSocketPermission_def
      by (auto simp: c m e split: option.splits)
  qed
  then show ?thesis
    using fake.sidecar_calls[OF assms(3)] system.sidecar_calls[OF assms(4)]
    by (auto split: sum.splits sidecar_error.splits)
qed

lemma setupSidecar_double_example:
  "\<exists>f'. setupSidecar fake_ops (fmupd ''SIDECAR_GROUP_ID'' ''2121'' fmempty) ''/csi/csi.sock''
       (ChmodReturnsOnCall 0 (Some (OsError ''denied'')) (ChownReturns None new_fake)) = (Inl (ChmodFailed (OsError ''denied'')), f') \<and>
     chownArgsForCall f' = [(''/csi/csi.sock'', -1, 2121)] \<and> chmodArgsForCall f' = [(''/csi/csi.sock'', filePermission)]"
proof -
  let ?env = "fmupd ''SIDECAR_GROUP_ID'' ''2121'' fmempty"
  let ?f = "ChmodReturnsOnCall 0 (Some (OsError ''denied'')) (ChownReturns None new_fake)"
  let ?os = "\<lparr>osChown = \<lambda>_ _ _. None, osChmod = \<lambda>_ _. Some (OsError ''denied'')\<rparr>"
  let ?done = "[AChown ''/csi/csi.sock'' (-1) 2121, AChmod ''/csi/csi.sock'' filePermission]"
  have "Atoi ''2121'' = Some 2121" by code_simp
  then have s: "setupSidecar (opsSocketPermission ?os) ?env ''/csi/csi.sock'' [] = (Inl (ChmodFailed (OsError ''denied'')), [] @ ?done)"
    by (simp add: setupSidecar_def opsSocketPermission_def Let_def)
  obtain r f' where f: "setupSidecar fake_ops ?env ''/csi/csi.sock'' ?f = (r, f')" by (metis prod.exhaust)
  have sels: "chownArgsForCall ?f = []" "chmodArgsForCall ?f = []"
    by (simp_all add: ChmodReturnsOnCall_def ChownReturns_def new_fake_def)
  have "fst (Chown ''/csi/csi.sock'' (-1) gid ?f) = osChown ?os ''/csi/csi.sock'' (-1) gid" for gid
    by (simp add: Chown_def ChmodReturnsOnCall_def ChownReturns_def new_fake_def Let_def)
  moreover have "fst (Chmod ''/csi/csi.sock'' filePermission ?f) = osChmod ?os ''/csi/csi.sock'' filePermission"
    by (simp add: Chmod_def ChmodReturnsOnCall_def ChownReturns_def new_fake_def Let_def)
  ultimately show ?thesis
    using setupSidecar_double[OF _ _ f s] f by (simp add: sels)
qed

section \<open>The records of the double agree\<close>

inductive fake_step :: "FakeSocketPermission \<Rightarrow> FakeSocketPermission \<Rightarrow> bool" where
  chown: "fake_step f (snd (Chown a u g f))"
| chmod: "fake_step f (snd (Chmod a m f))"
| chown_calls: "fake_step f (ChownCalls st f)"
| chmod_calls: "fake_step f (ChmodCalls st' f)"
| chown_returns: "fake_step f (ChownReturns e f)"
| chmod_returns: "fake_step f (ChmodReturns e f)"
| chown_returns_on: "fake_step f (ChownReturnsOnCall i e f)"
| chmod_returns_on: "fake_step f (ChmodReturnsOnCall i e f)"

definition recorded :: "string \<Rightarrow> FakeSocketPermission \<Rightarrow> fake_arg list list" where
  "recorded key f = (case fmlookup (Invocations f) key of None \<Rightarrow> [] | Some xs \<Rightarrow> xs)"

definition fake_inv :: "FakeSocketPermission \<Rightarrow> bool" where
  "fake_inv f \<longleftrightarrow>
     recorded ''Chown'' f = map (\<lambda>(a, u, g). [FStr a, FInt u, FInt g]) (chownArgsForCall f) \<and>
     recorded ''Chmod'' f = map (\<lambda>(a, m). [FStr a, FInt m]) (chmodArgsForCall f)"

interpretation double: step_system fake_step fake_inv
proof
  fix f f' :: FakeSocketPermission
  assume "fake_step f f'" "fake_inv f"
  then show "fake_inv f'"
    by cases (auto simp: fake_inv_def recorded_def Invocations_def recordInvocation_def Chown_def Chmod_def Let_def ChownCalls_def
        ChmodCalls_def ChownReturns_def ChmodReturns_def ChownReturnsOnCall_def ChmodReturnsOnCall_def split: option.splits)
qed

text \<open>Whatever methods of the double were called, its general record of invocations agrees with the arguments per
  method, in number and in order.\<close>

lemma fake_records_agree:
  assumes "fake_step\<^sup>*\<^sup>* new_fake f"
  shows "fake_inv f \<and> ChownCallCount f = int (length (recorded ''Chown'' f)) \<and> ChmodCallCount f = int (length (recorded ''Chmod'' f))"
proof -
  have "fake_inv f"
    by (rule double.run_keeps[OF assms]) (simp add: fake_inv_def recorded_def Invocations_def new_fake_def)
  then show ?thesis by (simp add: fake_inv_def ChownCallCount_def ChmodCallCount_def)
qed

end
