(* ===== verification/Server.thy ===== *)
theory Server
  imports Driver Go_Url Socket_Permission
begin

text \<open>
  The gRPC server of \<open>pkg/ibmcsidriver/server.go\<close>. The state is the list of
  actions taken on the system; what the system answers and what the libraries construct are arguments. Serving
  requests is the business of gRPC; the handlers are the definitions of the other theories. The life of the server
  object (start, wait, stop) is a step relation.
\<close>

section \<open>The server\<close>

datatype server_error =
    EndpointNotParsed
  | SocketNotRemoved os_error
  | SchemeNotSupported string
  | ListenFailed
  | SidecarFailed sidecar_error

record server_os =
  ipLiteral :: "string \<Rightarrow> string option"
  removeFile :: "string \<Rightarrow> os_error option"
  listens :: "string \<Rightarrow> string \<Rightarrow> bool"
  permission :: permission_os

text \<open>The address to listen on; a left-over socket is removed first.\<close>

definition listen_address :: "server_os \<Rightarrow> url \<Rightarrow> server_action list \<Rightarrow> (server_error + string) \<times> server_action list" where
  "listen_address os u log =
     (if urlScheme u = ''unix'' then
        (case removeFile os (urlPath u) of
           Some (OsError e) \<Rightarrow> (Inl (SocketNotRemoved (OsError e)), log @ [ARemove (urlPath u)])
         | _ \<Rightarrow> (Inr (urlPath u), log @ [ARemove (urlPath u)]))
      else if urlScheme u = ''tcp'' then (Inr (urlHost u), log)
      else (Inl (SchemeNotSupported (urlScheme u)), log))"

text \<open>\<open>ids\<close>, \<open>cs\<close> and \<open>ns\<close> tell which services are not nil.\<close>

definition Setup ::
  "server_os \<Rightarrow> environ \<Rightarrow> string \<Rightarrow> bool \<Rightarrow> bool \<Rightarrow> bool \<Rightarrow> server_action list \<Rightarrow> (server_error + string) \<times> server_action list" where
  "Setup os env endpoint ids cs ns log =
     (case Parse (ipLiteral os) endpoint of
        None \<Rightarrow> (Inl EndpointNotParsed, log)
      | Some u \<Rightarrow>
          (case listen_address os u log of
             (Inl e, log1) \<Rightarrow> (Inl e, log1)
           | (Inr addr, log1) \<Rightarrow>
               if \<not> listens os (urlScheme u) addr then (Inl ListenFailed, log1 @ [AListen (urlScheme u) addr])
               else (let log2 = log1 @ [AListen (urlScheme u) addr];
                         sidecar = (if Getenv env ''IS_NODE_SERVER'' = ''true''
                                    then setupSidecar (opsSocketPermission (permission os)) env addr log2 else (Inr (), log2))
                     in case sidecar of
                          (Inl e, log3) \<Rightarrow> (Inl (SidecarFailed e), log3)
                        | (Inr _, log3) \<Rightarrow> (Inr addr, log3 @ [ARegister ids cs ns]))))"

text \<open>
  On SIGTERM: the socket is removed and the process exits. The answer to this removal is an argument of its own: it
  comes long after the removal of a left-over socket at the start.
\<close>

definition removeCSISocket :: "(string \<Rightarrow> os_error option) \<Rightarrow> string \<Rightarrow> server_action list \<Rightarrow> server_action list" where
  "removeCSISocket remove endPoint log =
     (case remove endPoint of
        Some (OsError e) \<Rightarrow> log @ [ARemove endPoint, AExit 1]
      | _ \<Rightarrow> log @ [ARemove endPoint, AExit 0])"

text \<open>The interceptor returns what the handler returned; it does not recover from a panic of the handler.\<close>

definition logGRPC :: "('req \<Rightarrow> ('e, 'resp) outcome) \<Rightarrow> 'req \<Rightarrow> ('e, 'resp) outcome" where
  "logGRPC handler req =
     (case handler req of
        Err e \<Rightarrow> Err e
      | Ok resp \<Rightarrow> Ok resp
      | Panic \<Rightarrow> Panic)"

lemma logGRPC_transparent: "logGRPC handler = handler"
  by (simp add: fun_eq_iff logGRPC_def split: outcome.splits)

section \<open>The process\<close>

datatype start_result =
    NoVendorVersion
  | NoKubernetesClient
  | NoStorageProvider
  | DriverSetupFailed setup_error
  | ServerSetupFailed server_error
  | Serving string

text \<open>A server that cannot be set up is fatal; otherwise it serves until the listener is closed.\<close>

definition serve ::
  "server_os \<Rightarrow> environ \<Rightarrow> string \<Rightarrow> bool \<Rightarrow> bool \<Rightarrow> bool \<Rightarrow> server_action list \<Rightarrow> start_result \<times> server_action list" where
  "serve os env endpoint ids cs ns log =
     (case Setup os env endpoint ids cs ns log of
        (Inl e, log1) \<Rightarrow> (ServerSetupFailed e, log1)
      | (Inr addr, log1) \<Rightarrow> (Serving addr, log1))"

definition Run :: "server_os \<Rightarrow> environ \<Rightarrow> string \<Rightarrow> ibm_csi_driver \<Rightarrow> server_action list \<Rightarrow> start_result \<times> server_action list" where
  "Run os env endpoint d log = serve os env endpoint (drvIds d) (drvCs d) (drvNs d \<noteq> None) log"

section \<open>Properties\<close>

text \<open>The whole protocol of a start, for a parsed endpoint and the group of the sidecar.\<close>

definition start_protocol :: "environ \<Rightarrow> url \<Rightarrow> int \<Rightarrow> server_action list" where
  "start_protocol env u gid =
     (let addr = (if urlScheme u = ''unix'' then urlPath u else urlHost u)
      in (if urlScheme u = ''unix'' then [ARemove addr] else []) @ [AListen (urlScheme u) addr] @
         (if Getenv env ''IS_NODE_SERVER'' = ''true'' then [AChown addr (-1) gid, AChmod addr filePermission] else []))"

text \<open>
  That the calls of a start succeed: nothing of the listening or of the permissions fails, and before that a left-over
  socket is gone.
\<close>

definition protected :: "server_os \<Rightarrow> environ \<Rightarrow> string \<Rightarrow> string \<Rightarrow> int \<Rightarrow> bool" where
  "protected os env net addr gid \<longleftrightarrow> listens os net addr \<and>
     (Getenv env ''IS_NODE_SERVER'' = ''true'' \<longrightarrow> Atoi (group_of env) = Some gid \<and>
        osChown (permission os) addr (-1) gid = None \<and> osChmod (permission os) addr filePermission = None)"

definition start_ok :: "server_os \<Rightarrow> environ \<Rightarrow> url \<Rightarrow> int \<Rightarrow> bool" where
  "start_ok os env u gid \<longleftrightarrow> urlScheme u \<in> {''unix'', ''tcp''} \<and>
     (urlScheme u = ''unix'' \<longrightarrow> (\<nexists>e. removeFile os (urlPath u) = Some (OsError e))) \<and>
     protected os env (urlScheme u) (if urlScheme u = ''unix'' then urlPath u else urlHost u) gid"

lemma listen_address_cases:
  assumes "listen_address os u log = (r, log')"
  obtains (ok) addr where "r = Inr addr" "urlScheme u \<in> {''unix'', ''tcp''}" "addr = (if urlScheme u = ''unix'' then urlPath u else urlHost u)"
      "log' = log @ (if urlScheme u = ''unix'' then [ARemove addr] else [])"
      "\<And>gid. start_ok os env u gid \<longleftrightarrow> protected os env (urlScheme u) addr gid"
  | (fail) e where "r = Inl e" "log' = log @ (if urlScheme u = ''unix'' then [ARemove (urlPath u)] else [])"
      "\<And>gid. \<not> start_ok os env u gid"
  using assms that by (auto simp: listen_address_def start_ok_def split: if_splits option.splits os_error.splits)

lemma setupSidecar_cases:
  assumes "setupSidecar (opsSocketPermission os) env addr log = (r, log')"
  obtains (ok) gid where "r = Inr ()" "Atoi (group_of env) = Some gid" "log' = log @ [AChown addr (-1) gid, AChmod addr filePermission]"
      "osChown os addr (-1) gid = None" "osChmod os addr filePermission = None"
  | (fail) e gid where "r = Inl e" "Atoi (group_of env) = Some gid" "prefix log' (log @ [AChown addr (-1) gid, AChmod addr filePermission])"
      "\<not> (osChown os addr (-1) gid = None \<and> osChmod os addr filePermission = None)"
  | (group) e where "r = Inl e" "Atoi (group_of env) = None" "log' = log"
  using assms that by (auto simp: setupSidecar_def opsSocketPermission_def group_of_def Let_def split: if_splits option.splits)

text \<open>What follows the choice of the address.\<close>

lemma Setup_listening:
  assumes "Parse (ipLiteral os) endpoint = Some u" "listen_address os u [] = (Inr addr, log1)" "Setup os env endpoint ids cs ns [] = (r, log)"
    "protocol = (\<lambda>gid. log1 @ AListen (urlScheme u) addr #
      (if Getenv env ''IS_NODE_SERVER'' = ''true'' then [AChown addr (-1) gid, AChmod addr filePermission] else []))"
  obtains (fail) e gid where "r = Inl e" "prefix log (protocol gid)" "\<And>g. \<not> protected os env (urlScheme u) addr g"
  | (ok) gid where "r = Inr addr" "log = protocol gid @ [ARegister ids cs ns]" "protected os env (urlScheme u) addr gid"
proof -
  let ?log2 = "log1 @ [AListen (urlScheme u) addr]"
  note call = assms(3)[unfolded Setup_def assms(1) option.case assms(2) prod.case sum.case Let_def]
  consider "\<not> listens os (urlScheme u) addr" | "listens os (urlScheme u) addr" "Getenv env ''IS_NODE_SERVER'' \<noteq> ''true''"
    | "listens os (urlScheme u) addr" "Getenv env ''IS_NODE_SERVER'' = ''true''" by blast
  then show thesis
  proof cases
    case 1
    then show thesis using call by (intro fail[of ListenFailed 0]) (auto simp: assms(4) protected_def)
  next
    case 2
    then show thesis using call by (intro ok[of 0]) (auto simp: assms(4) protected_def)
  next
    case 3
    obtain b log3 where sc: "setupSidecar (opsSocketPermission (permission os)) env addr ?log2 = (b, log3)" by (metis prod.exhaust)
    then show thesis
    proof (cases rule: setupSidecar_cases)
      case (ok gid)
      then show thesis using call 3 sc by (intro that(2)[of gid]) (auto simp: assms(4) protected_def)
    next
      case (fail e gid)
      then show thesis using call 3 sc by (intro that(1)[of "SidecarFailed e" gid]) (auto simp: assms(4) protected_def)
    next
      case (group e)
      then show thesis using call 3 sc by (intro that(1)[of "SidecarFailed e" 0]) (auto simp: assms(4) protected_def)
    qed
  qed
qed

text \<open>C35: the server serves nothing before its socket is protected. A start goes through its actions in a fixed order:
  remove a left-over unix socket, listen, and on a node server give the socket to the group of the sidecar and restrict
  it to owner and group (0660). The services are registered, last, exactly when every one of these calls succeeded (a
  left-over socket that does not exist counts as removed); after any failure none is registered, and the actions so far
  are a prefix of that order.\<close>

theorem Setup_order:
  assumes "Setup os env endpoint ids cs ns [] = (r, log)"
  shows "(\<exists>e. r = Inl e \<and> (log = [] \<or> (\<exists>u gid. Parse (ipLiteral os) endpoint = Some u \<and> prefix log (start_protocol env u gid))) \<and>
       (\<forall>u gid. Parse (ipLiteral os) endpoint = Some u \<longrightarrow> \<not> start_ok os env u gid)) \<or>
    (\<exists>u gid addr. r = Inr addr \<and> Parse (ipLiteral os) endpoint = Some u \<and> start_ok os env u gid \<and>
       log = start_protocol env u gid @ [ARegister ids cs ns] \<and> addr = (if urlScheme u = ''unix'' then urlPath u else urlHost u))"
proof (cases "Parse (ipLiteral os) endpoint")
  case None
  then show ?thesis using assms by (auto simp: Setup_def)
next
  case (Some u)
  obtain a log1 where la: "listen_address os u [] = (a, log1)" by (metis prod.exhaust)
  then show ?thesis
  proof (cases rule: listen_address_cases[where env = env])
    case (fail e)
    then show ?thesis using assms Some la
      by (intro disjI1) (auto simp: Setup_def start_protocol_def Let_def intro!: exI[of _ u])
  next
    case (ok addr)
    have protocol: "start_protocol env u = (\<lambda>gid. log1 @ AListen (urlScheme u) addr #
        (if Getenv env ''IS_NODE_SERVER'' = ''true'' then [AChown addr (-1) gid, AChmod addr filePermission] else []))"
      using ok by (auto simp: start_protocol_def Let_def)
    show ?thesis
    proof (rule Setup_listening[OF Some la[unfolded ok(1)] assms protocol])
      fix e gid
      assume "r = Inl e" "prefix log (start_protocol env u gid)" "\<And>g. \<not> protected os env (urlScheme u) addr g"
      then show ?thesis using Some ok(5) by auto
    next
      fix gid
      assume "r = Inr addr" "log = start_protocol env u gid @ [ARegister ids cs ns]" "protected os env (urlScheme u) addr gid"
      then show ?thesis using Some ok(3,5) by blast
    qed
  qed
qed

definition demo_server :: server_os where
  "demo_server = \<lparr>ipLiteral = (\<lambda>_. None), removeFile = (\<lambda>_. None),
     listens = (\<lambda>_ _. True), permission = \<lparr>osChown = (\<lambda>_ _ _. None), osChmod = (\<lambda>_ _. None)\<rparr>\<rparr>"

lemma demo_endpoint:
  "Parse ip ''unix:/csi/csi.sock'' = Some \<lparr>urlScheme = ''unix'', urlHost = [], urlPath = ''/csi/csi.sock''\<rparr>"
proof -
  have "url_plain ''/csi/csi.sock''" by code_simp
  then show ?thesis using unix_endpoint(1)[of "''/csi/csi.sock''" ip] by simp
qed

theorem Setup_order_witness:
  "\<exists>gid addr log. Setup demo_server (fmupd ''IS_NODE_SERVER'' ''true'' fmempty) ''unix:/csi/csi.sock'' True True True [] = (Inr addr, log) \<and>
    log = [ARemove ''/csi/csi.sock'', AListen ''unix'' ''/csi/csi.sock'', AChown ''/csi/csi.sock'' (-1) gid,
      AChmod ''/csi/csi.sock'' filePermission, ARegister True True True]"
proof -
  let ?env = "fmupd ''IS_NODE_SERVER'' ''true'' fmempty"
  obtain addr log where r: "Setup demo_server ?env ''unix:/csi/csi.sock'' True True True [] = (Inr addr, log)"
  proof -
    have "Atoi ''0'' = Some 0" by code_simp
    then show thesis
      using that by (simp add: Setup_def demo_endpoint demo_server_def listen_address_def setupSidecar_def opsSocketPermission_def Getenv_def Let_def)
  qed
  from Setup_order[OF r] r show ?thesis by (auto simp: demo_endpoint demo_server_def start_protocol_def Let_def)
qed

section \<open>Endpoints\<close>

text \<open>The actions that concern one listening address.\<close>

fun on_address :: "string \<Rightarrow> string \<Rightarrow> server_action \<Rightarrow> bool" where
  "on_address net addr (ARemove a) \<longleftrightarrow> net = ''unix'' \<and> a = addr"
| "on_address net addr (AListen n a) \<longleftrightarrow> n = net \<and> a = addr"
| "on_address net addr (AChown a u g) \<longleftrightarrow> a = addr"
| "on_address net addr (AChmod a m) \<longleftrightarrow> a = addr"
| "on_address net addr (ARegister i c n) \<longleftrightarrow> True"
| "on_address net addr (AExit c) \<longleftrightarrow> False"

lemma Setup_on_address:
  assumes "Parse (ipLiteral os) endpoint = Some u" "urlScheme u = net" "net \<in> {''unix'', ''tcp''}"
    "addr = (if net = ''unix'' then urlPath u else urlHost u)" "Setup os env endpoint ids cs ns [] = (r, log)"
  shows "list_all (on_address net addr) log \<and> (\<forall>a. r = Inr a \<longrightarrow> a = addr \<and> AListen net addr \<in> set log)"
  using assms unfolding Setup_def listen_address_def setupSidecar_def opsSocketPermission_def Let_def
  by (auto split: if_splits option.splits os_error.splits)

text \<open>The address that an endpoint means: for an absolute path of plain characters, \<open>unix:path\<close> and \<open>unix://path\<close> both mean
  the socket at that path, and \<open>tcp://host:port\<close> means that host and port.\<close>

definition endpoint_at :: "string \<Rightarrow> string \<Rightarrow> string \<Rightarrow> bool" where
  "endpoint_at endpoint net addr \<longleftrightarrow>
     (\<exists>p. endpoint \<in> {''unix:'' @ p, ''unix://'' @ p} \<and> net = ''unix'' \<and> addr = p \<and> url_plain p \<and> HasPrefix p ''/'' \<and> \<not> HasPrefix p ''//'') \<or>
     (\<exists>h ds. endpoint = ''tcp://'' @ h @ '':'' @ ds \<and> net = ''tcp'' \<and> addr = h @ '':'' @ ds \<and>
        list_all (\<lambda>c. host_char c \<and> c \<notin> set ''[:'') h \<and> list_all is_digit ds)"

text \<open>The server listens where its endpoint says: every action of the start, the removal of a left-over socket included,
  concerns this address and no other, and a successful start listens on it.\<close>

lemma endpoint_address:
  assumes "endpoint_at endpoint net addr" "Setup os env endpoint ids cs ns [] = (r, log)"
  shows "list_all (on_address net addr) log \<and> (\<forall>a. r = Inr a \<longrightarrow> a = addr \<and> AListen net addr \<in> set log)"
  using assms(1) unfolding endpoint_at_def
proof (elim exE disjE conjE)
  fix p
  assume u: "endpoint \<in> {''unix:'' @ p, ''unix://'' @ p}" "net = ''unix''" "addr = p" "url_plain p" "HasPrefix p ''/''" "\<not> HasPrefix p ''//''"
  then have "Parse (ipLiteral os) endpoint = Some \<lparr>urlScheme = ''unix'', urlHost = [], urlPath = p\<rparr>"
    using unix_endpoint[OF u(4,5)] by blast
  from Setup_on_address[OF this _ _ _ assms(2), of net addr] show ?thesis using u(2,3) by auto
next
  fix h ds
  assume t: "endpoint = ''tcp://'' @ h @ '':'' @ ds" "net = ''tcp''" "addr = h @ '':'' @ ds"
    "list_all (\<lambda>c. host_char c \<and> c \<notin> set ''[:'') h" "list_all is_digit ds"
  have "Parse (ipLiteral os) endpoint = Some \<lparr>urlScheme = ''tcp'', urlHost = addr, urlPath = []\<rparr>"
    using tcp_endpoint[OF t(4,5)] t(1,3) by simp
  from Setup_on_address[OF this _ _ _ assms(2), of net addr] show ?thesis using t(2,3) by auto
qed

text \<open>An endpoint with a relative path is accepted, and the server then removes and listens on the empty path.\<close>

lemma relative_endpoint_empty_address:
  assumes "url_plain p" "\<not> HasPrefix p ''/''" "Setup os env (''unix:'' @ p) ids cs ns [] = (r, log)"
  shows "list_all (on_address ''unix'' []) log"
  using Setup_on_address[OF relative_unix_endpoint[OF assms(1,2)] _ _ _ assms(3), of "''unix''" "[]"] by simp

section \<open>The life of the server\<close>

text \<open>
  The server object: the counter of its wait group, and where its goroutine is. \<open>Start\<close> adds one to the counter and
  starts the goroutine of \<open>serve\<close>; nothing takes one off. \<open>Wait\<close> returns when the counter is zero. \<open>Stop\<close> and \<open>ForceStop\<close>
  make gRPC return from serving, as does an error of the listener; SIGTERM is handled once the server was set up
  and \<open>removeCSISocket\<close> has registered for it, and kills the process before, as SIGKILL does at any time. While requests
  are served, a handler that panics ends the process with Go's exit code 2: gRPC runs it in a goroutine of its own and
  the interceptor does not recover. \<open>hs\<close> are the ways the registered services can answer requests, one function for
  each state they may be in; \<open>rm\<close> answers the removal of the socket on SIGTERM.
\<close>

datatype phase = NotStarted | Starting | ServingAt string | ServeReturned string | Ended int | Killed

record server_process =
  pWg :: nat
  pPhase :: phase
  pLog :: "server_action list"

definition NewNonBlockingGRPCServer :: server_process where
  "NewNonBlockingGRPCServer = \<lparr>pWg = 0, pPhase = NotStarted, pLog = []\<rparr>"

definition Start :: "server_process \<Rightarrow> server_process" where
  "Start p = p\<lparr>pWg := pWg p + 1, pPhase := Starting\<rparr>"

text \<open>Whether \<open>Wait\<close> returns.\<close>

definition Wait :: "server_process \<Rightarrow> bool" where
  "Wait p \<longleftrightarrow> pWg p = 0"

text \<open>Stopping the gRPC server, gracefully or not; \<open>None\<close> when it is still nil, where gRPC is called on a nil server.\<close>

definition Stop :: "server_process \<Rightarrow> server_process option" where
  "Stop p =
     (case pPhase p of
        ServingAt addr \<Rightarrow> Some (p\<lparr>pPhase := ServeReturned addr\<rparr>)
      | ServeReturned addr \<Rightarrow> Some p
      | _ \<Rightarrow> None)"

definition ForceStop :: "server_process \<Rightarrow> server_process option" where
  "ForceStop p =
     (case pPhase p of
        ServingAt addr \<Rightarrow> Some (p\<lparr>pPhase := ServeReturned addr\<rparr>)
      | ServeReturned addr \<Rightarrow> Some p
      | _ \<Rightarrow> None)"

fun exit_code :: "server_action list \<Rightarrow> int" where
  "exit_code log = (case last log of AExit c \<Rightarrow> c | _ \<Rightarrow> 0)"

inductive process_step ::
  "server_os \<Rightarrow> (string \<Rightarrow> os_error option) \<Rightarrow> ('req \<Rightarrow> ('e, 'resp) outcome) set \<Rightarrow> environ \<Rightarrow> string \<Rightarrow> bool \<Rightarrow> bool \<Rightarrow> bool \<Rightarrow> server_process \<Rightarrow> server_process \<Rightarrow> bool"
  for os rm hs env endpoint ids cs ns where
  serving: "pPhase p = Starting \<Longrightarrow> serve os env endpoint ids cs ns (pLog p) = (Serving addr, log) \<Longrightarrow>
    process_step os rm hs env endpoint ids cs ns p (p\<lparr>pPhase := ServingAt addr, pLog := log\<rparr>)"
| fatal: "pPhase p = Starting \<Longrightarrow> serve os env endpoint ids cs ns (pLog p) = (ServerSetupFailed e, log) \<Longrightarrow>
    process_step os rm hs env endpoint ids cs ns p (p\<lparr>pPhase := Ended 1, pLog := log @ [AExit 1]\<rparr>)"
| stop: "Stop p = Some p' \<Longrightarrow> process_step os rm hs env endpoint ids cs ns p p'"
| force_stop: "ForceStop p = Some p' \<Longrightarrow> process_step os rm hs env endpoint ids cs ns p p'"
| listener_error: "pPhase p = ServingAt addr \<Longrightarrow> process_step os rm hs env endpoint ids cs ns p (p\<lparr>pPhase := ServeReturned addr\<rparr>)"
| sigterm: "pPhase p \<in> {ServingAt addr, ServeReturned addr} \<Longrightarrow> process_step os rm hs env endpoint ids cs ns p
    (p\<lparr>pPhase := Ended (exit_code (removeCSISocket rm addr (pLog p))), pLog := removeCSISocket rm addr (pLog p)\<rparr>)"
| request_panics: "pPhase p \<in> {ServingAt addr, ServeReturned addr} \<Longrightarrow> h \<in> hs \<Longrightarrow> logGRPC h req = Panic \<Longrightarrow>
    process_step os rm hs env endpoint ids cs ns p (p\<lparr>pPhase := Ended 2, pLog := pLog p @ [AExit 2]\<rparr>)"
| killed: "pPhase p \<in> {Starting, ServingAt addr, ServeReturned addr} \<Longrightarrow> process_step os rm hs env endpoint ids cs ns p (p\<lparr>pPhase := Killed\<rparr>)"
| run_returns: "Wait p \<Longrightarrow> pPhase p \<in> {Starting, ServingAt addr, ServeReturned addr} \<Longrightarrow>
    process_step os rm hs env endpoint ids cs ns p (p\<lparr>pPhase := Ended 0, pLog := pLog p @ [AExit 0]\<rparr>)"

text \<open>What holds of a process from its start to its end.\<close>

definition life_inv ::
  "server_os \<Rightarrow> (string \<Rightarrow> os_error option) \<Rightarrow> ('req \<Rightarrow> ('e, 'resp) outcome) set \<Rightarrow> environ \<Rightarrow> string \<Rightarrow> bool \<Rightarrow> bool \<Rightarrow> bool \<Rightarrow> server_process \<Rightarrow> bool" where
  "life_inv os rm hs env endpoint ids cs ns p \<longleftrightarrow> 1 \<le> pWg p \<and>
     (case pPhase p of
        NotStarted \<Rightarrow> False
      | Starting \<Rightarrow> pLog p = []
      | ServingAt addr \<Rightarrow> Setup os env endpoint ids cs ns [] = (Inr addr, pLog p)
      | ServeReturned addr \<Rightarrow> Setup os env endpoint ids cs ns [] = (Inr addr, pLog p)
      | Killed \<Rightarrow> True
      | Ended c \<Rightarrow>
          (\<exists>e log. Setup os env endpoint ids cs ns [] = (Inl e, log) \<and> c = 1 \<and> pLog p = log @ [AExit 1]) \<or>
          (\<exists>addr log. Setup os env endpoint ids cs ns [] = (Inr addr, log) \<and> pLog p = log @ [ARemove addr, AExit c] \<and>
             c = (if \<exists>e. rm addr = Some (OsError e) then 1 else 0)) \<or>
          (\<exists>addr log h req. Setup os env endpoint ids cs ns [] = (Inr addr, log) \<and> c = 2 \<and> pLog p = log @ [AExit 2] \<and>
             h \<in> hs \<and> h req = Panic))"

lemma removeCSISocket_log:
  "removeCSISocket rm addr log = log @ [ARemove addr, AExit (if \<exists>e. rm addr = Some (OsError e) then 1 else 0)]"
  by (auto simp: removeCSISocket_def split: option.splits os_error.splits)

lemma Stop_cases:
  assumes "Stop p = Some p' \<or> ForceStop p = Some p'"
  shows "p' = p \<or> (\<exists>addr. pPhase p = ServingAt addr \<and> p' = p\<lparr>pPhase := ServeReturned addr\<rparr>)"
  using assms unfolding Stop_def ForceStop_def by (cases "pPhase p") simp_all

lemma Stop_inv:
  assumes "Stop p = Some p' \<or> ForceStop p = Some p'" "life_inv os rm hs env endpoint ids cs ns p"
  shows "life_inv os rm hs env endpoint ids cs ns p'"
  using Stop_cases[OF assms(1)]
proof (elim disjE exE conjE)
  fix addr
  assume "pPhase p = ServingAt addr" "p' = p\<lparr>pPhase := ServeReturned addr\<rparr>"
  then show ?thesis using assms(2) by (simp add: life_inv_def)
qed (use assms(2) in simp)

lemma process_step_inv:
  assumes "process_step os rm hs env endpoint ids cs ns p p'" "life_inv os rm hs env endpoint ids cs ns p"
  shows "life_inv os rm hs env endpoint ids cs ns p'"
  using assms(1)
proof cases
  case stop
  then show ?thesis using Stop_inv assms(2) by blast
next
  case force_stop
  then show ?thesis using Stop_inv assms(2) by blast
qed (use assms(2) in \<open>auto simp: life_inv_def serve_def Wait_def removeCSISocket_log logGRPC_transparent split: prod.splits sum.splits\<close>)

interpretation process: step_system "process_step os rm hs env endpoint ids cs ns" "life_inv os rm hs env endpoint ids cs ns" for os rm hs env endpoint ids cs ns
  by unfold_locales (rule process_step_inv)

text \<open>C20: how the process ends. From its start on, a process that is not killed ends for one of three reasons: the server
  could not be set up (exit code 1); SIGTERM, and then the socket was removed last, with exit code 1 exactly when that
  removal failed and 0 otherwise; or a request whose handler panicked, since nothing recovers (exit code 2, the socket
  stays). If no handler panics the last is impossible. The process does not end by itself: \<open>Wait\<close> never returns, not even
  after the server has stopped serving, since nothing takes the one off the wait group that \<open>Start\<close> added.\<close>

theorem process_end:
  assumes "(process_step os rm hs env endpoint ids cs ns)\<^sup>*\<^sup>* (Start NewNonBlockingGRPCServer) p"
  shows "\<not> Wait p \<and> (\<forall>c. pPhase p = Ended c \<longrightarrow>
    (\<exists>e log. Setup os env endpoint ids cs ns [] = (Inl e, log) \<and> c = 1 \<and> pLog p = log @ [AExit 1]) \<or>
    (\<exists>addr log. Setup os env endpoint ids cs ns [] = (Inr addr, log) \<and> pLog p = log @ [ARemove addr, AExit c] \<and>
       c = (if \<exists>e. rm addr = Some (OsError e) then 1 else 0)) \<or>
    (\<exists>addr log h req. Setup os env endpoint ids cs ns [] = (Inr addr, log) \<and> c = 2 \<and> pLog p = log @ [AExit 2] \<and>
       h \<in> hs \<and> h req = Panic))"
proof -
  have "life_inv os rm hs env endpoint ids cs ns p"
    by (rule process.run_keeps[OF assms]) (simp add: life_inv_def Start_def NewNonBlockingGRPCServer_def)
  then show ?thesis by (cases "pPhase p") (simp_all add: life_inv_def Wait_def)
qed

text \<open>A process that serves, and the two ends that a start without faults does not exclude.\<close>

lemma demo_serving:
  "(process_step demo_server rm hs fmempty ''unix:/csi/csi.sock'' True True True)\<^sup>*\<^sup>* (Start NewNonBlockingGRPCServer)
     ((Start NewNonBlockingGRPCServer)\<lparr>pPhase := ServingAt ''/csi/csi.sock'',
        pLog := [ARemove ''/csi/csi.sock'', AListen ''unix'' ''/csi/csi.sock'', ARegister True True True]\<rparr>)"
proof -
  let ?p = "Start NewNonBlockingGRPCServer"
  let ?log = "[ARemove ''/csi/csi.sock'', AListen ''unix'' ''/csi/csi.sock'', ARegister True True True]"
  have "serve demo_server fmempty ''unix:/csi/csi.sock'' True True True (pLog ?p) = (Serving ''/csi/csi.sock'', ?log)"
    by (simp add: serve_def Setup_def demo_endpoint demo_server_def listen_address_def Let_def Getenv_def Start_def NewNonBlockingGRPCServer_def)
  then show ?thesis by (intro r_into_rtranclp process_step.serving) (simp_all add: Start_def)
qed

theorem process_end_witness:
  "(\<exists>p. (process_step demo_server (\<lambda>_. Some (OsError ''EBUSY'')) ({} :: (unit \<Rightarrow> (unit, unit) outcome) set) fmempty
       ''unix:/csi/csi.sock'' True True True)\<^sup>*\<^sup>* (Start NewNonBlockingGRPCServer) p \<and> pPhase p = Ended 1 \<and> \<not> Wait p) \<and>
   (\<exists>p. (process_step demo_server (\<lambda>_. None) {\<lambda>_ :: unit. Panic :: (unit, unit) outcome} fmempty
       ''unix:/csi/csi.sock'' True True True)\<^sup>*\<^sup>* (Start NewNonBlockingGRPCServer) p \<and> pPhase p = Ended 2 \<and> \<not> Wait p)"
proof
  let ?log = "[ARemove ''/csi/csi.sock'', AListen ''unix'' ''/csi/csi.sock'', ARegister True True True]"
  let ?q = "(Start NewNonBlockingGRPCServer)\<lparr>pPhase := ServingAt ''/csi/csi.sock'', pLog := ?log\<rparr>"
  let ?step1 = "process_step demo_server (\<lambda>_. Some (OsError ''EBUSY'')) ({} :: (unit \<Rightarrow> (unit, unit) outcome) set) fmempty ''unix:/csi/csi.sock'' True True True"
  have "?step1 ?q (?q\<lparr>pPhase := Ended 1, pLog := ?log @ [ARemove ''/csi/csi.sock'', AExit 1]\<rparr>)"
    using process_step.sigterm[of ?q "''/csi/csi.sock''" demo_server "\<lambda>_. Some (OsError ''EBUSY'')"] by (simp add: removeCSISocket_def)
  with demo_serving have run: "?step1\<^sup>*\<^sup>* (Start NewNonBlockingGRPCServer) (?q\<lparr>pPhase := Ended 1, pLog := ?log @ [ARemove ''/csi/csi.sock'', AExit 1]\<rparr>)"
    by (rule rtranclp.rtrancl_into_rtrancl)
  from process_end[OF run] run show "\<exists>p. ?step1\<^sup>*\<^sup>* (Start NewNonBlockingGRPCServer) p \<and> pPhase p = Ended 1 \<and> \<not> Wait p"
    by (intro exI conjI) auto
  let ?step2 = "process_step demo_server (\<lambda>_. None) {\<lambda>_ :: unit. Panic :: (unit, unit) outcome} fmempty ''unix:/csi/csi.sock'' True True True"
  have "?step2 ?q (?q\<lparr>pPhase := Ended 2, pLog := ?log @ [AExit 2]\<rparr>)"
    using process_step.request_panics[of ?q "''/csi/csi.sock''" "\<lambda>_ :: unit. Panic :: (unit, unit) outcome"] by (simp add: logGRPC_def)
  with demo_serving have run: "?step2\<^sup>*\<^sup>* (Start NewNonBlockingGRPCServer) (?q\<lparr>pPhase := Ended 2, pLog := ?log @ [AExit 2]\<rparr>)"
    by (rule rtranclp.rtrancl_into_rtrancl)
  from process_end[OF run] run show "\<exists>p. ?step2\<^sup>*\<^sup>* (Start NewNonBlockingGRPCServer) p \<and> pPhase p = Ended 2 \<and> \<not> Wait p"
    by (intro exI conjI) auto
qed

end
