(* ===== verification/Process.thy ===== *)
theory Process
  imports Server
begin

text \<open>
  The process (\<open>cmd/main.go\<close>): its command line, read by the package \<open>flag\<close>, and the start from \<open>main\<close> to the server. Flags
  that the imported libraries define are an argument. What \<open>handle\<close> starts in the background is part of its result, in
  the order of the code.
\<close>

section \<open>The command line\<close>

record cmd_flags =
  flEndpoint :: string
  flMetricsAddress :: string
  flExtraLabels :: string

definition default_endpoint :: string where
  "default_endpoint = ''unix:/tmp/csi.sock''"

definition default_metrics_address :: string where
  "default_metrics_address = ''0.0.0.0:9080''"

definition default_flags :: cmd_flags where
  "default_flags = \<lparr>flEndpoint = default_endpoint, flMetricsAddress = default_metrics_address, flExtraLabels = ''''\<rparr>"

text \<open>A flag of a library: whether it is boolean, and which values its \<open>Set\<close> accepts.\<close>

record lib_flag =
  isBoolFlag :: bool
  accepts :: "string \<Rightarrow> bool"

text \<open>A defined flag: whether it is boolean, and its \<open>Set\<close>.\<close>

definition formal :: "(string \<Rightarrow> lib_flag option) \<Rightarrow> string \<Rightarrow> (bool \<times> (string \<Rightarrow> cmd_flags \<Rightarrow> cmd_flags option)) option" where
  "formal libs name =
     (if name = ''endpoint'' then Some (False, \<lambda>v fl. Some (fl\<lparr>flEndpoint := v\<rparr>))
      else if name = ''metrics-address'' then Some (False, \<lambda>v fl. Some (fl\<lparr>flMetricsAddress := v\<rparr>))
      else if name = ''extra-labels'' then Some (False, \<lambda>v fl. Some (fl\<lparr>flExtraLabels := v\<rparr>))
      else map_option (\<lambda>f. (isBoolFlag f, \<lambda>v fl. if accepts f v then Some fl else None)) (libs name))"

datatype flag_word = NotFlag | EndOfFlags | BadSyntax | FlagWord string "string option"

text \<open>One word of the command line; the name ends at the first equals sign.\<close>

definition read_word :: "string \<Rightarrow> flag_word" where
  "read_word s =
     (if length s < 2 \<or> hd s \<noteq> CHR ''-'' then NotFlag
      else if s = ''--'' then EndOfFlags
      else (let name = (if s ! 1 = CHR ''-'' then drop 2 s else drop 1 s)
            in if name = [] \<or> hd name = CHR ''-'' \<or> hd name = CHR ''='' then BadSyntax
               else FlagWord (takeWhile (\<lambda>c. c \<noteq> CHR ''='') name)
                 (case dropWhile (\<lambda>c. c \<noteq> CHR ''='') name of [] \<Rightarrow> None | _ # v \<Rightarrow> Some v)))"

text \<open>\<open>flag.Parse\<close>: the flags, or the code with which the process exits (0 after a request for help, 2 after an error).\<close>

fun parse_flags :: "(string \<Rightarrow> lib_flag option) \<Rightarrow> string list \<Rightarrow> cmd_flags \<Rightarrow> int + cmd_flags" where
  "parse_flags libs [] fl = Inr fl"
| "parse_flags libs (s # args) fl =
     (case read_word s of
        NotFlag \<Rightarrow> Inr fl
      | EndOfFlags \<Rightarrow> Inr fl
      | BadSyntax \<Rightarrow> Inl 2
      | FlagWord name given \<Rightarrow>
          (case formal libs name of
             None \<Rightarrow> Inl (if name = ''help'' \<or> name = ''h'' then 0 else 2)
           | Some (True, set_value) \<Rightarrow>
               (case set_value (case given of Some v \<Rightarrow> v | None \<Rightarrow> ''true'') fl of
                  None \<Rightarrow> Inl 2
                | Some fl1 \<Rightarrow> parse_flags libs args fl1)
           | Some (False, set_value) \<Rightarrow>
               (case (given, args) of
                  (Some v, _) \<Rightarrow> (case set_value v fl of None \<Rightarrow> Inl 2 | Some fl1 \<Rightarrow> parse_flags libs args fl1)
                | (None, v # args1) \<Rightarrow> (case set_value v fl of None \<Rightarrow> Inl 2 | Some fl1 \<Rightarrow> parse_flags libs args1 fl1)
                | (None, []) \<Rightarrow> Inl 2)))"

section \<open>The start\<close>

text \<open>What runs in the background or is registered with the metrics libraries.\<close>

datatype background =
    MetricsServer string
  | RegisterMetrics string
  | RegisterLibMetrics
  | PVWatcher string string
  | ConfigMapWatcher

definition serveMetrics :: "string \<Rightarrow> background list" where
  "serveMetrics metricsAddress = [MetricsServer metricsAddress, RegisterMetrics CSIDriverGithubName, RegisterLibMetrics]"

text \<open>Each failure before serving is fatal. \<open>newProvider\<close> gets the extra labels, \<open>newMetadata\<close> the name of the node.\<close>

definition handle ::
  "cap_utils \<Rightarrow> string \<Rightarrow> bool \<Rightarrow> (string \<Rightarrow> 's provider option) \<Rightarrow> (string \<Rightarrow> node_metadata option) \<Rightarrow> ('s session \<Rightarrow> string \<Rightarrow> bool)
    \<Rightarrow> environ \<Rightarrow> start_os \<Rightarrow> server_os \<Rightarrow> cmd_flags \<Rightarrow> server_action list
    \<Rightarrow> start_result \<times> background list \<times> ibm_csi_driver \<times> server_action list" where
  "handle C vendorVersion k8sOk newProvider newMetadata profileOk env so os fl log =
     (if vendorVersion = [] then (NoVendorVersion, [], GetIBMCSIDriver, log)
      else if \<not> k8sOk then (NoKubernetesClient, [], GetIBMCSIDriver, log)
      else (case newProvider (flExtraLabels fl) of
          None \<Rightarrow> (NoStorageProvider, [], GetIBMCSIDriver, log)
        | Some P \<Rightarrow>
            (let nodeName = Getenv env ''KUBE_NODE_NAME''
             in case SetupIBMCSIDriver C (Some P) False None (newMetadata nodeName) profileOk env so CSIDriverName vendorVersion GetIBMCSIDriver of
                  (Some e, d) \<Rightarrow> (DriverSetupFailed e, [], d, log)
                | (None, d) \<Rightarrow>
                    (let pvwatcher = Contains (Getenv env ''POD_NAME'') ''csi-controller'' \<and> Contains (Getenv env ''IKS_ENABLED'') ''True'';
                         bg = serveMetrics (flMetricsAddress fl) @
                           (if pvwatcher then [PVWatcher CSIDriverName CSIProviderVolumeType] else []) @ [ConfigMapWatcher]
                     in case Run os env (flEndpoint fl) d log of (res, log1) \<Rightarrow> (res, bg, d, log1)))))"

datatype main_result = Exit int | Running string

text \<open>\<open>main\<close> exits with the code of the flag package, or with 1 after a fatal error of the start; otherwise the server is
  up, and \<open>Run\<close> returns only if \<open>Wait\<close> does.\<close>

definition main ::
  "(string \<Rightarrow> lib_flag option) \<Rightarrow> cap_utils \<Rightarrow> string \<Rightarrow> bool \<Rightarrow> (string \<Rightarrow> 's provider option) \<Rightarrow> (string \<Rightarrow> node_metadata option)
    \<Rightarrow> ('s session \<Rightarrow> string \<Rightarrow> bool) \<Rightarrow> environ \<Rightarrow> start_os \<Rightarrow> server_os \<Rightarrow> string list
    \<Rightarrow> main_result \<times> background list \<times> ibm_csi_driver \<times> server_action list" where
  "main libs C vendorVersion k8sOk newProvider newMetadata profileOk env so os args =
     (case parse_flags libs args default_flags of
        Inl code \<Rightarrow> (Exit code, [], GetIBMCSIDriver, [])
      | Inr fl \<Rightarrow>
          (case handle C vendorVersion k8sOk newProvider newMetadata profileOk env so os fl [] of
             (Serving addr, bg, d, log) \<Rightarrow> (Running addr, bg, d, log)
           | (_, bg, d, log) \<Rightarrow> (Exit 1, bg, d, log)))"


section \<open>Reading a command line\<close>

text \<open>A flag with a value can be written in four ways.\<close>

datatype flag_form = Joined bool | Separate bool

definition dashes :: "bool \<Rightarrow> string" where
  "dashes two = (if two then ''--'' else ''-'')"

fun render_flag :: "flag_form \<times> string \<times> string \<Rightarrow> string list" where
  "render_flag (Joined two, name, value) = [dashes two @ name @ ''='' @ value]"
| "render_flag (Separate two, name, value) = [dashes two @ name, value]"

text \<open>A defined flag that takes the value.\<close>

definition takes_value :: "(string \<Rightarrow> lib_flag option) \<Rightarrow> string \<Rightarrow> string \<Rightarrow> bool" where
  "takes_value libs name value \<longleftrightarrow> name \<noteq> [] \<and> hd name \<noteq> CHR ''-'' \<and> CHR ''='' \<notin> set name \<and>
     (name \<in> {''endpoint'', ''metrics-address'', ''extra-labels''} \<or> (\<exists>f. libs name = Some f \<and> \<not> isBoolFlag f \<and> accepts f value))"

definition own_value :: "string \<Rightarrow> string \<Rightarrow> cmd_flags \<Rightarrow> cmd_flags" where
  "own_value name value fl =
     (if name = ''endpoint'' then fl\<lparr>flEndpoint := value\<rparr>
      else if name = ''metrics-address'' then fl\<lparr>flMetricsAddress := value\<rparr>
      else if name = ''extra-labels'' then fl\<lparr>flExtraLabels := value\<rparr>
      else fl)"

lemma formal_takes_value:
  assumes "takes_value libs name value"
  obtains set_value where "formal libs name = Some (False, set_value)" "\<And>fl. set_value value fl = Some (own_value name value fl)"
proof (cases "name \<in> {''endpoint'', ''metrics-address'', ''extra-labels''}")
  case True
  then show thesis by (intro that) (auto simp: formal_def own_value_def)
next
  case False
  then obtain f where "libs name = Some f" "\<not> isBoolFlag f" "accepts f value" using assms by (auto simp: takes_value_def)
  then show thesis using False that[of "\<lambda>v fl. if accepts f v then Some fl else None"] by (simp add: formal_def own_value_def)
qed

lemma read_word_dashes:
  assumes "name \<noteq> []" "hd name \<noteq> CHR ''-''" "hd name \<noteq> CHR ''=''"
  shows "read_word (dashes two @ name) = FlagWord (takeWhile (\<lambda>c. c \<noteq> CHR ''='') name)
    (case dropWhile (\<lambda>c. c \<noteq> CHR ''='') name of [] \<Rightarrow> None | _ # v \<Rightarrow> Some v)"
  using assms by (cases name) (simp_all add: read_word_def dashes_def Let_def)

lemma read_word_flag:
  assumes "takes_value libs name value"
  shows "read_word (dashes two @ name @ ''='' @ v) = FlagWord name (Some v)" "read_word (dashes two @ name) = FlagWord name None"
proof -
  have n: "name \<noteq> []" "hd name \<noteq> CHR ''-''" "CHR ''='' \<notin> set name" using assms by (simp_all add: takes_value_def)
  have h: "hd name \<noteq> CHR ''=''" using n(1,3) by (cases name) auto
  have tw: "takeWhile (\<lambda>c. c \<noteq> CHR ''='') name = name" "dropWhile (\<lambda>c. c \<noteq> CHR ''='') name = []"
    "takeWhile (\<lambda>c. c \<noteq> CHR ''='') (name @ ''='' @ v) = name" "dropWhile (\<lambda>c. c \<noteq> CHR ''='') (name @ ''='' @ v) = ''='' @ v"
    using n(3) by (induction name) auto
  show "read_word (dashes two @ name @ ''='' @ v) = FlagWord name (Some v)"
    using read_word_dashes[of "name @ ''='' @ v" two] n h tw by simp
  show "read_word (dashes two @ name) = FlagWord name None"
    using read_word_dashes[of name two] n h tw by simp
qed

lemma parse_rendered_flag:
  assumes "takes_value libs name value"
  shows "parse_flags libs (render_flag (form, name, value) @ args) fl = parse_flags libs args (own_value name value fl)"
proof -
  obtain set_value where "formal libs name = Some (False, set_value)" "\<And>fl. set_value value fl = Some (own_value name value fl)"
    using formal_takes_value[OF assms] by blast
  then show ?thesis using read_word_flag[OF assms] by (cases form) simp_all
qed

text \<open>The value of a flag is the last one given.\<close>

definition values_of :: "string \<Rightarrow> (flag_form \<times> string \<times> string) list \<Rightarrow> string list" where
  "values_of name gs = [v. (form, n, v) \<leftarrow> gs, n = name]"

definition flag_value :: "string \<Rightarrow> string \<Rightarrow> (flag_form \<times> string \<times> string) list \<Rightarrow> string" where
  "flag_value name dflt gs = last (dflt # values_of name gs)"

definition flags_given :: "(flag_form \<times> string \<times> string) list \<Rightarrow> cmd_flags" where
  "flags_given gs = \<lparr>flEndpoint = flag_value ''endpoint'' default_endpoint gs,
     flMetricsAddress = flag_value ''metrics-address'' default_metrics_address gs, flExtraLabels = flag_value ''extra-labels'' '''' gs\<rparr>"

lemma values_of_snoc: "values_of name (gs @ [(form, n, v)]) = values_of name gs @ (if n = name then [v] else [])"
  by (simp add: values_of_def)

lemma flags_given_snoc: "flags_given (gs @ [(form, n, v)]) = own_value n v (flags_given gs)"
  by (auto simp: flags_given_def flag_value_def values_of_snoc own_value_def)

lemma parse_rendered:
  assumes "\<forall>(form, name, value) \<in> set gs. takes_value libs name value"
  shows "parse_flags libs (concat (map render_flag gs) @ args) default_flags = parse_flags libs args (flags_given gs)"
  using assms
proof (induction gs arbitrary: args rule: rev_induct)
  case Nil
  show ?case by (simp add: flags_given_def default_flags_def flag_value_def values_of_def)
next
  case (snoc g gs)
  obtain form n v where g: "g = (form, n, v)" by (cases g)
  have "takes_value libs n v" "\<forall>(form, name, value) \<in> set gs. takes_value libs name value" using snoc.prems by (auto simp: g)
  then show ?case using snoc.IH[of "render_flag g @ args"] parse_rendered_flag by (simp add: g flags_given_snoc)
qed

section \<open>Properties\<close>

text \<open>A process that serves has a version and all three services, registered last.\<close>

lemma handle_serving:
  assumes "handle C version k8sOk P md profileOk env so os fl [] = (Serving addr, bg, d, log)"
  shows "version \<noteq> [] \<and> k8sOk \<and> P (flExtraLabels fl) \<noteq> None \<and> md (Getenv env ''KUBE_NODE_NAME'') \<noteq> None \<and> last log = ARegister True True True \<and>
    Run os env (flEndpoint fl) d [] = (Serving addr, log) \<and>
    bg = serveMetrics (flMetricsAddress fl) @
      (if Contains (Getenv env ''POD_NAME'') ''csi-controller'' \<and> Contains (Getenv env ''IKS_ENABLED'') ''True''
       then [PVWatcher CSIDriverName CSIProviderVolumeType] else []) @ [ConfigMapWatcher]"
proof -
  let ?md = "md (Getenv env ''KUBE_NODE_NAME'')"
  obtain p where p: "P (flExtraLabels fl) = Some p" "version \<noteq> []" "k8sOk" using assms by (auto simp: handle_def split: if_splits option.splits)
  obtain e d1 where s: "SetupIBMCSIDriver C (Some p) False None ?md profileOk env so CSIDriverName version GetIBMCSIDriver = (e, d1)"
    by (metis prod.exhaust)
  obtain r log1 where run: "Run os env (flEndpoint fl) d1 [] = (r, log1)" by (metis prod.exhaust)
  have eq: "e = None" "d1 = d" "r = Serving addr" "log1 = log"
    "bg = serveMetrics (flMetricsAddress fl) @
      (if Contains (Getenv env ''POD_NAME'') ''csi-controller'' \<and> Contains (Getenv env ''IKS_ENABLED'') ''True''
       then [PVWatcher CSIDriverName CSIProviderVolumeType] else []) @ [ConfigMapWatcher]"
    using assms p s run by (auto simp: handle_def Let_def split: option.splits)
  have "?md \<noteq> None \<and> drvIds d \<and> drvCs d \<and> drvNs d \<noteq> None"
    using s eq by (auto simp: SetupIBMCSIDriver_def Let_def init_stunnel_def split: if_splits option.splits sum.splits)
  moreover have "last log = ARegister (drvIds d) (drvCs d) (drvNs d \<noteq> None)"
    using run eq by (auto simp: Run_def serve_def Setup_def Let_def split: option.splits prod.splits sum.splits if_splits)
  ultimately show ?thesis using p run eq by simp
qed

lemma handle_log:
  assumes "handle C version k8sOk P md profileOk env so os fl [] = (res, bg, d, log)"
  shows "log = [] \<and> (\<forall>addr. res \<noteq> Serving addr) \<or> (\<exists>ids cs ns r. Setup os env (flEndpoint fl) ids cs ns [] = (r, log) \<and> (\<forall>addr. res = Serving addr \<longrightarrow> r = Inr addr))"
  using assms unfolding handle_def Run_def serve_def Let_def
  by (auto split: if_splits option.splits prod.splits sum.splits)

lemma main_flags:
  assumes "\<forall>(form, name, value) \<in> set gs. takes_value libs name value"
  shows "main libs C version k8sOk P md profileOk env so os (concat (map render_flag gs)) =
    (case handle C version k8sOk P md profileOk env so os (flags_given gs) [] of
       (Serving addr, bg, d, log) \<Rightarrow> (Running addr, bg, d, log)
     | (_, bg, d, log) \<Rightarrow> (Exit 1, bg, d, log))"
  using parse_rendered[OF assms, of "[]"] by (simp add: main_def)


text \<open>A flag that nobody defines ends the process before it does anything, whatever else the command line has.\<close>

lemma unknown_flag_exits:
  assumes "\<forall>(form, name, value) \<in> set gs. takes_value libs name value" "read_word s = FlagWord name given" "formal libs name = None"
    "name \<noteq> ''help''" "name \<noteq> ''h''"
  shows "main libs C version k8sOk P md profileOk env so os (concat (map render_flag gs) @ s # args) = (Exit 2, [], GetIBMCSIDriver, [])"
  using parse_rendered[OF assms(1), of "s # args"] assms(2-5) by (simp add: main_def)

lemma sidecar_flag_exits:
  "main (\<lambda>_. None) C version k8sOk P md profileOk env so os [''--endpoint=unix:/csi/csi.sock'', ''--sidecarEndpoint=/csi/provider.sock''] =
     (Exit 2, [], GetIBMCSIDriver, [])"
  using unknown_flag_exits[of "[(Joined True, ''endpoint'', ''unix:/csi/csi.sock'')]" "\<lambda>_. None" "''--sidecarEndpoint=/csi/provider.sock''"
      "''sidecarEndpoint''" "Some ''/csi/provider.sock''"]
  by (simp add: takes_value_def read_word_def formal_def dashes_def)

text \<open>C21: the command line decides where the driver listens. For a command line of defined flags with values, each written
  in any of the four ways, the endpoint is the last one given or \<open>unix:/tmp/csi.sock\<close>. If it means an address, every
  action of the start concerns that address and no other, the removal of a left-over socket included; a process that
  runs listens there, has the metrics server at the last metrics address given, and was started with a provider that
  got the last extra labels.\<close>

theorem main_listens:
  assumes "\<forall>(form, name, value) \<in> set gs. takes_value libs name value"
    "endpoint_at (flag_value ''endpoint'' ''unix:/tmp/csi.sock'' gs) net addr"
    "main libs C version k8sOk P md profileOk env so os (concat (map render_flag gs)) = (res, bg, d, log)"
  shows "list_all (on_address net addr) log \<and>
    (\<forall>a. res = Running a \<longrightarrow> a = addr \<and> AListen net addr \<in> set log \<and> last log = ARegister True True True \<and>
       MetricsServer (flag_value ''metrics-address'' ''0.0.0.0:9080'' gs) \<in> set bg \<and> P (flag_value ''extra-labels'' '''' gs) \<noteq> None)"
proof -
  obtain r bg' d' log' where h: "handle C version k8sOk P md profileOk env so os (flags_given gs) [] = (r, bg', d', log')"
    by (metis prod.exhaust)
  have eq: "log = log'" "bg = bg'" "\<And>a. res = Running a \<Longrightarrow> r = Serving a"
    using assms(3) h by (auto simp: main_flags[OF assms(1)] split: start_result.splits)
  have fl: "flEndpoint (flags_given gs) = flag_value ''endpoint'' ''unix:/tmp/csi.sock'' gs"
    "flMetricsAddress (flags_given gs) = flag_value ''metrics-address'' ''0.0.0.0:9080'' gs"
    "flExtraLabels (flags_given gs) = flag_value ''extra-labels'' '''' gs"
    by (simp_all add: flags_given_def default_endpoint_def default_metrics_address_def)
  have at: "list_all (on_address net addr) log \<and> (\<forall>a. r = Serving a \<longrightarrow> a = addr \<and> AListen net addr \<in> set log)"
    using handle_log[OF h]
  proof (elim disjE exE conjE)
    fix ids cs ns x
    assume s: "Setup os env (flEndpoint (flags_given gs)) ids cs ns [] = (x, log')" "\<forall>addr. r = Serving addr \<longrightarrow> x = Inr addr"
    from endpoint_address[OF assms(2) s(1)[unfolded fl]] s(2) show ?thesis unfolding eq(1) by blast
  qed (simp add: eq(1))
  show ?thesis
  proof (intro conjI allI impI)
    fix a assume "res = Running a"
    then have "r = Serving a" by (rule eq(3))
    note run = handle_serving[OF h[unfolded this]]
    show "MetricsServer (flag_value ''metrics-address'' ''0.0.0.0:9080'' gs) \<in> set bg" using run by (simp add: eq(2) fl serveMetrics_def)
    show "last log = ARegister True True True" "P (flag_value ''extra-labels'' '''' gs) \<noteq> None" using run by (auto simp: eq(1) fl)
    show "a = addr" "AListen net addr \<in> set log" using at \<open>r = Serving a\<close> by blast+
  qed (use at in blast)
qed

definition demo_args :: "(flag_form \<times> string \<times> string) list" where
  "demo_args = [(Joined True, ''v'', ''5''), (Joined True, ''endpoint'', ''unix:/old.sock''), (Separate False, ''endpoint'', ''unix:/csi/csi.sock'')]"

definition demo_libs :: "string \<Rightarrow> lib_flag option" where
  "demo_libs name = (if name = ''v'' then Some \<lparr>isBoolFlag = False, accepts = (\<lambda>v. Atoi v \<noteq> None)\<rparr> else None)"

lemma demo_args_ok: "\<forall>(form, name, value) \<in> set demo_args. takes_value demo_libs name value"
proof -
  have "Atoi ''5'' \<noteq> None" by code_simp
  then show ?thesis by (simp add: demo_args_def takes_value_def demo_libs_def)
qed

theorem main_listens_witness:
  "\<exists>d log. main demo_libs demo_caps ''1'' True
       (\<lambda>_. Some \<lparr>GetConfig = demo_config, GetClusterID = ''c'', GetProviderSession = Inl (Message ''e'') :: provider_error + unit session\<rparr>)
       (\<lambda>_. Some demo_metadata) (\<lambda>_ _. True) fmempty demo_start demo_server
       [''--v=5'', ''--endpoint=unix:/old.sock'', ''-endpoint'', ''unix:/csi/csi.sock''] =
       (Running ''/csi/csi.sock'', [MetricsServer ''0.0.0.0:9080'', RegisterMetrics CSIDriverGithubName, RegisterLibMetrics, ConfigMapWatcher], d, log) \<and>
     list_all (on_address ''unix'' ''/csi/csi.sock'') log \<and> last log = ARegister True True True"
proof -
  let ?P = "\<lambda>_. Some \<lparr>GetConfig = demo_config, GetClusterID = ''c'', GetProviderSession = Inl (Message ''e'') :: provider_error + unit session\<rparr>"
  let ?main = "main demo_libs demo_caps ''1'' True ?P (\<lambda>_. Some demo_metadata) (\<lambda>_ _. True) fmempty demo_start demo_server (concat (map render_flag demo_args))"
  have ep: "flag_value ''endpoint'' ''unix:/tmp/csi.sock'' demo_args = ''unix:/csi/csi.sock''" "flag_value ''endpoint'' default_endpoint demo_args = ''unix:/csi/csi.sock''"
    "flag_value ''metrics-address'' default_metrics_address demo_args = ''0.0.0.0:9080''"
    by (simp_all add: flag_value_def values_of_def demo_args_def default_metrics_address_def)
  obtain d log where m: "?main = (Running ''/csi/csi.sock'', [MetricsServer ''0.0.0.0:9080'', RegisterMetrics CSIDriverGithubName, RegisterLibMetrics, ConfigMapWatcher], d, log)"
    by (simp add: main_flags[OF demo_args_ok] handle_def Let_def flags_given_def ep SetupIBMCSIDriver_def demo_caps_def CSIDriverName_def
        Run_def serve_def Setup_def demo_endpoint demo_server_def listen_address_def Getenv_def serveMetrics_def init_stunnel_def NewNodeServer_def)
  have "url_plain ''/csi/csi.sock''" by code_simp
  then have "endpoint_at (flag_value ''endpoint'' ''unix:/tmp/csi.sock'' demo_args) ''unix'' ''/csi/csi.sock''"
    unfolding ep endpoint_at_def by (intro disjI1 exI[of _ "''/csi/csi.sock''"]) simp
  from main_listens[OF demo_args_ok this m] m show ?thesis by (simp add: demo_args_def dashes_def)
qed

end
