(* ===== verification/Spec2Isabelle.thy ===== *)
theory Spec2Isabelle
  imports Stunnel_Conc Stunnel_Reload Controller_Conc Network_Table Node_Crash Node_Conc Config_Watcher Process
begin

text \<open>
  A verification of the IBM VPC File CSI driver: a Go program that creates NFS file shares in a VPC for Kubernetes and
  mounts them on worker nodes, encrypted in transit by IPsec (profile dp2) or by a stunnel sidecar (profile rfs).

  \<^bold>\<open>The program.\<close> One binary runs as controller or as node server. The controller service (\<open>controller.go\<close>,
  \<open>controller_helper.go\<close>) turns a request into a volume of the cloud provider, creates share and access point, and
  returns a volume context of labels. The node service (\<open>node.go\<close>, \<open>node_helper.go\<close>) reads these labels when it mounts
  the share; for an encrypted rfs share it asks the stunnel manager (\<open>pkg/rfseit/stunnel_manager.go\<close>) for a local port,
  mounts from 127.0.0.1 through it, and gives the tunnel back after the unmount. The manager keeps two port maps, one
  service file per share, and signals the sidecar, debounced. The driver object (\<open>ibm_csi_driver.go\<close>) is built once and
  shared; the server (\<open>server.go\<close>, \<open>fileOps.go\<close>) protects its socket; a watcher (\<open>config_watcher.go\<close>) follows the
  subnet list of the cluster.

  \<^bold>\<open>The theories.\<close>
  \<^item> \<open>Prelude\<close>, \<open>Go_Strings\<close>, \<open>Go_Text\<close>: results of Go calls (value, error, panic), environment, maps, and the parts of
    \<open>strings\<close>, \<open>strconv\<close>, \<open>bufio\<close> and \<open>path/filepath\<close> that the driver uses, on byte strings, with the lemmas all
    components share. \<open>Prelude\<close> has the contract of a step relation with an invariant as a locale (\<open>step_system\<close>), interpreted
    on every step relation below.
  \<^item> \<open>Allocator\<close>: the contract between an allocator of ports and its clients, a locale; interpreted in \<open>Stunnel_Inv\<close> on
    \<open>EnsureTunnel\<close> and \<open>RemoveTunnel\<close>.
  \<^item> \<open>Stunnel_Config\<close>, \<open>Stunnel\<close>: the service file and its parser; every operation of the manager on its record, files
    and signals, the answers of the system being arguments. \<open>Stunnel_Inv\<close>: the two maps are inverse and in range after any
    sequence of calls. \<open>Stunnel_Recovery\<close>: the files determine the maps, so a restart restores them. \<open>Stunnel_Conc\<close>: the
    critical sections as steps of a relation, with every interleaving of calls, what remains true and two runs that
    break it. \<open>Stunnel_Reload\<close>: what stunnel has read of the files; every tunnel is read once the debounce window has
    passed, unless a failed cleanup or a restart of the node server lost the reload. \<open>Torn_Write\<close>: a service file cut off
    anywhere gives the port that was being written or none.
  \<^item> \<open>Constants\<close>, \<open>Provider\<close>: constants, the messages and the records of parameters for code that is not in the
    repository. \<open>Volume_Params\<close>: from request to volume. \<open>Param_Order\<close>: both loops range over Go maps, whose order is
    unspecified; a locale for steps that commute up to errors, interpreted on both loops, shows that the order does
    not matter. \<open>Param_Props\<close>: what every accepted volume satisfies.
  \<^item> \<open>Controller\<close>: one definition per call of the controller service over an arbitrary session. \<open>Controller_Props\<close> and
    \<open>Controller_Calls\<close>: which provider calls are made, in which order and at most how often, responses, errors, panics.
    \<open>Controller_Retry\<close>: sequences of calls on an account that changes; share names stay unique, a retried CreateVolume
    completes, and a failed lookup creates a duplicate. \<open>Controller_Conc\<close>: CreateVolume calls split into their steps and
    interleaved; names stay unique with one call per name under way, and two calls for one name create two shares.
    \<open>Network_Table\<close>: the table of subnet, zone and primary IP in a comment of \<open>CreateVolume\<close> as a function, and that the
    checks and the provider calls implement it.
  \<^item> \<open>Nfs_Source\<close>, \<open>Node\<close>: validation of a mount source, publishing and unpublishing over an arbitrary mounter.
    \<open>Node_Props\<close>: single calls. \<open>Node_System\<close>: a node over time, with the invariant that a mount never outlives its tunnel,
    and a run of two concurrent calls that breaks it. \<open>Node_Restart\<close>: the same invariant across restarts of the node
    server, which reads its port maps back from the files. \<open>Node_Crash\<close>: and across crashes at any point of a call, with
    the points inside a mount and a service file cut off at any byte. \<open>Node_Overlap\<close>: calls split into their steps and interleaved;
    the invariant holds if no tunnel is removed during a publish of its share, which the driver does not ensure. \<open>Node_Conc\<close>:
    the same with the critical sections of the manager as steps of their own.
  \<^item> \<open>Driver\<close>, \<open>Config_Watcher\<close>: setup and identity, the watcher. \<open>Go_Url\<close>: the part of \<open>net/url\<close> that reads an endpoint.
    \<open>Socket_Permission\<close>: the interface \<open>socketPermission\<close> as a locale, interpreted on the system calls and on the test
    double. \<open>Server\<close>: the start of the server, what an endpoint means, and its life from Start to the end of the process,
    by a fault at the start, SIGTERM, a panic of a handler, or a kill.
    \<open>Process\<close>: the command line as the package \<open>flag\<close> reads it, \<open>main\<close> and \<open>handle\<close>, and what a command line makes the
    driver do.
  \<^item> This theory: properties across controller, node and manager.

  \<^bold>\<open>Correspondence.\<close> A definition has the name of the Go function it translates; a part of a long function has a name of
  its own (\<open>plan_tunnel\<close>, \<open>ensure_locked\<close>, \<open>pick_subnet\<close>). Every branch and early return of the code is a branch here, and an
  error value carries the code of the message the Go code builds, not its text. A Go pointer is an option, a nil
  dereference is \<open>Panic\<close>, \<open>int\<close> is an integer, wrapped to 64 bits where the code multiplies (\<open>i64\<close>). Go maps whose
  iteration order matters are lists of entries, others finite maps.

  \<^bold>\<open>Termination and bounds.\<close> Every definition is a total function and no fuel is used: the loops run over lists, over the
  300 ports of the range, or shorten a string. What runs until it is stopped (the server, the watcher, the timer) is a
  step relation or a function of the events that occurred.

  \<^bold>\<open>Hypotheses.\<close> \<open>utils_ok\<close>, \<open>session_ok\<close>, \<open>keeps_profile\<close>, \<open>labels_ok\<close>, \<open>cap_utils_ok\<close>, \<open>account_ok\<close> and \<open>mounter_ok\<close> state what the
  libraries and the provider document (\<open>utils_ok\<close> only for sizes whose sum with a GiB fits in 64 bits);
  \<open>proc_shows\<close> states that the kernel lists nfs4 mounts in \<open>/proc/mounts\<close>. Each theorem that uses one has a witness on a
  concrete instance.

  \<^bold>\<open>Not modelled.\<close> Logging, metrics, contexts and request identifiers beyond their use as arguments; the network of the
  gRPC server, of the metrics endpoint and of the informer; the text of error messages; the set-up of the logger. Flags
  that libraries define are an argument of the command line. Bracketed IPv6 hosts of an
  endpoint are read by an argument. Calls do not overlap in the theories other than
  \<open>Stunnel_Conc\<close>, \<open>Node_Overlap\<close>, \<open>Node_Conc\<close> and \<open>Controller_Conc\<close>, and a mount with its clean-up is one step there; the points
  inside a mount occur in \<open>Node_Crash\<close>, where calls do not overlap.
\<close>

section \<open>From CreateVolume to the mount\<close>

lemma getVolumeParameters_eit:
  assumes "getVolumeParameters U g req = Ok v"
  shows "volTransitEncryption v = IPSEC \<Longrightarrow> volProfile v = Some DP2Profile" "volTransitEncryption v = STUNNEL \<Longrightarrow> volProfile v = Some RFSProfile"
  by (rule getVolumeParameters_OkE[OF assms]; force simp: eit_mode_def key_defs split: if_splits)+

lemma created_labels:
  assumes "labels_ok U" "CreateVolume U D P ev req s = (Ok resp, s')" "getVolumeParameters U (GetConfig P) req = Ok v0"
  obtains vol :: volume and ap :: access_point_response where "cvVolumeId resp = volID vol @ ''#'' @ apAccessPointID ap" "map_get (cvContext resp) FileShareIDLabel = volID vol"
    "map_get (cvContext resp) IsEITEnabled = (if volTransitEncryption v0 \<in> {IPSEC, STUNNEL} then TrueStr else '''')"
proof -
  obtain S v1 cap vol apReq ap s4 where run: "GetProviderSession P = Inr S"
    "getVolumeParameters U (GetConfig P) req = Ok v1" "volCapacity v1 = Some cap"
    "sWaitForCreateAccessPoint S apReq s4 = ((Some ap, None), s')" "aprVolumeID apReq = volID vol"
    "volTransitEncryption vol = volTransitEncryption v1"
    and resp: "resp = createCSIVolumeResponse U vol ap (i64 (cap * GB U)) (GetClusterID P) (drvRegion D)"
    by (rule CreateVolume_resp[OF assms(2)]) (rule that)
  have "v1 = v0" using run(2) assms(3) by simp
  then show thesis
    using that[of vol ap] volume_labels_lookup(1,4)[OF assms(1)] run(6) by (simp add: resp)
qed

text \<open>
  What the encryption relies on of the provider: it creates a share with the profile asked for, and a share that it finds
  under the name of the request has that profile too.
\<close>

definition keeps_profile :: "'s session \<Rightarrow> string \<Rightarrow> string option \<Rightarrow> 's \<Rightarrow> bool" where
  "keeps_profile S name profile s \<longleftrightarrow>
     (\<forall>v t vol t'. sCreateVolume S v t = ((Some vol, None), t') \<longrightarrow> volProfile vol = volProfile v) \<and>
     (\<forall>vol t'. sGetVolumeByName S name s = ((Some vol, None), t') \<longrightarrow> volProfile vol = profile)"

lemma created_profile:
  assumes "labels_ok U" "CreateVolume U D P ev req s = (Ok resp, s')" "getVolumeParameters U (GetConfig P) req = Ok v0"
    "GetProviderSession P = Inr S" "keeps_profile S (reqName req) (volProfile v0) s"
  shows "map_get (cvContext resp) ProfileLabel = (case volProfile v0 of None \<Rightarrow> '''' | Some p \<Rightarrow> p)"
proof (rule CreateVolume_OkE[OF assms(2)])
  fix S' v0' v1 existing s1 requested s2 volumeObj s3 ap
  assume run: "getVolumeParameters U (GetConfig P) req = Ok v0'" "GetProviderSession P = Inr S'" "reqName req \<noteq> ''''"
    "attach_snapshot (reqSource req) v0' = Ok v1" "find_existing U S' v1 s = (Ok existing, s1)"
    "pick_network S' ev (GetClusterID P) v1 s1 = (Ok requested, s2)"
    "create_if_missing U S' existing requested s2 = (Ok volumeObj, s3)"
    "volume_response U D (GetClusterID P) requested volumeObj ap = Ok resp"
  then have same: "v0' = v0" "S' = S" using assms(3,4) by simp_all
  then have v1: "volProfile v1 = volProfile v0" "volName v1 = Some (reqName req)"
    using attach_snapshot_keeps(3,5)[OF run(4)] getVolumeParameters_basics(1)[OF run(1)] by simp_all
  have requested: "volProfile requested = volProfile v0" using pick_network_keeps[OF run(6)] v1 by (simp add: same_request_def)
  have "volProfile volumeObj = volProfile v0"
  proof (cases existing)
    case None
    then obtain t' where "sCreateVolume S requested s2 = ((Some volumeObj, None), t')"
      using run(7) same by (auto simp: create_if_missing_def split: prod.splits option.splits)
    then show ?thesis using assms(5) requested unfolding keeps_profile_def by metis
  next
    case (Some x)
    then obtain vol t' where "sGetVolumeByName S (reqName req) s = ((Some vol, None), t')" "volProfile volumeObj = volProfile vol"
      using run(3,5,7) same v1(2)
      by (auto simp: find_existing_def checkIfVolumeExists_def create_if_missing_def split: prod.splits option.splits error_type.splits if_splits)
    then show ?thesis using assms(5) unfolding keeps_profile_def by metis
  qed
  then show ?thesis
    using run(8) volume_labels_lookup(3)[OF assms(1)] by (auto simp: volume_response_def Let_def split: option.splits)
qed

text \<open>C6: encryption that was requested at creation is enforced at the mount. If CreateVolume succeeded for a request with
  encryption in transit, and the provider creates shares with the profile asked for (and a share it already has under
  the name of the request has that profile), then every mount that a NodePublishVolume with the returned context
  requests is encrypted: through the mount helper with IPsec for dp2, through the tunnel of the created share for rfs.\<close>

theorem created_encrypted_mounted_encrypted:
  assumes "labels_ok U" "CreateVolume U D P ev creq s = (Ok resp, s')"
    "getVolumeParameters U (GetConfig P) creq = Ok v0" "volTransitEncryption v0 \<noteq> NONE"
    "GetProviderSession P = Inr S" "keeps_profile S (reqName creq) (volProfile v0) s" "pubContext req = cvContext resp"
    "NodePublishVolume (traced_mounter M) order modes os rid req st = (r, st')"
    "mounts_in (nsMounts st') = mounts_in (nsMounts st) @ [c]"
  shows "volTransitEncryption v0 = IPSEC \<and> (\<exists>source. c = CMountEIT source (pubTarget req) ''ibmshare'' ''ipsec'') \<or>
    volTransitEncryption v0 = STUNNEL \<and> (\<exists>path flags sm port. nsMgr st' = Some sm \<and>
      GetTunnelPort sm (map_get (cvContext resp) FileShareIDLabel) = (port, True) \<and>
      c = CMount (''127.0.0.1:'' @ path) (pubTarget req) ''nfs4'' (flags @ [''port='' @ Itoa port]))"
proof -
  obtain vol :: volume and ap :: access_point_response where eit: "map_get (cvContext resp) IsEITEnabled = (if volTransitEncryption v0 \<in> {IPSEC, STUNNEL} then TrueStr else '''')"
    by (rule created_labels[OF assms(1-3)])
  note profile = created_profile[OF assms(1-3,5,6)]
  obtain flags where call: "call_for req (nsMgr st') flags c"
    using publish_calls[OF assms(8)] assms(9) by auto
  have ne: "RFSProfile \<noteq> DP2Profile" by (simp add: key_defs)
  consider "volTransitEncryption v0 = IPSEC" | "volTransitEncryption v0 = STUNNEL"
    using getVolumeParameters_basics(3)[OF assms(3)] assms(4) by auto
  then show ?thesis
  proof cases
    case 1
    then show ?thesis using call eit getVolumeParameters_eit(1)[OF assms(3)] profile assms(7) ne by (auto simp: call_for_def)
  next
    case 2
    then show ?thesis using call eit getVolumeParameters_eit(2)[OF assms(3)] profile assms(7) ne by (auto simp: call_for_def)
  qed
qed

text \<open>A panic in the controller ends the process: nothing between the handler and the runtime recovers.\<close>

lemma panicking_request_ends_process:
  assumes "pPhase p = ServingAt addr" "(\<lambda>req. fst (CreateVolume U D P ev req s)) \<in> hs" "fst (CreateVolume U D P ev creq s) = Panic"
  shows "\<exists>p'. process_step os rm hs penv endpoint ids cs ns p p' \<and> pPhase p' = Ended 2 \<and> ARemove addr \<notin> set (drop (length (pLog p)) (pLog p'))"
proof (intro exI conjI)
  show "process_step os rm hs penv endpoint ids cs ns p (p\<lparr>pPhase := Ended 2, pLog := pLog p @ [AExit 2]\<rparr>)"
    by (rule process_step.request_panics[where h = "\<lambda>req. fst (CreateVolume U D P ev req s)" and req = creq])
      (use assms in \<open>simp_all add: logGRPC_transparent\<close>)
qed simp_all

definition created_publish :: "csi_volume \<Rightarrow> publish_request" where
  "created_publish resp =
     \<lparr>pubVolumeID = cvVolumeId resp, pubContext = cvContext resp, pubTarget = ''/pod1'',
      pubCap = Some \<lparr>capMode = Some MULTI_NODE_MULTI_WRITER, capType = MountType []\<rparr>\<rparr>"

lemma demo_created:
  obtains resp s' where "CreateVolume demo_utils demo_driver demo_provider demo_env demo_req ([], []) = (Ok resp, s')"
    "cvVolumeId resp = ''r006-1#r006-ap''" "map_get (cvContext resp) ProfileLabel = ''rfs''" "map_get (cvContext resp) IsEITEnabled = ''true''"
    "map_get (cvContext resp) NFSServerPath = ''10.240.0.5:/share''" "map_get (cvContext resp) FileShareIDLabel = ''r006-1''"
proof -
  have "case fst (CreateVolume demo_utils demo_driver demo_provider demo_env demo_req ([], [])) of
      Ok resp \<Rightarrow> cvVolumeId resp = ''r006-1#r006-ap'' \<and> map_get (cvContext resp) ProfileLabel = ''rfs'' \<and>
        map_get (cvContext resp) IsEITEnabled = ''true'' \<and> map_get (cvContext resp) NFSServerPath = ''10.240.0.5:/share'' \<and>
        map_get (cvContext resp) FileShareIDLabel = ''r006-1''
    | _ \<Rightarrow> False"
    by code_simp
  then show thesis using that by (cases "CreateVolume demo_utils demo_driver demo_provider demo_env demo_req ([], [])") (auto split: outcome.splits)
qed

lemma demo_created_params: "getVolumeParameters demo_utils (GetConfig demo_provider) demo_req = Ok demo_volume"
  using demo_params by (simp add: demo_provider_def)

theorem created_encrypted_mounted_encrypted_witness:
  "\<exists>resp s' r st' sm port. CreateVolume demo_utils demo_driver demo_provider demo_env demo_req ([], []) = (Ok resp, s') \<and>
     NodePublishVolume (traced_mounter table_mounter) mount_errors [MULTI_NODE_MULTI_WRITER] demo_os ''r'' (created_publish resp)
       (demo_node ([], [])) = (r, st') \<and>
     nsMgr st' = Some sm \<and> GetTunnelPort sm ''r006-1'' = (port, True)"
proof -
  obtain resp s' where c: "CreateVolume demo_utils demo_driver demo_provider demo_env demo_req ([], []) = (Ok resp, s')"
    and ctx: "cvVolumeId resp = ''r006-1#r006-ap''" "map_get (cvContext resp) ProfileLabel = ''rfs''"
      "map_get (cvContext resp) IsEITEnabled = ''true''" "map_get (cvContext resp) NFSServerPath = ''10.240.0.5:/share''"
      "map_get (cvContext resp) FileShareIDLabel = ''r006-1''"
    by (rule demo_created)
  obtain sm w where e: "EnsureTunnel demo_os ''r006-1'' ''10.240.0.5'' ''r'' (demo_sm, demo_world) = (Inr 11300, sm, w)"
    by (rule demo_ensure_of[of "''r006-1''" "''10.240.0.5''"]) simp_all
  have "\<exists>st'. NodePublishVolume (traced_mounter table_mounter) mount_errors [MULTI_NODE_MULTI_WRITER] demo_os ''r'' (created_publish resp)
       (demo_node ([], [])) = (Ok (), st') \<and> (\<exists>c. mounts_in (nsMounts st') = mounts_in ([], []) @ [c])"
    by (simp add: created_publish_def demo_publish_simps ctx e demo_source Let_def RFSProfile_def TrueStr_def nfs4FsType_def eitFsType_def)
  then obtain st' x where p: "NodePublishVolume (traced_mounter table_mounter) mount_errors [MULTI_NODE_MULTI_WRITER] demo_os ''r''
      (created_publish resp) (demo_node ([], [])) = (Ok (), st')" "mounts_in (nsMounts st') = mounts_in (nsMounts (demo_node ([], []) :: (mount_call list \<times> mount_entry list) node_state)) @ [x]"
    by (auto simp: demo_node_def)
  have v: "volTransitEncryption demo_volume = STUNNEL" "volTransitEncryption demo_volume \<noteq> NONE"
    by (simp_all add: demo_volume_def key_defs)
  have S: "GetProviderSession demo_provider = Inr (traced demo_session)"
    "keeps_profile (traced demo_session) (reqName demo_req) (volProfile demo_volume) ([], [])"
    by (auto simp: demo_provider_def keeps_profile_def traced_def record_call_def demo_session_def)
  have "pubContext (created_publish resp) = cvContext resp" by (simp add: created_publish_def)
  from created_encrypted_mounted_encrypted[OF demo_labels_ok c demo_created_params v(2) S this p] c p(1) ctx v(1)
  show ?thesis by (auto simp: key_defs)
qed

text \<open>C29: unpublishing a created volume releases the tunnel that publishing it set up. The id that CreateVolume returns
  leads NodeUnpublishVolume to the share id in the volume context, under which NodePublishVolume asked for the
  tunnel: when the call succeeds and no mount uses the tunnel's port any more, the share has no tunnel and, if it had
  one, no service file, and every other share keeps its port.\<close>

theorem created_volume_unpublished:
  assumes "labels_ok U" "CreateVolume U D P ev creq s = (Ok resp, s')" "share = map_get (cvContext resp) FileShareIDLabel"
    "share \<noteq> ''''" "CHR ''#'' \<notin> set share" "t \<noteq> ''''" "nsMgr st = Some sm" "port_inv sm"
    "NodeUnpublishVolume M os rid (cvVolumeId resp) t st = (Ok (), st')"
    "\<And>p. fmlookup (allocatedPorts sm) share = Some p \<Longrightarrow> \<not> isTunnelPortInUse (procMounts os) p"
  shows "\<exists>sm'. nsMgr st' = Some sm' \<and> GetTunnelPort sm' share = (0, False) \<and>
    (\<forall>u. u \<noteq> share \<longrightarrow> fmlookup (allocatedPorts sm') u = fmlookup (allocatedPorts sm) u) \<and>
    (\<forall>p. fmlookup (allocatedPorts sm) share = Some p \<longrightarrow> fmlookup (files (nsWorld st')) (config_path sm share) = None)"
proof -
  obtain v0 where v0: "getVolumeParameters U (GetConfig P) creq = Ok v0"
    by (rule CreateVolume_resp[OF assms(2)])
  obtain vol :: volume and ap :: access_point_response
    where id: "cvVolumeId resp = volID vol @ ''#'' @ apAccessPointID ap" "share = volID vol"
    using created_labels[OF assms(1,2) v0] assms(3) by metis
  have call: "NodeUnpublishVolume M os rid (share @ ''#'' @ apAccessPointID ap) t st = (Ok (), st')"
    using assms(9) id by simp
  obtain err m1 where cl: "mCleanupMountPoint M t (nsMounts st) = (err, m1)" by (metis prod.exhaust)
  obtain x sm' w' where rt: "RemoveTunnel os share rid (sm, nsWorld st) = (x, sm', w')" by (metis prod.exhaust)
  have ok: "x = Inr ()" "nsMgr st' = Some sm'" "nsWorld st' = w'"
    using call[unfolded NodeUnpublishVolume_eq[OF assms(5,6,7)]] cl rt by (auto split: option.splits sum.splits)
  have "fmlookup (allocatedPorts sm') share = None \<and> (\<forall>u. u \<noteq> share \<longrightarrow> fmlookup (allocatedPorts sm') u = fmlookup (allocatedPorts sm) u) \<and>
    (\<forall>p. fmlookup (allocatedPorts sm) share = Some p \<longrightarrow> fmlookup (files w') (config_path sm share) = None)"
  proof (rule RemoveTunnel_cases[OF rt assms(8)])
    assume "sm' = sm" and used: "\<And>p. fmlookup (allocatedPorts sm) share = Some p \<Longrightarrow> share \<noteq> '''' \<Longrightarrow> isTunnelPortInUse (procMounts os) p"
    then show ?thesis using assms(4,10) by (cases "fmlookup (allocatedPorts sm) share") auto
  qed (use ok in \<open>auto simp: same_maps_def forget_port_def\<close>)
  then show ?thesis using ok by (simp add: GetTunnelPort_def)
qed

text \<open>A node on which the created share has its tunnel.\<close>

definition tunnelled_node :: "mount_entry list node_state" where
  "tunnelled_node = \<lparr>nsMounts = [], nsMgr = Some (restore_port ''r006-1'' 11300 demo_sm),
     nsWorld = demo_world\<lparr>files := fmupd (config_path demo_sm ''r006-1'') (File ''c'') (files demo_world)\<rparr>\<rparr>"

theorem created_volume_unpublished_witness:
  "\<exists>resp s' st' sm sm'. CreateVolume demo_utils demo_driver demo_provider demo_env demo_req ([], []) = (Ok resp, s') \<and>
     nsMgr tunnelled_node = Some sm \<and> GetTunnelPort sm ''r006-1'' = (11300, True) \<and>
     NodeUnpublishVolume table_mounter demo_rm ''r'' (cvVolumeId resp) ''/pod1'' tunnelled_node = (Ok (), st') \<and>
     nsMgr st' = Some sm' \<and> GetTunnelPort sm' ''r006-1'' = (0, False) \<and>
     fmlookup (files (nsWorld tunnelled_node)) (config_path sm ''r006-1'') = Some (File ''c'') \<and>
     fmlookup (files (nsWorld st')) (config_path sm ''r006-1'') = None"
proof -
  let ?sm = "restore_port ''r006-1'' 11300 demo_sm"
  obtain resp s' where c: "CreateVolume demo_utils demo_driver demo_provider demo_env demo_req ([], []) = (Ok resp, s')"
    and ctx: "cvVolumeId resp = ''r006-1#r006-ap''" "map_get (cvContext resp) FileShareIDLabel = ''r006-1''"
    by (rule demo_created)
  have inv: "port_inv ?sm" by (rule port_inv_restore[OF demo_inv]) simp_all
  have held: "fmlookup (allocatedPorts ?sm) ''r006-1'' = Some 11300" and mgr: "nsMgr tunnelled_node = Some ?sm"
    and path: "config_path ?sm ''r006-1'' = config_path demo_sm ''r006-1''"
    by (simp_all add: restore_port_def tunnelled_node_def config_path_def)
  have free: "\<not> isTunnelPortInUse (procMounts demo_rm) 11300" by (simp add: demo_rm_def not_in_use_empty)
  have "TrimSpace ''42'' = ''42''" "Atoi ''42'' = Some 42" by code_simp+
  then obtain sm' w' where "RemoveTunnel demo_rm ''r006-1'' ''r'' (?sm, nsWorld tunnelled_node) = (Inr (), sm', w')"
    using RemoveTunnel_works[OF _ held free, of "''42''" 42 "''r''" "nsWorld tunnelled_node"] by (auto simp: demo_rm_def newline_def)
  then obtain st' where u: "NodeUnpublishVolume table_mounter demo_rm ''r'' (cvVolumeId resp) ''/pod1'' tunnelled_node = (Ok (), st')"
    using NodeUnpublishVolume_eq[OF _ _ mgr, of "''r006-1''" "''/pod1''" table_mounter demo_rm "''r''" "''r006-ap''"] ctx(1)
    by (simp add: table_mounter_def)
  have "\<exists>sm'. nsMgr st' = Some sm' \<and> GetTunnelPort sm' ''r006-1'' = (0, False) \<and>
      (\<forall>u. u \<noteq> ''r006-1'' \<longrightarrow> fmlookup (allocatedPorts sm') u = fmlookup (allocatedPorts ?sm) u) \<and>
      (\<forall>p. fmlookup (allocatedPorts ?sm) ''r006-1'' = Some p \<longrightarrow> fmlookup (files (nsWorld st')) (config_path ?sm ''r006-1'') = None)"
    by (rule created_volume_unpublished[OF demo_labels_ok c _ _ _ _ mgr inv u]) (use held free in \<open>simp_all add: ctx\<close>)
  moreover have "fmlookup (files (nsWorld tunnelled_node)) (config_path ?sm ''r006-1'') = Some (File ''c'')"
    by (simp add: path tunnelled_node_def)
  ultimately show ?thesis using c u mgr held by (auto simp: GetTunnelPort_def)
qed

end
